(* ===== verification/Prelude.thy ===== *)
theory Prelude
  imports Main "HOL-Library.List_Lexorder" "HOL-Library.Char_ord"
begin

text \<open>
  Shared vocabulary of the development. Python exceptions are values of
  \<open>py_error\<close>, and a computation that may raise has type \<open>'a result\<close>
  (\<open>Inl\<close> the exception). Python text is modelled as \<open>string\<close> holding its UTF-8
  bytes: equality, Python's code-point order (UTF-8 byte order is the same order)
  and splitting on the one-byte separator \<open>" "\<close> all agree with the source's
  \<open>str\<close>. The generic lemmas on lists, string order and \<open>searchsorted\<close> that the
  component theories share are collected here and in the \<open>model_simps\<close> bundle.
\<close>

named_theorems model_simps "rewrite rules that evaluate the model on concrete inputs"

datatype py_error =
    KeyError string
  | ValueError string
  | TypeError string
  | IndexError string
  | FileNotFoundError string

type_synonym 'a result = "py_error + 'a"

text \<open>Sequencing of computations that may raise: the first exception propagates.\<close>

definition rbind :: "'a result \<Rightarrow> ('a \<Rightarrow> 'b result) \<Rightarrow> 'b result" where
  "rbind r k = (case r of Inl e \<Rightarrow> Inl e | Inr a \<Rightarrow> k a)"

lemma rbind_Inl [simp]: "rbind (Inl e) k = Inl e"
  and rbind_Inr [simp]: "rbind (Inr a) k = k a"
  by (simp_all add: rbind_def)

lemma rbind_eq_Inr:
  "rbind r k = Inr b \<longleftrightarrow> (\<exists>a. r = Inr a \<and> k a = Inr b)"
  by (cases r) simp_all

text \<open>Python's \<open>d[k]\<close> on a dictionary kept in insertion order: \<open>KeyError\<close> when absent.\<close>

definition dict_get :: "(string \<times> 'v) list \<Rightarrow> string \<Rightarrow> 'v result" where
  "dict_get d k = (case map_of d k of None \<Rightarrow> Inl (KeyError k) | Some v \<Rightarrow> Inr v)"

lemma dict_get_Inr_iff: "(\<exists>v. dict_get d k = Inr v) \<longleftrightarrow> k \<in> set (map fst d)"
proof -
  have "(\<exists>v. dict_get d k = Inr v) \<longleftrightarrow> map_of d k \<noteq> None"
    by (simp add: dict_get_def split: option.split)
  then show ?thesis by (simp add: map_of_eq_None_iff)
qed

subsection \<open>Python's \<open>str.split(sep)\<close> with a one-character separator\<close>

fun split_on :: "char \<Rightarrow> string \<Rightarrow> string list" where
  "split_on c [] = [[]]"
| "split_on c (x # xs) =
     (if x = c then [] # split_on c xs
      else (case split_on c xs of
              [] \<Rightarrow> [[x]]
            | w # ws \<Rightarrow> (x # w) # ws))"

text \<open>Python's \<open>xs[0]\<close>: \<open>IndexError\<close> on an empty list.\<close>

definition py_first :: "'a list \<Rightarrow> 'a result" where
  "py_first xs = (case xs of [] \<Rightarrow> Inl (IndexError ''list index out of range'') | x # _ \<Rightarrow> Inr x)"

text \<open>Python's \<open>sep.join(ws)\<close>.\<close>

fun py_join :: "string \<Rightarrow> string list \<Rightarrow> string" where
  "py_join sep [] = []"
| "py_join sep [w] = w"
| "py_join sep (w # v # ws) = w @ sep @ py_join sep (v # ws)"

text \<open>Python's \<open>str(n)\<close> for an integer.\<close>

definition digit_char :: "nat \<Rightarrow> char" where
  "digit_char d =
     (if d = 0 then CHR ''0'' else if d = 1 then CHR ''1'' else if d = 2 then CHR ''2''
      else if d = 3 then CHR ''3'' else if d = 4 then CHR ''4'' else if d = 5 then CHR ''5''
      else if d = 6 then CHR ''6'' else if d = 7 then CHR ''7'' else if d = 8 then CHR ''8''
      else CHR ''9'')"

fun nat_str :: "nat \<Rightarrow> string" where
  "nat_str n = (if n < 10 then [digit_char n] else nat_str (n div 10) @ [digit_char (n mod 10)])"

declare nat_str.simps [simp del]

definition int_str :: "int \<Rightarrow> string" where
  "int_str i = (if i < 0 then CHR ''-'' # nat_str (nat (- i)) else nat_str (nat i))"

definition starts_with :: "string \<Rightarrow> string \<Rightarrow> bool" where
  "starts_with p s = (take (length p) s = p)"

text \<open>\<open>numpy.searchsorted(classes, v)\<close> (side \<open>left\<close>): the number of entries below \<open>v\<close>.\<close>

definition searchsorted :: "'a::linorder list \<Rightarrow> 'a \<Rightarrow> nat" where
  "searchsorted ls v = length (filter (\<lambda>l. l < v) ls)"

subsection \<open>Lemmas on \<open>split_on\<close>\<close>

lemma split_on_not_Nil [simp]: "split_on c s \<noteq> []"
  by (induction s) (auto split: list.splits)

lemma split_on_Cons_other:
  "x \<noteq> c \<Longrightarrow> split_on c (x # xs) = (x # hd (split_on c xs)) # tl (split_on c xs)"
  by (auto split: list.splits)

lemma py_join_Cons:
  "py_join sep (w # ws) = (if ws = [] then w else w @ sep @ py_join sep ws)"
  by (cases ws) simp_all

lemma py_join_split_on: "py_join [c] (split_on c s) = s"
proof (induction s)
  case Nil
  then show ?case by simp
next
  case (Cons x xs)
  then show ?case
    by (cases "split_on c xs") (auto simp: py_join_Cons split: list.splits)
qed

lemma split_on_pieces: "w \<in> set (split_on c s) \<Longrightarrow> c \<notin> set w"
proof (induction s arbitrary: w)
  case Nil
  then show ?case by simp
next
  case (Cons x xs)
  then show ?case
    by (cases "split_on c xs") (auto split: if_splits)
qed

lemma py_first_split_on: "py_first (split_on c s) = Inr (hd (split_on c s))"
  by (simp add: py_first_def split: list.splits)

lemma hd_split_on_append:
  "c \<notin> set w \<Longrightarrow> hd (split_on c (w @ c # r)) = w"
  by (induction w) (auto split: list.splits)

subsection \<open>String order and sorted level lists\<close>

lemma less_list_simps [simp, model_simps]:
  "(xs::'a::linorder list) < [] \<longleftrightarrow> False"
  "[] < (y::'a::linorder) # ys \<longleftrightarrow> True"
  "(x::'a::linorder) # xs < y # ys \<longleftrightarrow> x < y \<or> x = y \<and> xs < ys"
  by (simp_all add: list_less_def)

lemma sorted_levels: "sorted (sort (remdups xs)) \<and> distinct (sort (remdups xs))"
  by simp

lemma length_filter_mono_pred:
  "(\<And>x. x \<in> set xs \<Longrightarrow> P x \<Longrightarrow> Q x) \<Longrightarrow> length (filter P xs) \<le> length (filter Q xs)"
  by (induction xs) auto

lemma searchsorted_lt: "v \<in> set ls \<Longrightarrow> searchsorted ls v < length ls"
proof -
  assume "v \<in> set ls"
  then have "\<not> list_all (\<lambda>l. l < v) ls" by (auto simp: list_all_iff)
  then show ?thesis
    unfolding searchsorted_def by (metis length_filter_less list_all_iff)
qed

lemma searchsorted_nth:
  assumes "sorted ls" "distinct ls" "v \<in> set ls"
  shows "ls ! searchsorted ls v = v"
  using assms
proof (induction ls)
  case Nil
  then show ?case by simp
next
  case (Cons a ls)
  show ?case
  proof (cases "a = v")
    case True
    with Cons.prems have "\<forall>l\<in>set ls. \<not> l < v" by auto
    with True show ?thesis by (simp add: searchsorted_def filter_False)
  next
    case False
    with Cons.prems have "a < v" and "v \<in> set ls" by (auto simp: le_less)
    with Cons show ?thesis by (simp add: searchsorted_def)
  qed
qed

lemma searchsorted_mono:
  "v < w \<Longrightarrow> v \<in> set ls \<Longrightarrow> searchsorted ls v < searchsorted ls w"
proof (induction ls)
  case Nil
  then show ?case by simp
next
  case (Cons a ls)
  show ?case
  proof (cases "a = v")
    case True
    have "searchsorted ls v \<le> searchsorted ls w"
      unfolding searchsorted_def
      using \<open>v < w\<close> by (intro length_filter_mono_pred) auto
    with True Cons.prems show ?thesis by (simp add: searchsorted_def)
  next
    case False
    with Cons have "searchsorted ls v < searchsorted ls w" by simp
    with Cons.prems show ?thesis
      by (auto simp: searchsorted_def dest: less_trans)
  qed
qed

lemma dict_get_mem: "distinct (map fst d) \<Longrightarrow> (k, v) \<in> set d \<Longrightarrow> dict_get d k = Inr v"
  by (simp add: dict_get_def)

lemma list_all_snd_nth: "list_all (\<lambda>(n, c). P c) xs \<Longrightarrow> j < length xs \<Longrightarrow> P (snd (xs ! j))"
  by (simp add: list_all_length case_prod_beta)

lemma map_upt_nth: "j < n \<Longrightarrow> map g [0..<n] ! j = g j"
  by simp

lemma dropWhile_none: "list_all (\<lambda>c. \<not> P c) s \<Longrightarrow> dropWhile P s = s"
  by (induction s) auto

end
