(* ===== verification/Frame.thy ===== *)
theory Frame
  imports Prelude
begin

text \<open>
  The pandas operations that \<open>src/main.py\<close> applies to its inputs, modelled on a
  column-major data frame. A \<open>frame\<close> is its row count and its columns, each a
  name and one \<open>cell\<close> per row; a cell is an integer, a string or pandas' missing
  value \<open>NaN\<close> (\<open>NA\<close>). A column is of pandas' \<open>object\<close> dtype exactly when it
  holds a string (\<open>obj_col\<close>). \<open>get_dummies\<close> is \<open>pd.get_dummies(df)\<close> with its
  default arguments, \<open>reindex\<close> is \<open>df.reindex(columns=schema, fill_value=0)\<close>
  (main.py lines 142--143 and 178--179), \<open>frame_of_record\<close> is
  \<open>pd.DataFrame([record])\<close> (line 141) and \<open>set_column\<close> is \<open>df[name] = values\<close>
  (lines 150 and 181). Dummy indicators, which pandas stores as booleans, are the
  integers 1 and 0.
\<close>

datatype cell = Num int | Str string | NA

record frame =
  nrows :: nat
  cols :: "(string \<times> cell list) list"

definition columns :: "frame \<Rightarrow> string list" where
  "columns f = map fst (cols f)"

text \<open>A data frame has distinct column labels and one cell per row in every column.\<close>

definition frame_wf :: "frame \<Rightarrow> bool" where
  "frame_wf f \<longleftrightarrow> distinct (columns f) \<and> list_all (\<lambda>(n, c). length c = nrows f) (cols f)"

fun str_of :: "cell \<Rightarrow> string option" where
  "str_of (Str s) = Some s"
| "str_of (Num _) = None"
| "str_of NA = None"

text \<open>Python's \<open>str()\<close> of a cell, as an f-string prints it.\<close>

fun cell_str :: "cell \<Rightarrow> string" where
  "cell_str (Num n) = int_str n"
| "cell_str (Str s) = s"
| "cell_str NA = ''nan''"

definition obj_col :: "cell list \<Rightarrow> bool" where
  "obj_col c \<longleftrightarrow> list_ex (\<lambda>x. str_of x \<noteq> None) c"

text \<open>The categories of an object column: its distinct strings, sorted (pandas' factorize).\<close>

definition levels :: "cell list \<Rightarrow> string list" where
  "levels c = sort (remdups (List.map_filter str_of c))"

definition dummy_col :: "string \<Rightarrow> cell list \<Rightarrow> string \<Rightarrow> string \<times> cell list" where
  "dummy_col n c v = (n @ ''_'' @ v, map (\<lambda>x. Num (if x = Str v then 1 else 0)) c)"

text \<open>
  \<open>pd.get_dummies(df)\<close>: the columns that are not encoded keep their order and come
  first, then, for each object column in order, one indicator column
  \<open><name>_<level>\<close> per level (prefix separator \<open>_\<close>, no column for \<open>NaN\<close>).
\<close>

definition get_dummies :: "frame \<Rightarrow> frame" where
  "get_dummies f = f\<lparr>cols :=
     filter (\<lambda>(n, c). \<not> obj_col c) (cols f) @
     concat (map (\<lambda>(n, c). map (dummy_col n c) (levels c))
                 (filter (\<lambda>(n, c). obj_col c) (cols f)))\<rparr>"

definition lookup_col :: "frame \<Rightarrow> string \<Rightarrow> cell list" where
  "lookup_col f s = (case map_of (cols f) s of Some c \<Rightarrow> c | None \<Rightarrow> replicate (nrows f) (Num 0))"

text \<open>
  \<open>df.reindex(columns=schema, fill_value=0)\<close>: the identical label list is a copy;
  otherwise a frame with duplicate labels raises, and each schema label takes its
  column or a column of zeros.
\<close>

definition reindex :: "string list \<Rightarrow> frame \<Rightarrow> frame result" where
  "reindex schema f =
     (if columns f = schema then Inr f
      else if \<not> distinct (columns f)
      then Inl (ValueError ''cannot reindex on an axis with duplicate labels'')
      else Inr \<lparr>nrows = nrows f, cols = map (\<lambda>s. (s, lookup_col f s)) schema\<rparr>)"

definition row :: "frame \<Rightarrow> nat \<Rightarrow> cell list" where
  "row f i = map (\<lambda>(n, c). c ! i) (cols f)"

definition frame_rows :: "frame \<Rightarrow> cell list list" where
  "frame_rows f = map (row f) [0..<nrows f]"

definition frame_of_record :: "(string \<times> cell) list \<Rightarrow> frame" where
  "frame_of_record r = \<lparr>nrows = 1, cols = map (\<lambda>(k, v). (k, [v])) r\<rparr>"

text \<open>\<open>df[name] = values\<close>: replaces the column in place, or appends it at the end.\<close>

definition set_column :: "string \<Rightarrow> cell list \<Rightarrow> frame \<Rightarrow> frame result" where
  "set_column n vs f =
     (if length vs \<noteq> nrows f
      then Inl (ValueError ''Length of values does not match length of index'')
      else if n \<in> set (columns f)
      then Inr (f\<lparr>cols := map (\<lambda>(m, c). (m, if m = n then vs else c)) (cols f)\<rparr>)
      else Inr (f\<lparr>cols := cols f @ [(n, vs)]\<rparr>))"

text \<open>No label is another label followed by \<open>_\<close>: then dummy labels cannot collide.\<close>

definition unambiguous :: "string list \<Rightarrow> bool" where
  "unambiguous ns \<longleftrightarrow> list_all (\<lambda>n. list_all (\<lambda>m. \<not> starts_with (n @ ''_'') m) ns) ns"

lemmas frame_defs [model_simps] =
  columns_def frame_wf_def obj_col_def levels_def dummy_col_def get_dummies_def
  lookup_col_def reindex_def row_def frame_rows_def frame_of_record_def set_column_def
  unambiguous_def starts_with_def

subsection \<open>Columns and cells\<close>

lemma frame_wf_length: "frame_wf f \<Longrightarrow> (n, c) \<in> set (cols f) \<Longrightarrow> length c = nrows f"
  by (auto simp: frame_wf_def list_all_iff)

lemma frame_wf_distinct: "frame_wf f \<Longrightarrow> distinct (map fst (cols f))"
  by (simp add: frame_wf_def columns_def)

lemma frame_wf_same_col:
  "frame_wf f \<Longrightarrow> (n, c) \<in> set (cols f) \<Longrightarrow> (n, c') \<in> set (cols f) \<Longrightarrow> c' = c"
  using frame_wf_distinct eq_key_imp_eq_value by fastforce

lemma str_of_eq_Some [simp]: "str_of x = Some v \<longleftrightarrow> x = Str v"
  by (cases x) auto

lemma obj_col_iff: "obj_col c \<longleftrightarrow> (\<exists>v. Str v \<in> set c)"
  by (auto simp: obj_col_def list_ex_iff)

lemma set_levels: "set (levels c) = {v. Str v \<in> set c}"
proof -
  have "set (List.map_filter str_of c) = {v. Str v \<in> set c}"
  proof (induction c)
    case Nil
    then show ?case by (simp add: map_filter_simps)
  next
    case (Cons x c)
    then show ?case by (cases x) (auto simp: map_filter_simps)
  qed
  then show ?thesis by (simp add: levels_def)
qed

lemma distinct_levels: "distinct (levels c)"
  by (simp add: levels_def)

lemma non_obj_nth: "\<not> obj_col c \<Longrightarrow> i < length c \<Longrightarrow> c ! i \<noteq> Str v"
  using nth_mem obj_col_iff by fastforce

lemma nrows_get_dummies [simp]: "nrows (get_dummies f) = nrows f"
  by (simp add: get_dummies_def)

text \<open>Which columns \<open>get_dummies\<close> produces: the non-object columns, and one
  indicator per level of each object column.\<close>

lemma set_cols_get_dummies:
  "(s, col) \<in> set (cols (get_dummies f)) \<longleftrightarrow>
     ((s, col) \<in> set (cols f) \<and> \<not> obj_col col) \<or>
     (\<exists>n c v. (n, c) \<in> set (cols f) \<and> obj_col c \<and> v \<in> set (levels c) \<and>
              (s, col) = dummy_col n c v)"
  by (auto simp: get_dummies_def)

lemma get_dummies_wf_lengths:
  "frame_wf f \<Longrightarrow> list_all (\<lambda>(n, c). length c = nrows (get_dummies f)) (cols (get_dummies f))"
  unfolding list_all_iff
  by (auto simp: set_cols_get_dummies dummy_col_def frame_wf_length)

subsection \<open>Distinct dummy labels\<close>

lemma dummy_name_clash:
  assumes "n @ ''_'' @ v = m @ ''_'' @ w"
  shows "n = m \<or> starts_with (n @ ''_'') m \<or> starts_with (m @ ''_'') n"
proof (cases "length n" "length m" rule: linorder_cases)
  case less
  from assms have "take (length n + 1) (n @ ''_'' @ v) = take (length n + 1) (m @ ''_'' @ w)"
    by simp
  with less have "take (length (n @ ''_'')) m = n @ ''_''" by simp
  then show ?thesis by (simp add: starts_with_def)
next
  case equal
  with assms show ?thesis by (simp add: append_eq_append_conv)
next
  case greater
  from assms have "take (length m + 1) (m @ ''_'' @ w) = take (length m + 1) (n @ ''_'' @ v)"
    by simp
  with greater have "take (length (m @ ''_'')) n = m @ ''_''" by simp
  then show ?thesis by (simp add: starts_with_def)
qed

lemma unambiguousD:
  "unambiguous ns \<Longrightarrow> n \<in> set ns \<Longrightarrow> m \<in> set ns \<Longrightarrow> \<not> starts_with (n @ ''_'') m"
  by (auto simp: unambiguous_def list_all_iff)

lemma starts_with_dummy: "starts_with (n @ ''_'') (n @ ''_'' @ v)"
  by (simp add: starts_with_def)

lemma distinct_concat_map:
  assumes "distinct xs" "\<And>x. x \<in> set xs \<Longrightarrow> distinct (g x)"
    and "\<And>x y. x \<in> set xs \<Longrightarrow> y \<in> set xs \<Longrightarrow> x \<noteq> y \<Longrightarrow> set (g x) \<inter> set (g y) = {}"
  shows "distinct (concat (map g xs))"
  using assms
proof (induction xs)
  case Nil
  then show ?case by simp
next
  case (Cons a xs)
  have "set (g a) \<inter> set (concat (map g xs)) = {}"
  proof -
    have "set (g a) \<inter> set (g y) = {}" if "y \<in> set xs" for y
      using Cons.prems that by (intro Cons.prems(3)) auto
    then show ?thesis by auto
  qed
  with Cons show ?case by simp
qed

end
