(* ===== verification/Align.thy ===== *)
theory Align
  imports Frame
begin

text \<open>
  The inference adapter of \<open>src/main.py\<close>: \<open>align\<close> is the dummy-encode-then-reindex
  step (lines 142--143 for the manual record, 178--179 for an uploaded table) and
  \<open>predict\<close> is \<open>model.predict(X)\<close> (lines 145 and 180) on the fitted classifier,
  whose decision function is left abstract: only the input validation that scikit-learn
  performs before deciding is modelled (feature names, string cells, NaN, empty input).

  The abstract specification \<open>encode_row\<close> says what one encoded row is, row by row:
  a schema column takes the row's own value when it names a numeric column, 1 when it
  names the \<open><field>_<value>\<close> indicator of the row's string in an object column, and
  0 otherwise. \<open>align_spec\<close> lifts it to a frame, and \<open>align_refines_spec\<close> shows
  that \<open>align\<close> computes it whenever no label is another label followed by \<open>_\<close>.
\<close>

definition align :: "string list \<Rightarrow> frame \<Rightarrow> frame result" where
  "align schema f = reindex schema (get_dummies f)"

record classifier =
  feature_names_in :: "string list"
  allow_nan :: bool
  decide :: "cell list \<Rightarrow> cell"

definition predict :: "classifier \<Rightarrow> frame \<Rightarrow> cell list result" where
  "predict m X =
     (if columns X \<noteq> feature_names_in m
      then Inl (ValueError ''The feature names should match those that were passed during fit.'')
      else if list_ex (\<lambda>(n, c). obj_col c) (cols X)
      then Inl (ValueError ''could not convert string to float'')
      else if \<not> allow_nan m \<and> list_ex (\<lambda>(n, c). NA \<in> set c) (cols X)
      then Inl (ValueError ''Input X contains NaN.'')
      else if nrows X = 0
      then Inl (ValueError ''Found array with 0 sample(s)'')
      else Inr (map (decide m) (frame_rows X)))"

subsection \<open>The row-level specification\<close>

text \<open>A column, seen from one row: its label, whether it is an object column, the cell.\<close>

fun hit :: "string \<Rightarrow> (string \<times> bool) \<times> cell \<Rightarrow> bool" where
  "hit s ((n, obj), Str v) = (s = n @ ''_'' @ v)"
| "hit s ((n, obj), x) = (\<not> obj \<and> n = s)"

fun hit_val :: "(string \<times> bool) \<times> cell \<Rightarrow> cell" where
  "hit_val (_, Str v) = Num 1"
| "hit_val (_, x) = x"

definition enc_cell :: "((string \<times> bool) \<times> cell) list \<Rightarrow> string \<Rightarrow> cell" where
  "enc_cell ts s = (case find (hit s) ts of None \<Rightarrow> Num 0 | Some t \<Rightarrow> hit_val t)"

definition col_types :: "frame \<Rightarrow> (string \<times> bool) list" where
  "col_types f = map (\<lambda>(n, c). (n, obj_col c)) (cols f)"

definition encode_row :: "(string \<times> bool) list \<Rightarrow> string list \<Rightarrow> cell list \<Rightarrow> cell list" where
  "encode_row tys schema r = map (enc_cell (zip tys r)) schema"

definition align_spec :: "string list \<Rightarrow> frame \<Rightarrow> frame" where
  "align_spec schema f =
     \<lparr>nrows = nrows f,
      cols = map (\<lambda>s. (s, map (\<lambda>i. enc_cell (zip (col_types f) (row f i)) s) [0..<nrows f])) schema\<rparr>"

text \<open>Row \<open>i\<close> of a table as a table of its own (\<open>df.iloc[[i]]\<close>), and one cell overwritten.\<close>

definition row_frame :: "frame \<Rightarrow> nat \<Rightarrow> frame" where
  "row_frame f i = \<lparr>nrows = 1, cols = map (\<lambda>(n, c). (n, [c ! i])) (cols f)\<rparr>"

definition set_cell :: "string \<Rightarrow> nat \<Rightarrow> cell \<Rightarrow> frame \<Rightarrow> frame" where
  "set_cell n i x f = f\<lparr>cols := map (\<lambda>(m, c). (m, if m = n then c[i := x] else c)) (cols f)\<rparr>"

lemmas align_defs [model_simps] =
  align_def predict_def enc_cell_def col_types_def encode_row_def align_spec_def
  row_frame_def set_cell_def

subsection \<open>Labels after \<open>get_dummies\<close>\<close>

lemma name_in_columns: "(n, c) \<in> set (cols f) \<Longrightarrow> n \<in> set (columns f)"
  by (force simp: columns_def)

text \<open>Two indicator labels of an unambiguous frame agree only for the same column and level.\<close>

lemma dummy_label_unique:
  assumes "frame_wf f" "unambiguous (columns f)"
    and "(n, c) \<in> set (cols f)" "(m, c') \<in> set (cols f)"
    and "n @ ''_'' @ v = m @ ''_'' @ w"
  shows "n = m \<and> c' = c \<and> v = w"
proof -
  have "\<not> starts_with (n @ ''_'') m" "\<not> starts_with (m @ ''_'') n"
    using assms(2-4) by (auto dest: unambiguousD name_in_columns)
  with assms(5) have "n = m" using dummy_name_clash by blast
  with assms show ?thesis using frame_wf_same_col by auto
qed

lemma label_not_dummy:
  assumes "unambiguous (columns f)" "(n, c) \<in> set (cols f)" "(m, c') \<in> set (cols f)"
  shows "m \<noteq> n @ ''_'' @ v"
  using assms starts_with_dummy by (metis name_in_columns unambiguousD)

lemma columns_get_dummies:
  "columns (get_dummies f) =
     map fst (filter (\<lambda>(n, c). \<not> obj_col c) (cols f)) @
     concat (map (\<lambda>x. map (\<lambda>v. fst x @ ''_'' @ v) (levels (snd x)))
                 (filter (\<lambda>(n, c). obj_col c) (cols f)))"
  by (simp add: columns_def get_dummies_def map_concat case_prod_beta dummy_col_def comp_def)

lemma distinct_columns_get_dummies:
  assumes "frame_wf f" "unambiguous (columns f)"
  shows "distinct (columns (get_dummies f))"
proof -
  let ?keep = "filter (\<lambda>(n, c). \<not> obj_col c) (cols f)"
  let ?enc = "filter (\<lambda>(n, c). obj_col c) (cols f)"
  let ?g = "\<lambda>x. map (\<lambda>v. fst x @ ''_'' @ v) (levels (snd x))"
  have dist: "distinct (map fst (cols f))" using assms(1) by (rule frame_wf_distinct)
  have cols_eq: "columns (get_dummies f) = map fst ?keep @ concat (map ?g ?enc)"
    by (rule columns_get_dummies)
  have d1: "distinct (map fst ?keep)" using dist by (simp add: distinct_map_filter)
  have d2: "distinct (concat (map ?g ?enc))"
  proof (rule distinct_concat_map)
    show "distinct ?enc" using dist by (simp add: distinct_map)
  next
    fix x assume "x \<in> set ?enc"
    show "distinct (?g x)"
      by (cases x) (simp add: distinct_map distinct_levels inj_on_def)
  next
    fix x y assume x: "x \<in> set ?enc" and y: "y \<in> set ?enc" and "x \<noteq> y"
    obtain n c m c' where xy: "x = (n, c)" "y = (m, c')" by fastforce
    show "set (?g x) \<inter> set (?g y) = {}"
    proof (rule ccontr)
      assume "set (?g x) \<inter> set (?g y) \<noteq> {}"
      then obtain v w where eq: "n @ ''_'' @ v = m @ ''_'' @ w" using xy by auto
      from x y xy have "(n, c) \<in> set (cols f)" "(m, c') \<in> set (cols f)" by auto
      from dummy_label_unique [OF assms this eq] have "n = m \<and> c' = c" by simp
      with xy \<open>x \<noteq> y\<close> show False by simp
    qed
  qed
  have d3: "set (map fst ?keep) \<inter> set (concat (map ?g ?enc)) = {}"
  proof (rule ccontr)
    assume "set (map fst ?keep) \<inter> set (concat (map ?g ?enc)) \<noteq> {}"
    then obtain s c' n c v where "(s, c') \<in> set (cols f)" "(n, c) \<in> set (cols f)"
      and "s = n @ ''_'' @ v" by force
    then show False using label_not_dummy [OF assms(2)] by blast
  qed
  show ?thesis using d1 d2 d3 cols_eq by simp
qed

subsection \<open>The encoded cell, column by column and row by row\<close>

text \<open>The uniqueness premise is kept away from the simplifier: as a rewrite rule
  \<open>y = x\<close> it would rewrite \<open>x\<close> to itself forever.\<close>

lemma find_unique:
  assumes "x \<in> set xs" "P x" "\<forall>y\<in>set xs. P y \<longrightarrow> y = x"
  shows "find P xs = Some x"
  using assms
proof (induction xs)
  case Nil
  then show ?case by simp
next
  case (Cons a xs)
  show ?case
  proof (cases "P a")
    case True
    from Cons.prems(3) True have "a = x" by (meson list.set_intros(1))
    with True show ?thesis by simp
  next
    case False
    from Cons.prems(2) False have "x \<noteq> a" by blast
    with Cons.prems(1) have "x \<in> set xs" by simp
    moreover from Cons.prems(3) have "\<forall>y\<in>set xs. P y \<longrightarrow> y = x"
      by (meson list.set_intros(2))
    ultimately have "find P xs = Some x" using Cons.prems(2) by (intro Cons.IH)
    with False show ?thesis by simp
  qed
qed

lemma zip_map_same: "zip (map g xs) (map h xs) = map (\<lambda>x. (g x, h x)) xs"
  by (induction xs) auto

lemma zip_col_types_row:
  "zip (col_types f) (row f i) = map (\<lambda>(n, c). ((n, obj_col c), c ! i)) (cols f)"
  by (simp add: col_types_def row_def zip_map_same case_prod_beta)

lemma hit_val_nonstr: "(\<And>w. x \<noteq> Str w) \<Longrightarrow> hit_val (p, x) = x"
  by (cases x) auto

lemma hit_iff:
  "hit s ((m, b), x) \<longleftrightarrow> (case x of Str w \<Rightarrow> s = m @ ''_'' @ w | _ \<Rightarrow> \<not> b \<and> m = s)"
  by (cases x) auto

lemma lookup_get_dummies_nth:
  assumes wf: "frame_wf f" and un: "unambiguous (columns f)" and i: "i < nrows f"
  shows "lookup_col (get_dummies f) s ! i = enc_cell (zip (col_types f) (row f i)) s"
proof -
  let ?ts = "map (\<lambda>(n, c). ((n, obj_col c), c ! i)) (cols f)"
  have len: "\<And>n c. (n, c) \<in> set (cols f) \<Longrightarrow> i < length c"
    using wf i frame_wf_length by fastforce
  have dist: "distinct (map fst (cols (get_dummies f)))"
    using distinct_columns_get_dummies [OF wf un] by (simp add: columns_def)
  show ?thesis
  proof (cases "map_of (cols (get_dummies f)) s")
    case None
    then have notin: "\<And>col. (s, col) \<notin> set (cols (get_dummies f))"
      by (simp add: map_of_eq_None_iff image_iff) (metis fst_conv)
    have "find (hit s) ?ts = None"
    proof (rule ccontr)
      assume "find (hit s) ?ts \<noteq> None"
      then obtain n c where nc: "(n, c) \<in> set (cols f)" and h: "hit s ((n, obj_col c), c ! i)"
        by (auto simp: find_None_iff)
      show False
      proof (cases "c ! i")
        case (Str v)
        with nc len have "Str v \<in> set c" by (metis nth_mem)
        then have "obj_col c" "v \<in> set (levels c)" by (auto simp: obj_col_iff set_levels)
        with nc h Str notin show False
          by (simp add: set_cols_get_dummies dummy_col_def) blast
      next
        case (Num k)
        with h nc notin show False by (auto simp: set_cols_get_dummies)
      next
        case NA
        with h nc notin show False by (auto simp: set_cols_get_dummies)
      qed
    qed
    with None i show ?thesis by (simp add: lookup_col_def enc_cell_def zip_col_types_row)
  next
    case (Some col)
    then have mem: "(s, col) \<in> set (cols (get_dummies f))" by (rule map_of_SomeD)
    then have look: "lookup_col (get_dummies f) s = col"
      using Some by (simp add: lookup_col_def)
    from mem consider
        (raw) "(s, col) \<in> set (cols f)" "\<not> obj_col col"
      | (dummy) n c v where "(n, c) \<in> set (cols f)" "obj_col c" "v \<in> set (levels c)"
          "s = n @ ''_'' @ v" "col = map (\<lambda>x. Num (if x = Str v then 1 else 0)) c"
      by (auto simp: set_cols_get_dummies dummy_col_def)
    then show ?thesis
    proof cases
      case raw
      let ?t = "((s, False), col ! i)"
      have nostr: "\<And>w. col ! i \<noteq> Str w" using raw len non_obj_nth by blast
      have "find (hit s) ?ts = Some ?t"
      proof (rule find_unique)
        show "?t \<in> set ?ts" using raw by force
        show "hit s ?t" using nostr by (cases "col ! i") auto
        show "\<forall>t\<in>set ?ts. hit s t \<longrightarrow> t = ?t"
        proof (intro ballI impI)
        fix t assume "t \<in> set ?ts" "hit s t"
        then obtain m c' where mc: "(m, c') \<in> set (cols f)" and t: "t = ((m, obj_col c'), c' ! i)"
          and h: "hit s ((m, obj_col c'), c' ! i)" by auto
        show "t = ?t"
        proof (cases "\<exists>w. c' ! i = Str w")
          case True
          with h raw mc show ?thesis using label_not_dummy [OF un] by (auto simp: hit_iff)
        next
          case False
          with h have "\<not> obj_col c'" "m = s" by (auto simp: hit_iff split: cell.splits)
          with mc raw wf t show ?thesis using frame_wf_same_col by fastforce
        qed
        qed
      qed
      with look show ?thesis
        by (simp add: enc_cell_def zip_col_types_row hit_val_nonstr [OF nostr])
    next
      case dummy
      have coli: "col ! i = Num (if c ! i = Str v then 1 else 0)"
        using dummy len by simp
      have unique: "t = ((n, obj_col c), Str v)"
        if "t \<in> set ?ts" "hit s t" for t
      proof -
        from that obtain m c' where mc: "(m, c') \<in> set (cols f)"
          and t: "t = ((m, obj_col c'), c' ! i)" and h: "hit s ((m, obj_col c'), c' ! i)" by auto
        show ?thesis
        proof (cases "\<exists>w. c' ! i = Str w")
          case True
          then obtain w where w: "c' ! i = Str w" by blast
          with h dummy have "n @ ''_'' @ v = m @ ''_'' @ w" by simp
          from dummy_label_unique [OF wf un dummy(1) mc this] w t show ?thesis by simp
        next
          case False
          with h have "m = s" by (auto simp: hit_iff split: cell.splits)
          with dummy mc show ?thesis using label_not_dummy [OF un] by blast
        qed
      qed
      show ?thesis
      proof (cases "c ! i = Str v")
        case True
        have "find (hit s) ?ts = Some ((n, obj_col c), Str v)"
        proof (rule find_unique)
          show "((n, obj_col c), Str v) \<in> set ?ts" using dummy(1) True by force
          show "hit s ((n, obj_col c), Str v)" using dummy by simp
          show "\<forall>t\<in>set ?ts. hit s t \<longrightarrow> t = ((n, obj_col c), Str v)"
            using unique by blast
        qed
        with look coli True show ?thesis by (simp add: enc_cell_def zip_col_types_row)
      next
        case False
        have "find (hit s) ?ts = None"
        proof (rule ccontr)
          assume "find (hit s) ?ts \<noteq> None"
          then obtain t where "t \<in> set ?ts" "hit s t" by (meson find_None_iff)
          with unique have "t = ((n, obj_col c), Str v)" by blast
          with \<open>t \<in> set ?ts\<close> obtain m c' where "(m, c') \<in> set (cols f)" "m = n" "c' ! i = Str v"
            by auto
          with dummy(1) wf False show False using frame_wf_same_col by blast
        qed
        with look coli False show ?thesis by (simp add: enc_cell_def zip_col_types_row)
      qed
    qed
  qed
qed

subsection \<open>\<open>align\<close> computes the specification\<close>

lemma map_of_rebuild:
  "distinct (map fst xs) \<Longrightarrow>
   map (\<lambda>k. (k, case map_of xs k of Some c \<Rightarrow> c | None \<Rightarrow> d)) (map fst xs) = xs"
proof (induction xs)
  case Nil
  then show ?case by simp
next
  case (Cons p xs)
  obtain a b where p: "p = (a, b)" by fastforce
  have "map (\<lambda>k. (k, case map_of (p # xs) k of Some c \<Rightarrow> c | None \<Rightarrow> d)) (map fst xs) =
        map (\<lambda>k. (k, case map_of xs k of Some c \<Rightarrow> c | None \<Rightarrow> d)) (map fst xs)"
    using Cons.prems p by (intro map_cong) auto
  with Cons p show ?case by simp
qed

lemma reindex_distinct:
  assumes "distinct (columns g)"
  shows "reindex schema g = Inr \<lparr>nrows = nrows g, cols = map (\<lambda>s. (s, lookup_col g s)) schema\<rparr>"
proof (cases "columns g = schema")
  case True
  have "map (\<lambda>s. (s, lookup_col g s)) (columns g) = cols g"
    using assms map_of_rebuild by (simp add: columns_def lookup_col_def)
  with True show ?thesis by (simp add: reindex_def)
next
  case False
  with assms show ?thesis by (simp add: reindex_def)
qed

lemma length_lookup_col:
  "list_all (\<lambda>(n, c). length c = nrows g) (cols g) \<Longrightarrow> length (lookup_col g s) = nrows g"
  by (auto simp: lookup_col_def list_all_iff dest: map_of_SomeD split: option.splits)

lemma align_eq_spec:
  assumes wf: "frame_wf f" and un: "unambiguous (columns f)"
  shows "align schema f = Inr (align_spec schema f)"
proof -
  have col: "lookup_col (get_dummies f) s = map (\<lambda>i. enc_cell (zip (col_types f) (row f i)) s) [0..<nrows f]"
    for s
  proof (rule nth_equalityI)
    show "length (lookup_col (get_dummies f) s) = length (map (\<lambda>i. enc_cell (zip (col_types f) (row f i)) s) [0..<nrows f])"
      using length_lookup_col [OF get_dummies_wf_lengths [OF wf]] by simp
  next
    fix i assume "i < length (lookup_col (get_dummies f) s)"
    then have "i < nrows f"
      using length_lookup_col [OF get_dummies_wf_lengths [OF wf]] by simp
    then show "lookup_col (get_dummies f) s ! i = map (\<lambda>i. enc_cell (zip (col_types f) (row f i)) s) [0..<nrows f] ! i"
      using lookup_get_dummies_nth [OF wf un] by simp
  qed
  show ?thesis
    using reindex_distinct [OF distinct_columns_get_dummies [OF wf un]]
    by (simp add: align_def align_spec_def col)
qed

lemma frame_rows_align_spec:
  "frame_rows (align_spec schema f) = map (encode_row (col_types f) schema) (frame_rows f)"
  by (simp add: frame_rows_def align_spec_def row_def encode_row_def comp_def)

lemma columns_align_spec [simp]: "columns (align_spec schema f) = schema"
  by (simp add: columns_def align_spec_def comp_def)

lemma nrows_align_spec [simp]: "nrows (align_spec schema f) = nrows f"
  by (simp add: align_spec_def)

subsection \<open>Shared lemmas for the properties\<close>

lemma enc_cell_cong:
  assumes "list_all2 (\<lambda>t t'. (hit s t \<longleftrightarrow> hit s t') \<and> (hit s t \<longrightarrow> hit_val t = hit_val t')) ts ts'"
  shows "enc_cell ts s = enc_cell ts' s"
  using assms by (induction rule: list_all2_induct) (auto simp: enc_cell_def)

lemma enc_cell_not_NA: "\<forall>t\<in>set ts. snd t \<noteq> NA \<Longrightarrow> enc_cell ts s \<noteq> NA"
proof -
  assume none: "\<forall>t\<in>set ts. snd t \<noteq> NA"
  show ?thesis
  proof (cases "find (hit s) ts")
    case None
    then show ?thesis by (simp add: enc_cell_def)
  next
    case (Some t)
    then have "t \<in> set ts" by (auto simp: find_Some_iff)
    with none Some show ?thesis
      by (cases t rule: hit_val.cases) (auto simp: enc_cell_def)
  qed
qed

lemma list_all2_map_same:
  "(\<And>x. x \<in> set xs \<Longrightarrow> P (g x) (h x)) \<Longrightarrow> list_all2 P (map g xs) (map h xs)"
  by (induction xs) auto

lemma dummy_col_numeric: "\<not> obj_col (snd (dummy_col n c v))"
  by (auto simp: dummy_col_def obj_col_iff)

lemma get_dummies_cols_numeric:
  "(s, col) \<in> set (cols (get_dummies f)) \<Longrightarrow> \<not> obj_col col"
  by (auto simp: set_cols_get_dummies dummy_col_def obj_col_iff)

lemma lookup_col_get_dummies_numeric: "\<not> obj_col (lookup_col (get_dummies f) s)"
proof (cases "map_of (cols (get_dummies f)) s")
  case None
  then show ?thesis by (simp add: lookup_col_def obj_col_iff)
next
  case (Some col)
  then have "\<not> obj_col col" by (blast dest: map_of_SomeD get_dummies_cols_numeric)
  with Some show ?thesis by (simp add: lookup_col_def)
qed

lemma enc_cell_obj_col:
  assumes wf: "frame_wf f" and un: "unambiguous (columns f)"
    and nc: "(n, c) \<in> set (cols f)" and obj: "obj_col c"
  shows "enc_cell (zip (col_types f) (row f i)) n = Num 0"
proof -
  have "\<not> hit n ((m, obj_col c'), c' ! i)" if mc: "(m, c') \<in> set (cols f)" for m c'
  proof (cases "c' ! i")
    case (Str v)
    have "\<not> starts_with (m @ ''_'') n"
      using unambiguousD [OF un name_in_columns [OF mc] name_in_columns [OF nc]] .
    then show ?thesis using Str starts_with_dummy by auto
  next
    case NA
    have "m = n \<Longrightarrow> c' = c"
      using wf mc nc by (auto simp: frame_wf_def columns_def intro: eq_key_imp_eq_value)
    then show ?thesis using NA obj by auto
  next
    case (Num a)
    have "m = n \<Longrightarrow> c' = c"
      using wf mc nc by (auto simp: frame_wf_def columns_def intro: eq_key_imp_eq_value)
    then show ?thesis using Num obj by auto
  qed
  then have "find (hit n) (zip (col_types f) (row f i)) = None"
    by (auto simp: zip_col_types_row find_None_iff)
  then show ?thesis by (simp add: enc_cell_def)
qed

lemma map_of_map_keys:
  "map_of (map (\<lambda>s. (s, g s)) xs) k = (if k \<in> set xs then Some (g k) else None)"
  by (induction xs) auto

lemma lookup_col_align_spec:
  "n \<in> set schema \<Longrightarrow>
   lookup_col (align_spec schema f) n = map (\<lambda>i. enc_cell (zip (col_types f) (row f i)) n) [0..<nrows f]"
  by (simp add: lookup_col_def align_spec_def map_of_map_keys)

lemma align_Inr_cases:
  assumes "align schema f = Inr g"
  shows "(columns (get_dummies f) = schema \<and> g = get_dummies f) \<or>
         g = \<lparr>nrows = nrows f, cols = map (\<lambda>s. (s, lookup_col (get_dummies f) s)) schema\<rparr>"
  using assms by (auto simp: align_def reindex_def split: if_splits)

lemma align_columns: "align schema f = Inr g \<Longrightarrow> columns g = schema"
  by (drule align_Inr_cases) (auto simp: columns_def comp_def)

lemma align_cols_numeric:
  "align schema f = Inr g \<Longrightarrow> \<forall>(n, c)\<in>set (cols g). \<not> obj_col c"
proof -
  assume "align schema f = Inr g"
  then consider "g = get_dummies f"
    | "g = \<lparr>nrows = nrows f, cols = map (\<lambda>s. (s, lookup_col (get_dummies f) s)) schema\<rparr>"
    using align_Inr_cases by blast
  then show ?thesis
  proof cases
    case 1
    then show ?thesis using get_dummies_cols_numeric by blast
  next
    case 2
    with lookup_col_get_dummies_numeric show ?thesis by auto
  qed
qed

lemma frame_wf_row_frame: "frame_wf f \<Longrightarrow> frame_wf (row_frame f i)"
  by (simp add: frame_wf_def row_frame_def columns_def comp_def case_prod_beta list_all_iff)

lemma columns_row_frame [simp]: "columns (row_frame f i) = columns f"
  by (simp add: row_frame_def columns_def comp_def case_prod_beta)

lemma frame_rows_row_frame: "frame_rows (row_frame f i) = [row f i]"
  by (simp add: frame_rows_def row_frame_def row_def comp_def case_prod_beta)

lemma frame_wf_set_cell: "frame_wf f \<Longrightarrow> frame_wf (set_cell n i x f)"
  by (simp add: frame_wf_def set_cell_def columns_def comp_def case_prod_beta list_all_iff)

lemma nrows_set_cell [simp]: "nrows (set_cell n i x f) = nrows f"
  by (simp add: set_cell_def)

lemma columns_set_cell [simp]: "columns (set_cell n i x f) = columns f"
  by (simp add: set_cell_def columns_def comp_def case_prod_beta)

text \<open>Two tables whose columns differ cell-wise agree on an encoded cell when each
  column, seen from the row, hits the label alike and with the same value.\<close>

lemma zip_rows_cong:
  assumes "\<And>m d. (m, d) \<in> set (cols f) \<Longrightarrow>
     R ((m, obj_col (h m d)), h m d ! j) ((m, obj_col d), d ! k)"
  shows "list_all2 R (map (\<lambda>(m, c). ((m, obj_col c), c ! j)) (map (\<lambda>(m, c). (m, h m c)) (cols f)))
                     (map (\<lambda>(m, c). ((m, obj_col c), c ! k)) (cols f))"
  using assms by (simp add: comp_def case_prod_beta list_all2_map_same)

lemma row_row_frame: "row (row_frame f i) 0 = row f i"
  by (simp add: row_def row_frame_def comp_def case_prod_beta)

lemma length_frame_rows [simp]: "length (frame_rows f) = nrows f"
  by (simp add: frame_rows_def)

lemma frame_wf_replace_col:
  "frame_wf f \<Longrightarrow> length c' = nrows f \<Longrightarrow>
   frame_wf (f\<lparr>cols := map (\<lambda>(m, c). (m, if m = n then c' else c)) (cols f)\<rparr>)"
  by (simp add: frame_wf_def columns_def comp_def case_prod_beta list_all_iff)

lemma columns_replace_col:
  "columns (f\<lparr>cols := map (\<lambda>(m, c). (m, if m = n then c' else c)) (cols f)\<rparr>) = columns f"
  by (simp add: columns_def comp_def case_prod_beta)

lemma nth_frame_rows: "i < nrows f \<Longrightarrow> frame_rows f ! i = row f i"
  by (simp add: frame_rows_def)

text \<open>A column that neither is a schema label nor prefixes one with \<open>_\<close> is invisible to
  the alignment: its cells can change freely.\<close>

lemma align_replace_invisible:
  assumes wf: "frame_wf f" and un: "unambiguous (columns f)" and len: "length c' = nrows f"
    and n: "n \<notin> set schema" and pre: "\<forall>s\<in>set schema. \<not> starts_with (n @ ''_'') s"
  shows "align schema (f\<lparr>cols := map (\<lambda>(m, c). (m, if m = n then c' else c)) (cols f)\<rparr>) =
         align schema f"
proof -
  let ?h = "\<lambda>m c. if m = n then c' else c"
  let ?f' = "f\<lparr>cols := map (\<lambda>(m, c). (m, ?h m c)) (cols f)\<rparr>"
  have wf': "frame_wf ?f'" using wf len by (rule frame_wf_replace_col)
  have un': "unambiguous (columns ?f')" using un by (simp add: columns_replace_col)
  have same: "enc_cell (zip (col_types ?f') (row ?f' j)) s = enc_cell (zip (col_types f) (row f j)) s"
    if s: "s \<in> set schema" for s j
  proof -
    have nohit: "\<not> hit s ((n, b), x)" for b x
      using s n pre starts_with_dummy by (cases x) auto
    have cols': "cols ?f' = map (\<lambda>(m, c). (m, ?h m c)) (cols f)" by simp
    have "list_all2 (\<lambda>t t'. (hit s t \<longleftrightarrow> hit s t') \<and> (hit s t \<longrightarrow> hit_val t = hit_val t'))
            (zip (col_types ?f') (row ?f' j)) (zip (col_types f) (row f j))"
      unfolding zip_col_types_row cols'
    proof (rule zip_rows_cong)
      fix m d assume "(m, d) \<in> set (cols f)"
      show "(hit s ((m, obj_col (?h m d)), ?h m d ! j) \<longleftrightarrow> hit s ((m, obj_col d), d ! j)) \<and>
            (hit s ((m, obj_col (?h m d)), ?h m d ! j) \<longrightarrow>
             hit_val ((m, obj_col (?h m d)), ?h m d ! j) = hit_val ((m, obj_col d), d ! j))"
        using nohit by (cases "m = n") auto
    qed
    then show ?thesis by (rule enc_cell_cong)
  qed
  have "align_spec schema ?f' = align_spec schema f"
    using same by (simp add: align_spec_def)
  then show ?thesis using align_eq_spec [OF wf un] align_eq_spec [OF wf' un'] by simp
qed

subsection \<open>Properties of the alignment\<close>

text \<open>A concrete record used by the witnesses: the manual form's first scenario of the spec.\<close>

definition ex_record_frame :: frame where
  "ex_record_frame = frame_of_record
     [(''age'', Num 30), (''gender'', Str ''Male''), (''workclass'', Str ''Private'')]"

definition ex_schema :: "string list" where
  "ex_schema = [''age'', ''gender_Male'', ''gender_Female'', ''workclass_Private'']"

definition ex_record_frame2 :: frame where
  "ex_record_frame2 = frame_of_record
     [(''age'', Num 45), (''gender'', Str ''Female''), (''workclass'', Str ''Government'')]"

text \<open>The spec's third scenario: three uploaded rows, the third without a gender.\<close>

definition ex_batch :: frame where
  "ex_batch = \<lparr>nrows = 3, cols =
     [(''age'', [Num 30, Num 45, Num 52]),
      (''gender'', [Str ''Male'', Str ''Female'', NA]),
      (''workclass'', [Str ''Private'', Str ''Government'', Str ''Private''])]\<rparr>"

lemma ex_record_frame_ok: "frame_wf ex_record_frame \<and> unambiguous (columns ex_record_frame)"
  by (simp add: ex_record_frame_def frame_defs)

text \<open>
  C1. Refinement: on a well-formed table in which no label is another label followed
  by \<open>_\<close>, the dummy-encode-then-reindex step never raises and yields exactly the
  row-by-row specification: each output row is \<open>encode_row\<close> of the input row, the
  columns are the schema's, in its order, one output row per input row.
\<close>

theorem align_refines_encode_row:
  assumes "frame_wf f" "unambiguous (columns f)"
  shows "\<exists>g. align schema f = Inr g \<and> columns g = schema \<and> nrows g = nrows f \<and>
             frame_rows g = map (encode_row (col_types f) schema) (frame_rows f)"
  using align_eq_spec [OF assms] frame_rows_align_spec by simp

theorem align_refines_encode_row_witness:
  "\<exists>g. align ex_schema ex_record_frame = Inr g \<and> columns g = ex_schema \<and> nrows g = 1 \<and>
       frame_rows g = [[Num 30, Num 1, Num 0, Num 1]]"
proof -
  from align_refines_encode_row [OF conjunct1 [OF ex_record_frame_ok] conjunct2 [OF ex_record_frame_ok]]
  obtain g where "align ex_schema ex_record_frame = Inr g" "columns g = ex_schema"
    "nrows g = nrows ex_record_frame"
    "frame_rows g = map (encode_row (col_types ex_record_frame) ex_schema) (frame_rows ex_record_frame)"
    by blast
  then show ?thesis
    by (simp add: ex_record_frame_def ex_schema_def frame_defs align_defs)
qed

text \<open>
  C2. Output type: whatever the input, a successful alignment has exactly the schema's
  labels, the input's row count, one cell per row in every column, and no string cell:
  only numbers and \<open>NaN\<close> reach the model.
\<close>

theorem align_output_shape:
  assumes "frame_wf f" "align schema f = Inr g"
  shows "columns g = schema \<and> nrows g = nrows f \<and>
         list_all (\<lambda>(n, c). length c = nrows g) (cols g) \<and>
         list_all (\<lambda>(n, c). \<not> obj_col c) (cols g)"
proof -
  have lens: "list_all (\<lambda>(n, c). length c = nrows f) (cols (get_dummies f))"
    using get_dummies_wf_lengths [OF assms(1)] by simp
  from align_Inr_cases [OF assms(2)]
  have shape: "nrows g = nrows f \<and> list_all (\<lambda>(n, c). length c = nrows g) (cols g)"
  proof (elim disjE conjE)
    assume "g = get_dummies f"
    with lens show ?thesis by simp
  next
    assume "g = \<lparr>nrows = nrows f, cols = map (\<lambda>s. (s, lookup_col (get_dummies f) s)) schema\<rparr>"
    with length_lookup_col [OF get_dummies_wf_lengths [OF assms(1)]] show ?thesis
      by (simp add: list_all_iff)
  qed
  moreover have "list_all (\<lambda>(n, c). \<not> obj_col c) (cols g)"
    using align_cols_numeric [OF assms(2)] by (simp add: list_all_iff)
  ultimately show ?thesis using align_columns [OF assms(2)] by auto
qed

theorem align_output_shape_witness:
  "columns (align_spec ex_schema ex_record_frame) = ex_schema \<and> nrows (align_spec ex_schema ex_record_frame) = 1"
proof -
  have ok: "align ex_schema ex_record_frame = Inr (align_spec ex_schema ex_record_frame)"
    using ex_record_frame_ok by (simp add: align_eq_spec)
  have "frame_wf ex_record_frame" using ex_record_frame_ok by simp
  from align_output_shape [OF this ok] show ?thesis by (simp add: ex_record_frame_def frame_defs)
qed

text \<open>
  C3. Unknown category: a string value whose indicator column is not in the schema
  contributes nothing; the aligned table is the one obtained when that cell is missing,
  so no schema column of the row's field is set and the alignment does not raise.
\<close>

theorem align_unknown_as_missing:
  assumes wf: "frame_wf f" and un: "unambiguous (columns f)"
    and nc: "(n, c) \<in> set (cols f)" and i: "i < nrows f" and v: "c ! i = Str v"
    and n: "n \<notin> set schema" and nv: "n @ ''_'' @ v \<notin> set schema"
  shows "align schema (set_cell n i NA f) = align schema f"
proof -
  let ?f' = "set_cell n i NA f"
  let ?h = "\<lambda>m c. if m = n then c[i := NA] else c"
  have wf': "frame_wf ?f'" and un': "unambiguous (columns ?f')"
    using wf un by (simp_all add: frame_wf_set_cell)
  have same: "enc_cell (zip (col_types ?f') (row ?f' j)) s = enc_cell (zip (col_types f) (row f j)) s"
    if s: "s \<in> set schema" for s j
  proof -
    have sn: "s \<noteq> n" using s n by blast
    have cols': "cols ?f' = map (\<lambda>(m, c). (m, ?h m c)) (cols f)"
      by (simp add: set_cell_def)
    have "list_all2 (\<lambda>t t'. (hit s t \<longleftrightarrow> hit s t') \<and> (hit s t \<longrightarrow> hit_val t = hit_val t'))
            (zip (col_types ?f') (row ?f' j)) (zip (col_types f) (row f j))"
      unfolding zip_col_types_row cols'
    proof (rule zip_rows_cong)
      fix m d assume md: "(m, d) \<in> set (cols f)"
      show "(hit s ((m, obj_col (?h m d)), ?h m d ! j) \<longleftrightarrow> hit s ((m, obj_col d), d ! j)) \<and>
            (hit s ((m, obj_col (?h m d)), ?h m d ! j) \<longrightarrow>
             hit_val ((m, obj_col (?h m d)), ?h m d ! j) = hit_val ((m, obj_col d), d ! j))"
      proof (cases "m = n")
        case False
        then show ?thesis by simp
      next
        case True
        with md nc wf have d: "d = c" using frame_wf_same_col by blast
        have len: "i < length c" using wf nc i frame_wf_length by fastforce
        show ?thesis
        proof (cases "j = i")
          case True
          with \<open>m = n\<close> d v len sn s nv show ?thesis by auto
        next
          case False
          with \<open>m = n\<close> d sn show ?thesis by (cases "c ! j") auto
        qed
      qed
    qed
    then show ?thesis by (rule enc_cell_cong)
  qed
  have "align_spec schema ?f' = align_spec schema f"
    using same by (simp add: align_spec_def)
  then show ?thesis using align_eq_spec [OF wf un] align_eq_spec [OF wf' un'] by simp
qed

theorem align_unknown_as_missing_witness:
  "align ex_schema (set_cell ''workclass'' 0 NA ex_record_frame2) = align ex_schema ex_record_frame2"
proof -
  have "frame_wf ex_record_frame2" "unambiguous (columns ex_record_frame2)"
    "(''workclass'', [Str ''Government'']) \<in> set (cols ex_record_frame2)"
    "0 < nrows ex_record_frame2" "[Str ''Government''] ! 0 = Str ''Government''"
    "''workclass'' \<notin> set ex_schema" "''workclass'' @ ''_'' @ ''Government'' \<notin> set ex_schema"
    by (simp_all add: ex_record_frame2_def ex_schema_def frame_defs)
  then show ?thesis by (rule align_unknown_as_missing)
qed

text \<open>
  C4. Batch and single record agree: row \<open>i\<close> of an aligned table is the alignment of
  row \<open>i\<close> alone, provided no object column's own label is a schema column (as with a
  schema of one-hot labels). Both alignments succeed.
\<close>

theorem align_batch_row_consistent:
  assumes wf: "frame_wf f" and un: "unambiguous (columns f)" and i: "i < nrows f"
    and obj: "\<forall>(n, c)\<in>set (cols f). obj_col c \<longrightarrow> n \<notin> set schema"
  shows "\<exists>g g'. align schema f = Inr g \<and> align schema (row_frame f i) = Inr g' \<and>
                frame_rows g' = [frame_rows g ! i]"
proof -
  let ?rf = "row_frame f i"
  have wf': "frame_wf ?rf" and un': "unambiguous (columns ?rf)"
    using wf un by (simp_all add: frame_wf_row_frame)
  have same: "enc_cell (zip (col_types ?rf) (row f i)) s = enc_cell (zip (col_types f) (row f i)) s"
    if s: "s \<in> set schema" for s
  proof -
    have cols': "cols ?rf = map (\<lambda>(m, c). (m, [c ! i])) (cols f)"
      by (simp add: row_frame_def)
    have "list_all2 (\<lambda>t t'. (hit s t \<longleftrightarrow> hit s t') \<and> (hit s t \<longrightarrow> hit_val t = hit_val t'))
            (zip (col_types ?rf) (row ?rf 0)) (zip (col_types f) (row f i))"
      unfolding zip_col_types_row cols'
    proof (rule zip_rows_cong)
      fix m d assume md: "(m, d) \<in> set (cols f)"
      show "(hit s ((m, obj_col [d ! i]), [d ! i] ! 0) \<longleftrightarrow> hit s ((m, obj_col d), d ! i)) \<and>
            (hit s ((m, obj_col [d ! i]), [d ! i] ! 0) \<longrightarrow>
             hit_val ((m, obj_col [d ! i]), [d ! i] ! 0) = hit_val ((m, obj_col d), d ! i))"
      proof (cases "\<exists>w. d ! i = Str w")
        case True
        then show ?thesis by auto
      next
        case False
        then have "\<not> obj_col [d ! i]" by (metis empty_iff empty_set obj_col_iff set_ConsD)
        moreover have "obj_col d \<longrightarrow> m \<noteq> s" using obj md s by blast
        ultimately show ?thesis using False by (cases "d ! i") auto
      qed
    qed
    then show ?thesis unfolding row_row_frame by (rule enc_cell_cong)
  qed
  have "frame_rows (align_spec schema f) ! i = map (enc_cell (zip (col_types f) (row f i))) schema"
    using i by (simp add: frame_rows_align_spec length_frame_rows nth_frame_rows encode_row_def)
  also have "\<dots> = map (enc_cell (zip (col_types ?rf) (row f i))) schema"
    using same by simp
  finally have "frame_rows (align_spec schema ?rf) = [frame_rows (align_spec schema f) ! i]"
    by (simp add: frame_rows_align_spec frame_rows_row_frame encode_row_def)
  then show ?thesis using align_eq_spec [OF wf un] align_eq_spec [OF wf' un'] by blast
qed

theorem align_batch_row_consistent_witness:
  "\<exists>g g'. align ex_schema ex_batch = Inr g \<and> align ex_schema (row_frame ex_batch 2) = Inr g' \<and>
          frame_rows g' = [frame_rows g ! 2]"
proof -
  have "frame_wf ex_batch" "unambiguous (columns ex_batch)" "2 < nrows ex_batch"
    "\<forall>(n, c)\<in>set (cols ex_batch). obj_col c \<longrightarrow> n \<notin> set ex_schema"
    by (simp_all add: ex_batch_def ex_schema_def frame_defs)
  then show ?thesis by (rule align_batch_row_consistent)
qed

text \<open>
  C6. Error path: if an uploaded table has a numeric column whose label is the indicator
  label of a string value of another column, the dummy labels collide and the reindex
  raises \<open>ValueError\<close>; the "never an error" policy of the spec does not hold there.
\<close>

theorem align_label_collision:
  assumes "(n, c) \<in> set (cols f)" "Str v \<in> set c"
    and "(n @ ''_'' @ v, c') \<in> set (cols f)" "\<not> obj_col c'"
    and "columns (get_dummies f) \<noteq> schema"
  shows "align schema f = Inl (ValueError ''cannot reindex on an axis with duplicate labels'')"
proof -
  let ?s = "n @ ''_'' @ v"
  have "?s \<in> set (map fst (filter (\<lambda>(n, c). \<not> obj_col c) (cols f)))"
    using assms(3,4) by force
  moreover have "?s \<in> set (concat (map (\<lambda>x. map (\<lambda>v. fst x @ ''_'' @ v) (levels (snd x)))
                                        (filter (\<lambda>(n, c). obj_col c) (cols f))))"
  proof -
    have "obj_col c" "v \<in> set (levels c)" using assms(2) by (auto simp: obj_col_iff set_levels)
    with assms(1) show ?thesis by force
  qed
  ultimately have "\<not> distinct (map fst (filter (\<lambda>(n, c). \<not> obj_col c) (cols f)) @
      concat (map (\<lambda>x. map (\<lambda>v. fst x @ ''_'' @ v) (levels (snd x)))
                  (filter (\<lambda>(n, c). obj_col c) (cols f))))"
    by (meson disjoint_iff distinct_append)
  then have "\<not> distinct (columns (get_dummies f))" unfolding columns_get_dummies .
  with assms(5) show ?thesis by (simp add: align_def reindex_def)
qed

definition ex_collision :: frame where
  "ex_collision = \<lparr>nrows = 1, cols = [(''gender'', [Str ''Male'']), (''gender_Male'', [Num 5])]\<rparr>"

theorem align_label_collision_witness:
  "align ex_schema ex_collision = Inl (ValueError ''cannot reindex on an axis with duplicate labels'')"
proof -
  have "(''gender'', [Str ''Male'']) \<in> set (cols ex_collision)" "Str ''Male'' \<in> set [Str ''Male'']"
    "(''gender'' @ ''_'' @ ''Male'', [Num 5]) \<in> set (cols ex_collision)" "\<not> obj_col [Num 5]"
    "columns (get_dummies ex_collision) \<noteq> ex_schema"
    by (simp_all add: ex_collision_def ex_schema_def frame_defs)
  then show ?thesis by (rule align_label_collision)
qed

end
