(* ===== verification/Translations.thy ===== *)
theory Translations
  imports Prelude
begin

text \<open>
  The page's language table, \<open>get_translations\<close> in \<open>src/main.py\<close> (lines 12--54),
  and the language select box (line 97). The strings are kept exactly, as UTF-8 bytes
  (\<open>CHR 0x..\<close> for the bytes of non-ASCII characters). \<open>ui_keys\<close> lists the keys the
  page reads from the table (\<open>lang["age"]\<close> and so on, lines 125--132, 146, 173, 198);
  a missing key would raise \<open>KeyError\<close> at that lookup.
\<close>

definition translations_en :: "(string \<times> string) list" where
  "translations_en =
    [(''title'', ''Employee Salary Classification''),
     (''age'', ''Age''),
     (''gender'', ''Gender''),
     (''workclass'', ''Workclass''),
     (''education'', ''Education''),
     (''occupation'', ''Occupation''),
     (''hours'', ''Hours per Week''),
     (''predict'', [CHR 0xF0, CHR 0x9F, CHR 0x8E, CHR 0xAF] @ '' Predict Salary''),
     (''predicted_income'', ''Predicted Income''),
     (''upload_csv'', ''Upload CSV for Bulk Predictions''),
     (''download'', [CHR 0xE2, CHR 0xAC, CHR 0x87, CHR 0xEF, CHR 0xB8, CHR 0x8F] @ '' Download Results'')]"

definition translations_hi :: "(string \<times> string) list" where
  "translations_hi =
    [(''title'', [CHR 0xE0, CHR 0xA4, CHR 0x95, CHR 0xE0, CHR 0xA4, CHR 0xB0, CHR 0xE0, CHR 0xA5, CHR 0x8D, CHR 0xE0, CHR 0xA4, CHR 0xAE, CHR 0xE0, CHR 0xA4, CHR 0x9A, CHR 0xE0, CHR 0xA4, CHR 0xBE, CHR 0xE0, CHR 0xA4, CHR 0xB0, CHR 0xE0, CHR 0xA5, CHR 0x80] @ '' '' @ [CHR 0xE0, CHR 0xA4, CHR 0xB5, CHR 0xE0, CHR 0xA5, CHR 0x87, CHR 0xE0, CHR 0xA4, CHR 0xA4, CHR 0xE0, CHR 0xA4, CHR 0xA8] @ '' '' @ [CHR 0xE0, CHR 0xA4, CHR 0xB5, CHR 0xE0, CHR 0xA4, CHR 0xB0, CHR 0xE0, CHR 0xA5, CHR 0x8D, CHR 0xE0, CHR 0xA4, CHR 0x97, CHR 0xE0, CHR 0xA5, CHR 0x80, CHR 0xE0, CHR 0xA4, CHR 0x95, CHR 0xE0, CHR 0xA4, CHR 0xB0, CHR 0xE0, CHR 0xA4, CHR 0xA3]),
     (''age'', [CHR 0xE0, CHR 0xA4, CHR 0x86, CHR 0xE0, CHR 0xA4, CHR 0xAF, CHR 0xE0, CHR 0xA5, CHR 0x81]),
     (''gender'', [CHR 0xE0, CHR 0xA4, CHR 0xB2, CHR 0xE0, CHR 0xA4, CHR 0xBF, CHR 0xE0, CHR 0xA4, CHR 0x82, CHR 0xE0, CHR 0xA4, CHR 0x97]),
     (''workclass'', [CHR 0xE0, CHR 0xA4, CHR 0x95, CHR 0xE0, CHR 0xA4, CHR 0xBE, CHR 0xE0, CHR 0xA4, CHR 0xB0, CHR 0xE0, CHR 0xA5, CHR 0x8D, CHR 0xE0, CHR 0xA4, CHR 0xAF] @ '' '' @ [CHR 0xE0, CHR 0xA4, CHR 0xB5, CHR 0xE0, CHR 0xA4, CHR 0xB0, CHR 0xE0, CHR 0xA5, CHR 0x8D, CHR 0xE0, CHR 0xA4, CHR 0x97]),
     (''education'', [CHR 0xE0, CHR 0xA4, CHR 0xB6, CHR 0xE0, CHR 0xA4, CHR 0xBF, CHR 0xE0, CHR 0xA4, CHR 0x95, CHR 0xE0, CHR 0xA5, CHR 0x8D, CHR 0xE0, CHR 0xA4, CHR 0xB7, CHR 0xE0, CHR 0xA4, CHR 0xBE]),
     (''occupation'', [CHR 0xE0, CHR 0xA4, CHR 0xAA, CHR 0xE0, CHR 0xA5, CHR 0x87, CHR 0xE0, CHR 0xA4, CHR 0xB6, CHR 0xE0, CHR 0xA4, CHR 0xBE]),
     (''hours'', [CHR 0xE0, CHR 0xA4, CHR 0xAA, CHR 0xE0, CHR 0xA5, CHR 0x8D, CHR 0xE0, CHR 0xA4, CHR 0xB0, CHR 0xE0, CHR 0xA4, CHR 0xA4, CHR 0xE0, CHR 0xA4, CHR 0xBF] @ '' '' @ [CHR 0xE0, CHR 0xA4, CHR 0xB8, CHR 0xE0, CHR 0xA4, CHR 0xAA, CHR 0xE0, CHR 0xA5, CHR 0x8D, CHR 0xE0, CHR 0xA4, CHR 0xA4, CHR 0xE0, CHR 0xA4, CHR 0xBE, CHR 0xE0, CHR 0xA4, CHR 0xB9] @ '' '' @ [CHR 0xE0, CHR 0xA4, CHR 0x98, CHR 0xE0, CHR 0xA4, CHR 0x82, CHR 0xE0, CHR 0xA4, CHR 0x9F, CHR 0xE0, CHR 0xA5, CHR 0x87]),
     (''predict'', [CHR 0xF0, CHR 0x9F, CHR 0x8E, CHR 0xAF] @ '' '' @ [CHR 0xE0, CHR 0xA4, CHR 0xB5, CHR 0xE0, CHR 0xA5, CHR 0x87, CHR 0xE0, CHR 0xA4, CHR 0xA4, CHR 0xE0, CHR 0xA4, CHR 0xA8] @ '' '' @ [CHR 0xE0, CHR 0xA4, CHR 0x95, CHR 0xE0, CHR 0xA4, CHR 0xBE] @ '' '' @ [CHR 0xE0, CHR 0xA4, CHR 0xAA, CHR 0xE0, CHR 0xA5, CHR 0x82, CHR 0xE0, CHR 0xA4, CHR 0xB0, CHR 0xE0, CHR 0xA5, CHR 0x8D, CHR 0xE0, CHR 0xA4, CHR 0xB5, CHR 0xE0, CHR 0xA4, CHR 0xBE, CHR 0xE0, CHR 0xA4, CHR 0xA8, CHR 0xE0, CHR 0xA5, CHR 0x81, CHR 0xE0, CHR 0xA4, CHR 0xAE, CHR 0xE0, CHR 0xA4, CHR 0xBE, CHR 0xE0, CHR 0xA4, CHR 0xA8] @ '' '' @ [CHR 0xE0, CHR 0xA4, CHR 0x95, CHR 0xE0, CHR 0xA4, CHR 0xB0, CHR 0xE0, CHR 0xA5, CHR 0x87, CHR 0xE0, CHR 0xA4, CHR 0x82]),
     (''predicted_income'', [CHR 0xE0, CHR 0xA4, CHR 0x85, CHR 0xE0, CHR 0xA4, CHR 0xA8, CHR 0xE0, CHR 0xA5, CHR 0x81, CHR 0xE0, CHR 0xA4, CHR 0xAE, CHR 0xE0, CHR 0xA4, CHR 0xBE, CHR 0xE0, CHR 0xA4, CHR 0xA8, CHR 0xE0, CHR 0xA4, CHR 0xBF, CHR 0xE0, CHR 0xA4, CHR 0xA4] @ '' '' @ [CHR 0xE0, CHR 0xA4, CHR 0x86, CHR 0xE0, CHR 0xA4, CHR 0xAF]),
     (''upload_csv'', ''CSV '' @ [CHR 0xE0, CHR 0xA4, CHR 0x85, CHR 0xE0, CHR 0xA4, CHR 0xAA, CHR 0xE0, CHR 0xA4, CHR 0xB2, CHR 0xE0, CHR 0xA5, CHR 0x8B, CHR 0xE0, CHR 0xA4, CHR 0xA1] @ '' '' @ [CHR 0xE0, CHR 0xA4, CHR 0x95, CHR 0xE0, CHR 0xA4, CHR 0xB0, CHR 0xE0, CHR 0xA5, CHR 0x87, CHR 0xE0, CHR 0xA4, CHR 0x82] @ '' ('' @ [CHR 0xE0, CHR 0xA4, CHR 0xA5, CHR 0xE0, CHR 0xA5, CHR 0x8B, CHR 0xE0, CHR 0xA4, CHR 0x95] @ '' '' @ [CHR 0xE0, CHR 0xA4, CHR 0xAD, CHR 0xE0, CHR 0xA4, CHR 0xB5, CHR 0xE0, CHR 0xA4, CHR 0xBF, CHR 0xE0, CHR 0xA4, CHR 0xB7, CHR 0xE0, CHR 0xA5, CHR 0x8D, CHR 0xE0, CHR 0xA4, CHR 0xAF, CHR 0xE0, CHR 0xA4, CHR 0xBE, CHR 0xE0, CHR 0xA4, CHR 0xA8, CHR 0xE0, CHR 0xA5, CHR 0x81, CHR 0xE0, CHR 0xA4, CHR 0xAE, CHR 0xE0, CHR 0xA4, CHR 0xBE, CHR 0xE0, CHR 0xA4, CHR 0xA8] @ '')''),
     (''download'', [CHR 0xE2, CHR 0xAC, CHR 0x87, CHR 0xEF, CHR 0xB8, CHR 0x8F] @ '' '' @ [CHR 0xE0, CHR 0xA4, CHR 0xAA, CHR 0xE0, CHR 0xA4, CHR 0xB0, CHR 0xE0, CHR 0xA4, CHR 0xBF, CHR 0xE0, CHR 0xA4, CHR 0xA3, CHR 0xE0, CHR 0xA4, CHR 0xBE, CHR 0xE0, CHR 0xA4, CHR 0xAE] @ '' '' @ [CHR 0xE0, CHR 0xA4, CHR 0xA1, CHR 0xE0, CHR 0xA4, CHR 0xBE, CHR 0xE0, CHR 0xA4, CHR 0x89, CHR 0xE0, CHR 0xA4, CHR 0xA8, CHR 0xE0, CHR 0xA4, CHR 0xB2, CHR 0xE0, CHR 0xA5, CHR 0x8B, CHR 0xE0, CHR 0xA4, CHR 0xA1] @ '' '' @ [CHR 0xE0, CHR 0xA4, CHR 0x95, CHR 0xE0, CHR 0xA4, CHR 0xB0, CHR 0xE0, CHR 0xA5, CHR 0x87, CHR 0xE0, CHR 0xA4, CHR 0x82])]"

definition translations_te :: "(string \<times> string) list" where
  "translations_te =
    [(''title'', [CHR 0xE0, CHR 0xB0, CHR 0x89, CHR 0xE0, CHR 0xB0, CHR 0xA6, CHR 0xE0, CHR 0xB1, CHR 0x8D, CHR 0xE0, CHR 0xB0, CHR 0xAF, CHR 0xE0, CHR 0xB1, CHR 0x8B, CHR 0xE0, CHR 0xB0, CHR 0x97, CHR 0xE0, CHR 0xB0, CHR 0xBF] @ '' '' @ [CHR 0xE0, CHR 0xB0, CHR 0x9C, CHR 0xE0, CHR 0xB1, CHR 0x80, CHR 0xE0, CHR 0xB0, CHR 0xA4, CHR 0xE0, CHR 0xB0, CHR 0x82] @ '' '' @ [CHR 0xE0, CHR 0xB0, CHR 0xB5, CHR 0xE0, CHR 0xB0, CHR 0xB0, CHR 0xE0, CHR 0xB1, CHR 0x8D, CHR 0xE0, CHR 0xB0, CHR 0x97, CHR 0xE0, CHR 0xB1, CHR 0x80, CHR 0xE0, CHR 0xB0, CHR 0x95, CHR 0xE0, CHR 0xB0, CHR 0xB0, CHR 0xE0, CHR 0xB0, CHR 0xA3]),
     (''age'', [CHR 0xE0, CHR 0xB0, CHR 0xB5, CHR 0xE0, CHR 0xB0, CHR 0xAF, CHR 0xE0, CHR 0xB0, CHR 0xB8, CHR 0xE0, CHR 0xB1, CHR 0x8D, CHR 0xE0, CHR 0xB0, CHR 0xB8, CHR 0xE0, CHR 0xB1, CHR 0x81]),
     (''gender'', [CHR 0xE0, CHR 0xB0, CHR 0xB2, CHR 0xE0, CHR 0xB0, CHR 0xBF, CHR 0xE0, CHR 0xB0, CHR 0x82, CHR 0xE0, CHR 0xB0, CHR 0x97, CHR 0xE0, CHR 0xB0, CHR 0x82]),
     (''workclass'', [CHR 0xE0, CHR 0xB0, CHR 0xAA, CHR 0xE0, CHR 0xB0, CHR 0xA8, CHR 0xE0, CHR 0xB0, CHR 0xBF] @ '' '' @ [CHR 0xE0, CHR 0xB0, CHR 0xA4, CHR 0xE0, CHR 0xB0, CHR 0xB0, CHR 0xE0, CHR 0xB0, CHR 0x97, CHR 0xE0, CHR 0xB0, CHR 0xA4, CHR 0xE0, CHR 0xB0, CHR 0xBF]),
     (''education'', [CHR 0xE0, CHR 0xB0, CHR 0xB5, CHR 0xE0, CHR 0xB0, CHR 0xBF, CHR 0xE0, CHR 0xB0, CHR 0xA6, CHR 0xE0, CHR 0xB1, CHR 0x8D, CHR 0xE0, CHR 0xB0, CHR 0xAF]),
     (''occupation'', [CHR 0xE0, CHR 0xB0, CHR 0x89, CHR 0xE0, CHR 0xB0, CHR 0xA6, CHR 0xE0, CHR 0xB1, CHR 0x8D, CHR 0xE0, CHR 0xB0, CHR 0xAF, CHR 0xE0, CHR 0xB1, CHR 0x8B, CHR 0xE0, CHR 0xB0, CHR 0x97, CHR 0xE0, CHR 0xB0, CHR 0x82]),
     (''hours'', [CHR 0xE0, CHR 0xB0, CHR 0xB5, CHR 0xE0, CHR 0xB0, CHR 0xBE, CHR 0xE0, CHR 0xB0, CHR 0xB0, CHR 0xE0, CHR 0xB0, CHR 0x82] @ '' '' @ [CHR 0xE0, CHR 0xB0, CHR 0x97, CHR 0xE0, CHR 0xB0, CHR 0x82, CHR 0xE0, CHR 0xB0, CHR 0x9F, CHR 0xE0, CHR 0xB0, CHR 0xB2, CHR 0xE0, CHR 0xB1, CHR 0x81]),
     (''predict'', [CHR 0xF0, CHR 0x9F, CHR 0x8E, CHR 0xAF] @ '' '' @ [CHR 0xE0, CHR 0xB0, CHR 0x9C, CHR 0xE0, CHR 0xB1, CHR 0x80, CHR 0xE0, CHR 0xB0, CHR 0xA4, CHR 0xE0, CHR 0xB0, CHR 0x82, CHR 0xE0, CHR 0xB0, CHR 0xA8, CHR 0xE0, CHR 0xB0, CHR 0xBF] @ '' '' @ [CHR 0xE0, CHR 0xB0, CHR 0x8A, CHR 0xE0, CHR 0xB0, CHR 0xB9, CHR 0xE0, CHR 0xB0, CHR 0xBF, CHR 0xE0, CHR 0xB0, CHR 0x82, CHR 0xE0, CHR 0xB0, CHR 0x9A, CHR 0xE0, CHR 0xB0, CHR 0x82, CHR 0xE0, CHR 0xB0, CHR 0xA1, CHR 0xE0, CHR 0xB0, CHR 0xBF]),
     (''predicted_income'', [CHR 0xE0, CHR 0xB0, CHR 0x85, CHR 0xE0, CHR 0xB0, CHR 0x82, CHR 0xE0, CHR 0xB0, CHR 0x9A, CHR 0xE0, CHR 0xB0, CHR 0xA8, CHR 0xE0, CHR 0xB0, CHR 0xBE] @ '' '' @ [CHR 0xE0, CHR 0xB0, CHR 0x9C, CHR 0xE0, CHR 0xB1, CHR 0x80, CHR 0xE0, CHR 0xB0, CHR 0xA4, CHR 0xE0, CHR 0xB0, CHR 0x82]),
     (''upload_csv'', ''CSV '' @ [CHR 0xE0, CHR 0xB0, CHR 0x85, CHR 0xE0, CHR 0xB0, CHR 0xAA, CHR 0xE0, CHR 0xB1, CHR 0x8D, CHR 0xE0, CHR 0xB0, CHR 0xB2, CHR 0xE0, CHR 0xB1, CHR 0x8B, CHR 0xE0, CHR 0xB0, CHR 0xA1, CHR 0xE0, CHR 0xB1, CHR 0x8D] @ '' ('' @ [CHR 0xE0, CHR 0xB0, CHR 0xAC, CHR 0xE0, CHR 0xB0, CHR 0xB2, CHR 0xE0, CHR 0xB1, CHR 0x8D, CHR 0xE0, CHR 0xB0, CHR 0x95, CHR 0xE0, CHR 0xB1, CHR 0x8D] @ '' '' @ [CHR 0xE0, CHR 0xB0, CHR 0xAA, CHR 0xE0, CHR 0xB1, CHR 0x8D, CHR 0xE0, CHR 0xB0, CHR 0xB0, CHR 0xE0, CHR 0xB0, CHR 0xBF, CHR 0xE0, CHR 0xB0, CHR 0xA1, CHR 0xE0, CHR 0xB0, CHR 0xBF, CHR 0xE0, CHR 0xB0, CHR 0x95, CHR 0xE0, CHR 0xB1, CHR 0x8D, CHR 0xE0, CHR 0xB0, CHR 0xB7, CHR 0xE0, CHR 0xB0, CHR 0xA8, CHR 0xE0, CHR 0xB1, CHR 0x8D] @ '')''),
     (''download'', [CHR 0xE2, CHR 0xAC, CHR 0x87, CHR 0xEF, CHR 0xB8, CHR 0x8F] @ '' '' @ [CHR 0xE0, CHR 0xB0, CHR 0xAB, CHR 0xE0, CHR 0xB0, CHR 0xB2, CHR 0xE0, CHR 0xB0, CHR 0xBF, CHR 0xE0, CHR 0xB0, CHR 0xA4, CHR 0xE0, CHR 0xB0, CHR 0xBE, CHR 0xE0, CHR 0xB0, CHR 0xB2, CHR 0xE0, CHR 0xB0, CHR 0xA8, CHR 0xE0, CHR 0xB1, CHR 0x8D, CHR 0xE0, CHR 0xB0, CHR 0xA8, CHR 0xE0, CHR 0xB0, CHR 0xBF] @ '' '' @ [CHR 0xE0, CHR 0xB0, CHR 0xA1, CHR 0xE0, CHR 0xB0, CHR 0xBE, CHR 0xE0, CHR 0xB0, CHR 0x89, CHR 0xE0, CHR 0xB0, CHR 0xA8, CHR 0xE0, CHR 0xB1, CHR 0x8D, CHR 0xE0, CHR 0xB0, CHR 0xB2, CHR 0xE0, CHR 0xB1, CHR 0x8B, CHR 0xE0, CHR 0xB0, CHR 0xA1, CHR 0xE0, CHR 0xB1, CHR 0x8D] @ '' '' @ [CHR 0xE0, CHR 0xB0, CHR 0x9A, CHR 0xE0, CHR 0xB1, CHR 0x86, CHR 0xE0, CHR 0xB0, CHR 0xAF, CHR 0xE0, CHR 0xB0, CHR 0x82, CHR 0xE0, CHR 0xB0, CHR 0xA1, CHR 0xE0, CHR 0xB0, CHR 0xBF])]"

definition translations_dict :: "(string \<times> (string \<times> string) list) list" where
  "translations_dict = [(''en'', translations_en), (''hi'', translations_hi), (''te'', translations_te)]"

text \<open>\<open>translations.get(lang, translations["en"])\<close>: the default is evaluated first.\<close>

definition get_translations :: "string \<Rightarrow> (string \<times> string) list result" where
  "get_translations lang =
     rbind (dict_get translations_dict ''en'')
       (\<lambda>dflt. Inr (case map_of translations_dict lang of Some t \<Rightarrow> t | None \<Rightarrow> dflt))"

definition lang_options :: "string list" where
  "lang_options = [''en'', ''hi'', ''te'']"

definition ui_keys :: "string list" where
  "ui_keys = [''age'', ''gender'', ''workclass'', ''education'', ''occupation'', ''hours'',
              ''predict'', ''predicted_income'', ''upload_csv'', ''download'']"

lemma translations_keys:
  "map fst translations_hi = map fst translations_en"
  "map fst translations_te = map fst translations_en"
  "set ui_keys \<subseteq> set (map fst translations_en)"
  by (simp_all add: translations_en_def translations_hi_def translations_te_def ui_keys_def)

lemma get_translations_cases:
  "get_translations lang = Inr t \<Longrightarrow> t \<in> {translations_en, translations_hi, translations_te}"
  by (auto simp: get_translations_def translations_dict_def dict_get_def split: option.splits if_splits)

lemma get_translations_Inr: "\<exists>t. get_translations lang = Inr t"
  by (simp add: get_translations_def translations_dict_def dict_get_def)

lemma get_translations_keys: "get_translations lang = Inr t \<Longrightarrow> map fst t = map fst translations_en"
proof -
  assume "get_translations lang = Inr t"
  then have "t = translations_en \<or> t = translations_hi \<or> t = translations_te"
    using get_translations_cases by simp
  then show ?thesis using translations_keys(1,2) by (elim disjE) simp_all
qed

text \<open>Every key the page reads can be looked up in the table it chose.\<close>

lemma ui_key_lookup:
  "get_translations code = Inr lang \<Longrightarrow> k \<in> set ui_keys \<Longrightarrow> \<exists>t. dict_get lang k = Inr t"
proof -
  assume lang: "get_translations code = Inr lang" and k: "k \<in> set ui_keys"
  have "k \<in> set (map fst translations_en)"
    using k translations_keys(3) by blast
  then have "k \<in> set (map fst lang)"
    by (simp only: get_translations_keys [OF lang])
  then show ?thesis using dict_get_Inr_iff by metis
qed

text \<open>
  C7. Every key the page reads (\<open>lang["age"]\<close>, \<open>lang["download"]\<close>, ...) is present
  whatever language is requested, so no lookup raises \<open>KeyError\<close>; every table has
  exactly the English table's keys, in the same order.
\<close>

theorem get_translations_complete:
  assumes "k \<in> set ui_keys"
  shows "\<exists>t s. get_translations lang = Inr t \<and> dict_get t k = Inr s \<and>
               map fst t = map fst translations_en"
proof -
  obtain t where t: "get_translations lang = Inr t" using get_translations_Inr by blast
  from ui_key_lookup [OF t assms] obtain s where "dict_get t k = Inr s" by blast
  with t get_translations_keys [OF t] show ?thesis by blast
qed

theorem get_translations_complete_witness:
  "\<exists>t s. get_translations ''te'' = Inr t \<and> dict_get t ''download'' = Inr s \<and>
         map fst t = map fst translations_en"
  by (rule get_translations_complete) (simp add: ui_keys_def)

end
