(* ===== verification/Csv.thy ===== *)
theory Csv
  imports Frame "HOL-Library.AList"
begin

text \<open>
  CSV text as pandas reads it and as Python's \<open>csv\<close> module writes it, shared by the
  bulk tab (\<open>pd.read_csv\<close>, \<open>src/main.py\<close> line 177; \<open>df.to_csv\<close>, line 197) and the
  manual tab's download (\<open>result_csv.to_csv\<close>, line 153). \<open>read_csv\<close> uses pandas'
  default options: \<open>tok\<close> is the state machine of pandas' C tokenizer (quoted fields
  with doubled quotes; \<open>\n\<close>, \<open>\r\n\<close> and \<open>\r\<close> line ends; blank and whitespace-only
  lines skipped; an unterminated quote raises), the first row is the header,
  \<open>header_names\<close> is the C parser's renaming of repeated and empty header names
  (\<open>_get_header\<close> in \<open>parsers.pyx\<close>), short rows are padded with missing values
  and a row longer than the header raises. A column is numeric when every field that is not one of pandas' missing-value strings is a decimal integer, and of
  \<open>object\<close> dtype otherwise. Fields pandas would read as floats or booleans, integers
  beyond 64 bits, and the implicit index pandas builds when every data row is one field
  longer than the header are outside the model (the cell type has no floats or booleans).
  \<open>to_csv\<close> is \<open>df.to_csv(index=False)\<close>.

  The lemmas show that the tokenizer reads back the writer's rows (C21), that
  \<open>str(n)\<close> parses back to \<open>n\<close>, and that a table the two libraries agree on
  (\<open>csv_safe\<close>) is read back as itself (\<open>read_csv_to_csv\<close>, used for the bulk tab's
  download in \<open>Bulk\<close>). The header renaming gives distinct names, one per field, and
  keeps a header of distinct non-empty names (C20); its loop \<open>mangle_loop\<close>, a partial
  function, returns on every header it is called with (C26). The tokenizer only appends non-empty rows (C28), blank text and text ending inside a quoted
  field are errors, and \<open>\r\n\<close> line ends read as \<open>\n\<close> (C30).
\<close>

datatype tok_state =
    StartRecord | StartField | InField | InQuoted | QuoteInQuoted | WhitespaceLine
  | EatCRNL | EatCRNLNop

definition is_ws :: "char \<Rightarrow> bool" where
  "is_ws c \<longleftrightarrow> c = CHR '' '' \<or> c = CHR 0x09"

definition tok_weight :: "tok_state \<Rightarrow> nat" where
  "tok_weight st = (if st = EatCRNL \<or> st = EatCRNLNop then 2 else if st = StartRecord then 1 else 0)"

text \<open>One character at a time: the state, the field being read, the fields of the current
  row, the finished rows, the rest of the input. \<open>StartRecord\<close> and the two states after
  a carriage return look at a character without consuming it, as pandas does. After a
  carriage return that ends a field, a comma ends the line and opens the next row with an
  empty field (\<open>END_LINE_AND_FIELD_STATE\<close>); after one that ends a skipped line, a
  comma is consumed (\<open>EAT_CRNL_NOP\<close>).\<close>

function tok ::
  "tok_state \<Rightarrow> string \<Rightarrow> string list \<Rightarrow> string list list \<Rightarrow> string \<Rightarrow> string list list result" where
  "tok StartRecord fld flds rows [] = Inr rows"
| "tok WhitespaceLine fld flds rows [] = Inr rows"
| "tok EatCRNL fld flds rows [] = Inr rows"
| "tok EatCRNLNop fld flds rows [] = Inr rows"
| "tok StartField fld flds rows [] = Inr (rows @ [flds @ [fld]])"
| "tok InField fld flds rows [] = Inr (rows @ [flds @ [fld]])"
| "tok QuoteInQuoted fld flds rows [] = Inr (rows @ [flds @ [fld]])"
| "tok InQuoted fld flds rows [] = Inl (ValueError ''Error tokenizing data. C error: EOF inside string'')"
| "tok StartRecord fld flds rows (c # cs) =
     (if c = CHR 0x0A then tok StartRecord [] [] rows cs
      else if c = CHR 0x0D then tok EatCRNLNop [] [] rows cs
      else if is_ws c then tok WhitespaceLine [c] [] rows cs
      else tok StartField [] [] rows (c # cs))"
| "tok StartField fld flds rows (c # cs) =
     (if c = CHR 0x22 then tok InQuoted [] flds rows cs
      else if c = CHR '','' then tok StartField [] (flds @ [[]]) rows cs
      else if c = CHR 0x0A then tok StartRecord [] [] (rows @ [flds @ [[]]]) cs
      else if c = CHR 0x0D then tok EatCRNL [] [] (rows @ [flds @ [[]]]) cs
      else tok InField [c] flds rows cs)"
| "tok InField fld flds rows (c # cs) =
     (if c = CHR '','' then tok StartField [] (flds @ [fld]) rows cs
      else if c = CHR 0x0A then tok StartRecord [] [] (rows @ [flds @ [fld]]) cs
      else if c = CHR 0x0D then tok EatCRNL [] [] (rows @ [flds @ [fld]]) cs
      else tok InField (fld @ [c]) flds rows cs)"
| "tok InQuoted fld flds rows (c # cs) =
     (if c = CHR 0x22 then tok QuoteInQuoted fld flds rows cs
      else tok InQuoted (fld @ [c]) flds rows cs)"
| "tok QuoteInQuoted fld flds rows (c # cs) =
     (if c = CHR 0x22 then tok InQuoted (fld @ [c]) flds rows cs
      else if c = CHR '','' then tok StartField [] (flds @ [fld]) rows cs
      else if c = CHR 0x0A then tok StartRecord [] [] (rows @ [flds @ [fld]]) cs
      else if c = CHR 0x0D then tok EatCRNL [] [] (rows @ [flds @ [fld]]) cs
      else tok InField (fld @ [c]) flds rows cs)"
| "tok WhitespaceLine fld flds rows (c # cs) =
     (if c = CHR 0x0A then tok StartRecord [] [] rows cs
      else if c = CHR 0x0D then tok EatCRNLNop [] [] rows cs
      else if is_ws c then tok WhitespaceLine (fld @ [c]) [] rows cs
      else if c = CHR '','' then tok StartField [] [fld] rows cs
      else tok InField (fld @ [c]) [] rows cs)"
| "tok EatCRNL fld flds rows (c # cs) =
     (if c = CHR 0x0A then tok StartRecord [] [] rows cs
      else if c = CHR '','' then tok StartField [] [[]] rows cs
      else tok StartRecord [] [] rows (c # cs))"
| "tok EatCRNLNop fld flds rows (c # cs) =
     (if c = CHR 0x0A \<or> c = CHR '','' then tok StartRecord [] [] rows cs
      else tok StartRecord [] [] rows (c # cs))"
  by pat_completeness auto
termination
  by (relation "measures [\<lambda>(st, fld, flds, rows, s). length s, \<lambda>(st, fld, flds, rows, s). tok_weight st]")
     (simp_all add: tok_weight_def)

definition csv_tokenize :: "string \<Rightarrow> string list list result" where
  "csv_tokenize s = tok StartRecord [] [] [] s"

text \<open>pandas' default strings read as missing values (\<open>STR_NA_VALUES\<close>).\<close>

definition na_values :: "string list" where
  "na_values =
     [[], ''#N/A'', ''#N/A N/A'', ''#NA'', ''-1.#IND'', ''-1.#QNAN'', ''-NaN'', ''-nan'', ''1.#IND'',
      ''1.#QNAN'', ''<NA>'', ''N/A'', ''NA'', ''NULL'', ''NaN'', ''None'', ''n/a'', ''nan'', ''null'']"

definition is_space :: "char \<Rightarrow> bool" where
  "is_space c \<longleftrightarrow> c = CHR '' '' \<or> c = CHR 0x09 \<or> c = CHR 0x0A \<or> c = CHR 0x0B \<or> c = CHR 0x0C \<or> c = CHR 0x0D"

definition digit_of :: "char \<Rightarrow> nat option" where
  "digit_of c = map_of (zip ''0123456789'' [0, 1, 2, 3, 4, 5, 6, 7, 8, 9]) c"

fun parse_digits :: "nat \<Rightarrow> string \<Rightarrow> nat option" where
  "parse_digits acc [] = Some acc"
| "parse_digits acc (d # ds) = (case digit_of d of None \<Rightarrow> None | Some v \<Rightarrow> parse_digits (10 * acc + v) ds)"

definition parse_nat :: "string \<Rightarrow> nat option" where
  "parse_nat s = (if s = [] then None else parse_digits 0 s)"

text \<open>pandas' conversion of a field to a 64-bit integer: surrounding white space is skipped,
  a sign is optional, then decimal digits and nothing else.\<close>

definition parse_int :: "string \<Rightarrow> int option" where
  "parse_int s =
     (case rev (dropWhile is_space (rev (dropWhile is_space s))) of
        [] \<Rightarrow> None
      | c # ds \<Rightarrow>
          if c = CHR ''-'' then map_option (\<lambda>n. - int n) (parse_nat ds)
          else if c = CHR ''+'' then map_option int (parse_nat ds)
          else map_option int (parse_nat (c # ds)))"

text \<open>A column's fields (\<open>None\<close> where a short row was padded). If every present field that
  is not a missing-value string is an integer the column is numeric, otherwise it is of
  \<open>object\<close> dtype and keeps the text of every field.\<close>

definition is_na_field :: "string option \<Rightarrow> bool" where
  "is_na_field x \<longleftrightarrow> (case x of None \<Rightarrow> True | Some s \<Rightarrow> s \<in> set na_values)"

definition parse_col :: "string option list \<Rightarrow> cell list" where
  "parse_col xs =
     (if list_all (\<lambda>x. is_na_field x \<or> parse_int (the x) \<noteq> None) xs
      then map (\<lambda>x. if is_na_field x then NA else Num (the (parse_int (the x)))) xs
      else map (\<lambda>x. if is_na_field x then NA else Str (the x)) xs)"

text \<open>
  Header renaming as pandas' C parser does it (\<open>TextReader._get_header\<close> in
  \<open>parsers.pyx\<close>, the engine line 177 runs): an empty name becomes \<open>Unnamed: i\<close>; the
  columns are then visited named ones first and unnamed ones last; a name already seen is
  renamed to \<open>name.k\<close>, where \<open>k\<close> starts at the count of \<open>name\<close> and grows while
  \<open>name.k\<close> is a name of the header, and the header is updated in place. The counts are
  a dictionary read with default 0. The inner \<open>while cur_count > 0\<close> loop ends only
  because every name with a positive count is a name of the header, so it is a
  \<open>partial_function\<close> in \<open>option\<close> (\<open>None\<close> would be a loop that never ends), and
  \<open>header_names\<close> takes its result with \<open>the\<close>: that it is never \<open>None\<close> is C26 and C20.
\<close>

definition count_of :: "(string \<times> nat) list \<Rightarrow> string \<Rightarrow> nat" where
  "count_of counts k = (case map_of counts k of None \<Rightarrow> 0 | Some n \<Rightarrow> n)"

partial_function (option) mangle_loop ::
  "string list \<Rightarrow> (string \<times> nat) list \<Rightarrow> string \<Rightarrow> string \<Rightarrow> nat \<Rightarrow> ((string \<times> nat) list \<times> string) option"
where
  "mangle_loop hdr counts old col cur =
     (if cur = 0 then Some (counts, col)
      else
        let counts' = AList.update old (Suc cur) counts; col' = old @ ''.'' @ nat_str cur in
        if col' \<in> set hdr then mangle_loop hdr counts' old col' (Suc cur)
        else mangle_loop hdr counts' old col' (count_of counts' col'))"

fun mangle_from :: "string list \<Rightarrow> (string \<times> nat) list \<Rightarrow> nat list \<Rightarrow> string list option" where
  "mangle_from hdr counts [] = Some hdr"
| "mangle_from hdr counts (i # is) =
     (case mangle_loop hdr counts (hdr ! i) (hdr ! i) (count_of counts (hdr ! i)) of
        None \<Rightarrow> None
      | Some (counts', col) \<Rightarrow> mangle_from (hdr[i := col]) (AList.update col 1 counts') is)"

definition unnamed_header :: "string list \<Rightarrow> string list" where
  "unnamed_header hdr =
     map (\<lambda>(i, n). if n = [] then ''Unnamed: '' @ nat_str i else n) (zip [0..<length hdr] hdr)"

definition mangle_order :: "string list \<Rightarrow> nat list" where
  "mangle_order hdr =
     filter (\<lambda>i. hdr ! i \<noteq> []) [0..<length hdr] @ filter (\<lambda>i. hdr ! i = []) [0..<length hdr]"

definition header_names :: "string list \<Rightarrow> string list" where
  "header_names hdr = the (mangle_from (unnamed_header hdr) [] (mangle_order hdr))"

definition read_csv :: "string \<Rightarrow> frame result" where
  "read_csv s =
     rbind (csv_tokenize s) (\<lambda>rows.
       case rows of
         [] \<Rightarrow> Inl (ValueError ''No columns to parse from file'')
       | hdr # body \<Rightarrow>
           if list_ex (\<lambda>r. length hdr < length r) body
           then Inl (ValueError ''Error tokenizing data. C error: Expected fewer fields in a line'')
           else Inr \<lparr>nrows = length body,
                     cols = zip (header_names hdr)
                       (map (\<lambda>j. parse_col (map (\<lambda>r. if j < length r then Some (r ! j) else None) body))
                            [0..<length hdr])\<rparr>)"

text \<open>
  \<open>df.to_csv(index=False)\<close> (line 197): Python's \<open>csv\<close> writer with minimal quoting, a
  field with a comma, a quote or a line break is quoted and its quotes doubled, a row
  that is one empty field is written \<open>""\<close>, and every line ends with \<open>\n\<close>. A missing
  value is written as the empty field; a numeric column with a missing value is of float
  dtype and its numbers are written \<open>n.0\<close>.
\<close>

definition needs_quote :: "string \<Rightarrow> bool" where
  "needs_quote s \<longleftrightarrow> list_ex (\<lambda>c. c = CHR '','' \<or> c = CHR 0x22 \<or> c = CHR 0x0A \<or> c = CHR 0x0D) s"

definition escape_quotes :: "string \<Rightarrow> string" where
  "escape_quotes s = concat (map (\<lambda>c. if c = CHR 0x22 then [c, c] else [c]) s)"

definition quote_field :: "string \<Rightarrow> string" where
  "quote_field s = (if needs_quote s then CHR 0x22 # escape_quotes s @ [CHR 0x22] else s)"

text \<open>The writer ends each row with its line terminator: pandas passes \<open>os.linesep\<close>, which is
  \<open>\n\<close> on the POSIX hosts Streamlit is served from and \<open>\r\n\<close> on Windows, the line end
  of files saved by Excel.\<close>

definition csv_line_term :: "string \<Rightarrow> string list \<Rightarrow> string" where
  "csv_line_term eol fs =
     (if fs = [[]] then [CHR 0x22, CHR 0x22] else py_join '','' (map quote_field fs)) @ eol"

definition csv_line :: "string list \<Rightarrow> string" where
  "csv_line fs = csv_line_term [CHR 0x0A] fs"

definition csv_render_term :: "string \<Rightarrow> string list list \<Rightarrow> string" where
  "csv_render_term eol rows = concat (map (csv_line_term eol) rows)"

definition csv_render :: "string list list \<Rightarrow> string" where
  "csv_render rows = concat (map csv_line rows)"

definition col_text :: "cell list \<Rightarrow> string list" where
  "col_text c =
     (let flt = \<not> obj_col c \<and> NA \<in> set c in
      map (\<lambda>x. case x of Num n \<Rightarrow> if flt then int_str n @ ''.0'' else int_str n | Str s \<Rightarrow> s | NA \<Rightarrow> []) c)"

definition to_csv :: "frame \<Rightarrow> string" where
  "to_csv f =
     csv_render (columns f # map (\<lambda>i. map (\<lambda>(n, c). col_text c ! i) (cols f)) [0..<nrows f])"

text \<open>What the writer must not produce for the reader to see the same rows: an empty row,
  and a row that is one non-empty field of blanks (pandas skips blank lines).\<close>

definition csv_row_ok :: "string list \<Rightarrow> bool" where
  "csv_row_ok r = (case r of [] \<Rightarrow> False | [f] \<Rightarrow> f = [] \<or> \<not> list_all is_ws f | _ \<Rightarrow> True)"

text \<open>A table survives a download and a re-upload when its header names are distinct and
  non-empty, its rows are rows the tokenizer reads back, every numeric column is free of
  missing values (else pandas writes floats), and every object column holds strings only,
  none of them an NA marker and at least one of them not an integer (else pandas infers a
  numeric column).\<close>

definition col_safe :: "cell list \<Rightarrow> bool" where
  "col_safe c \<longleftrightarrow>
     (if obj_col c
      then list_all (\<lambda>x. case x of Num _ \<Rightarrow> False | Str s \<Rightarrow> s \<notin> set na_values | NA \<Rightarrow> True) c \<and>
           list_ex (\<lambda>x. case x of Str s \<Rightarrow> parse_int s = None | _ \<Rightarrow> False) c
      else NA \<notin> set c)"

definition csv_safe :: "frame \<Rightarrow> bool" where
  "csv_safe f \<longleftrightarrow>
     frame_wf f \<and> [] \<notin> set (columns f) \<and> list_all (\<lambda>(n, c). col_safe c) (cols f) \<and>
     list_all csv_row_ok (columns f # map (\<lambda>i. map (\<lambda>(n, c). col_text c ! i) (cols f)) [0..<nrows f])"

text \<open>Text with nothing but line breaks and blanks: pandas skips such lines, so such a file
  has no header.\<close>

definition blank_text :: "string \<Rightarrow> bool" where
  "blank_text s \<longleftrightarrow> list_all (\<lambda>c. c = CHR 0x0A \<or> c = CHR 0x0D \<or> is_ws c) s"

text \<open>Characters the writer leaves unquoted, and where the tokenizer goes after a field
  ended by \<open>d\<close>: both serve the round-trip proof.\<close>

definition plain :: "char \<Rightarrow> bool" where
  "plain c \<longleftrightarrow> c \<noteq> CHR '','' \<and> c \<noteq> CHR 0x22 \<and> c \<noteq> CHR 0x0A \<and> c \<noteq> CHR 0x0D"

definition after_field :: "char \<Rightarrow> string list \<Rightarrow> string list list \<Rightarrow> string \<Rightarrow> string list list result" where
  "after_field d flds rows cs =
     (if d = CHR '','' then tok StartField [] flds rows cs
      else if d = CHR 0x0D then tok EatCRNL [] [] (rows @ [flds]) cs
      else tok StartRecord [] [] (rows @ [flds]) cs)"

text \<open>A table for the witnesses: the spec's three rows, the second without a gender.\<close>

definition ex_csv :: string where
  "ex_csv = ''age,gender,workclass\<newline>30,Male,Private\<newline>45,,Government\<newline>25,Female,Private\<newline>''"

subsection \<open>Integers: \<open>str\<close> and the reader's integer parser\<close>

lemma digit_of_digit_char: "d < 10 \<Longrightarrow> digit_of (digit_char d) = Some d"
proof -
  assume "d < 10"
  then have "d \<in> {0, 1, 2, 3, 4, 5, 6, 7, 8, 9}" by auto
  then show ?thesis by (auto simp: digit_of_def digit_char_def)
qed

lemma parse_digits_snoc:
  "parse_digits acc (ds @ [d]) =
     (case parse_digits acc ds of None \<Rightarrow> None
      | Some v \<Rightarrow> (case digit_of d of None \<Rightarrow> None | Some dv \<Rightarrow> Some (10 * v + dv)))"
  by (induction ds arbitrary: acc) (auto split: option.splits)

lemma nat_str_Cons: "\<exists>c cs. nat_str k = c # cs"
  by (subst nat_str.simps) (cases "nat_str (k div 10)", auto)

lemma parse_digits_nat_str: "parse_digits 0 (nat_str k) = Some k"
proof (induction k rule: less_induct)
  case (less k)
  show ?case
  proof (cases "k < 10")
    case True
    then show ?thesis by (subst nat_str.simps) (simp add: digit_of_digit_char)
  next
    case False
    then have "k div 10 < k" by simp
    with less have "parse_digits 0 (nat_str (k div 10)) = Some (k div 10)" by blast
    with False show ?thesis
      by (subst nat_str.simps) (simp add: parse_digits_snoc digit_of_digit_char)
  qed
qed

lemma set_nat_str: "c \<in> set (nat_str k) \<Longrightarrow> digit_of c \<noteq> None"
proof (induction k rule: less_induct)
  case (less k)
  show ?case
  proof (cases "k < 10")
    case True
    with less.prems show ?thesis by (subst (asm) nat_str.simps) (simp add: digit_of_digit_char)
  next
    case False
    with less.prems have "c \<in> set (nat_str (k div 10)) \<or> c = digit_char (k mod 10)"
      by (subst (asm) nat_str.simps) auto
    moreover have "k div 10 < k" using False by simp
    ultimately show ?thesis using less.IH [of "k div 10"] by (auto simp: digit_of_digit_char)
  qed
qed

lemma set_int_str: "c \<in> set (int_str n) \<Longrightarrow> c = CHR ''-'' \<or> digit_of c \<noteq> None"
  using set_nat_str by (auto simp: int_str_def split: if_splits)

lemma int_str_not_Nil: "int_str n \<noteq> []"
  using nat_str_Cons [of "nat n"] by (auto simp: int_str_def)

lemma digit_not_space: "digit_of c \<noteq> None \<Longrightarrow> \<not> is_space c"
  by (auto simp: is_space_def digit_of_def)

lemma parse_int_unpadded:
  assumes "list_all (\<lambda>c. \<not> is_space c) s"
  shows "parse_int s =
     (case s of [] \<Rightarrow> None
      | c # ds \<Rightarrow>
          if c = CHR ''-'' then map_option (\<lambda>n. - int n) (parse_nat ds)
          else if c = CHR ''+'' then map_option int (parse_nat ds)
          else map_option int (parse_nat (c # ds)))"
proof -
  have "rev (dropWhile is_space (rev (dropWhile is_space s))) = s"
    using assms by (simp add: dropWhile_none)
  then show ?thesis unfolding parse_int_def by simp
qed

lemma parse_nat_nat_str: "parse_nat (nat_str k) = Some k"
  using nat_str_Cons [of k] parse_digits_nat_str [of k] by (auto simp: parse_nat_def)

lemma parse_int_int_str: "parse_int (int_str n) = Some n"
proof -
  have "list_all (\<lambda>c. \<not> is_space c) (int_str n)"
    using set_int_str [of _ n] digit_not_space by (auto simp: list_all_iff is_space_def)
  note p = parse_int_unpadded [OF this]
  show ?thesis
  proof (cases "n < 0")
    case True
    with p show ?thesis by (simp add: int_str_def parse_nat_nat_str)
  next
    case False
    obtain c cs where c: "nat_str (nat n) = c # cs" using nat_str_Cons by blast
    have "digit_of c \<noteq> None" using set_nat_str [of c "nat n"] c by simp
    then have "c \<noteq> CHR ''-'' \<and> c \<noteq> CHR ''+''" by (auto simp: digit_of_def)
    moreover have "parse_nat (c # cs) = Some (nat n)"
      using parse_nat_nat_str [of "nat n"] c by simp
    ultimately show ?thesis using False p c by (simp add: int_str_def)
  qed
qed

lemma na_values_not_int:
  "list_all (\<lambda>v. v = [] \<or> list_ex (\<lambda>c. c \<noteq> CHR ''-'' \<and> digit_of c = None) v) na_values"
  by (simp add: na_values_def digit_of_def)

lemma int_str_not_na: "int_str n \<notin> set na_values"
proof
  assume "int_str n \<in> set na_values"
  with na_values_not_int int_str_not_Nil [of n]
  obtain c where "c \<in> set (int_str n)" "c \<noteq> CHR ''-''" "digit_of c = None"
    by (auto simp: list_all_iff list_ex_iff)
  with set_int_str show False by blast
qed

subsection \<open>Reading: header names and well-formed frames\<close>

lemma count_of_update: "count_of (AList.update k v counts) j = (if j = k then v else count_of counts j)"
  by (simp add: count_of_def update_conv')

lemma nat_str_inj: "nat_str a = nat_str b \<Longrightarrow> a = b"
  by (metis option.inject parse_nat_nat_str)

lemma mangle_loop_Some:
  assumes inv: "\<forall>k. 0 < count_of counts k \<longrightarrow> k \<in> set hdr" and old: "old \<in> set hdr"
  shows "\<exists>counts' col'. mangle_loop hdr counts old col cur = Some (counts', col') \<and>
           (cur = 0 \<longrightarrow> counts' = counts \<and> col' = col) \<and> (0 < cur \<longrightarrow> col' \<notin> set hdr) \<and>
           (\<forall>k. 0 < count_of counts' k \<longleftrightarrow> 0 < count_of counts k \<or> (0 < cur \<and> k = old))"
  using inv
proof (induction cur arbitrary: counts col
    rule: measure_induct_rule [where f = "\<lambda>cur. card {k \<in> set hdr. \<exists>j\<ge>cur. k = old @ ''.'' @ nat_str j}"])
  case (less cur)
  show ?case
  proof (cases "cur = 0")
    case True
    then show ?thesis by (simp add: mangle_loop.simps)
  next
    case False
    define counts1 where "counts1 = AList.update old (Suc cur) counts"
    define col1 where "col1 = old @ ''.'' @ nat_str cur"
    have inv1: "\<forall>k. 0 < count_of counts1 k \<longrightarrow> k \<in> set hdr"
      using less.prems old by (simp add: counts1_def count_of_update)
    have keys1: "0 < count_of counts1 k \<longleftrightarrow> 0 < count_of counts k \<or> k = old" for k
      by (simp add: counts1_def count_of_update)
    have step: "mangle_loop hdr counts old col cur =
        (if col1 \<in> set hdr then mangle_loop hdr counts1 old col1 (Suc cur)
         else mangle_loop hdr counts1 old col1 (count_of counts1 col1))"
      using False by (simp add: mangle_loop.simps [of hdr counts old col cur] counts1_def col1_def Let_def)
    show ?thesis
    proof (cases "col1 \<in> set hdr")
      case True
      let ?S = "\<lambda>c. {k \<in> set hdr. \<exists>j\<ge>c. k = old @ ''.'' @ nat_str j}"
      have "?S (Suc cur) \<subset> ?S cur"
      proof
        show "?S (Suc cur) \<subseteq> ?S cur" using Suc_leD by blast
        have "col1 \<in> ?S cur" using True by (auto simp: col1_def)
        moreover have "col1 \<notin> ?S (Suc cur)" by (auto simp: col1_def dest: nat_str_inj)
        ultimately show "?S (Suc cur) \<noteq> ?S cur" by blast
      qed
      then have "card (?S (Suc cur)) < card (?S cur)" by (rule psubset_card_mono [rotated]) simp
      from less.IH [OF this inv1, of col1] obtain counts' col' where
        r: "mangle_loop hdr counts1 old col1 (Suc cur) = Some (counts', col')" "col' \<notin> set hdr"
        "\<forall>k. 0 < count_of counts' k \<longleftrightarrow> 0 < count_of counts1 k \<or> k = old"
        by auto
      with step True keys1 False show ?thesis by auto
    next
      case False
      have "col1 \<noteq> old" by (simp add: col1_def)
      then have "count_of counts1 col1 = count_of counts col1" by (simp add: counts1_def count_of_update)
      also have "\<dots> = 0" using less.prems False by (meson neq0_conv)
      finally have "mangle_loop hdr counts1 old col1 (count_of counts1 col1) = Some (counts1, col1)"
        by (simp add: mangle_loop.simps)
      with step False keys1 \<open>cur \<noteq> 0\<close> show ?thesis by auto
    qed
  qed
qed

lemma mangle_from_Some:
  assumes "distinct is" "\<forall>i\<in>set is. i < length hdr \<and> i \<notin> D" "\<forall>i\<in>D. i < length hdr"
    and keys: "\<forall>k. 0 < count_of counts k \<longleftrightarrow> (\<exists>j\<in>D. k = hdr ! j)"
    and dist: "inj_on (nth hdr) D"
  shows "\<exists>h. mangle_from hdr counts is = Some h \<and> length h = length hdr \<and>
           inj_on (nth h) (D \<union> set is) \<and> (\<forall>j. j \<notin> set is \<longrightarrow> h ! j = hdr ! j)"
  using assms
proof (induction "is" arbitrary: hdr counts D)
  case Nil
  then show ?case by simp
next
  case (Cons i "is")
  let ?old = "hdr ! i"
  have i: "i < length hdr" "i \<notin> D" using Cons.prems(2) by auto
  have inv: "\<forall>k. 0 < count_of counts k \<longrightarrow> k \<in> set hdr"
    using Cons.prems(3,4) by (auto simp: nth_mem)
  obtain counts' col where loop: "mangle_loop hdr counts ?old ?old (count_of counts ?old) = Some (counts', col)"
    and r0: "count_of counts ?old = 0 \<longrightarrow> counts' = counts \<and> col = ?old"
    and r1: "0 < count_of counts ?old \<longrightarrow> col \<notin> set hdr"
    and rk: "\<forall>k. 0 < count_of counts' k \<longleftrightarrow> 0 < count_of counts k \<or> (0 < count_of counts ?old \<and> k = ?old)"
    using mangle_loop_Some [OF inv nth_mem [OF i(1)], of ?old "count_of counts ?old"]
    by (elim exE conjE) (rule that, assumption+)
  define hdr1 where "hdr1 = hdr[i := col]"
  define counts1 where "counts1 = AList.update col 1 counts'"
  have same: "hdr1 ! j = hdr ! j" if "j \<in> D" for j
  proof -
    from that i(2) have "j \<noteq> i" by blast
    then show ?thesis by (simp add: hdr1_def)
  qed
  have fresh: "col \<noteq> hdr ! j" if "j \<in> D" for j
  proof (cases "count_of counts ?old = 0")
    case True
    have "?old \<noteq> hdr ! j"
    proof
      assume "?old = hdr ! j"
      with Cons.prems(4) that have "0 < count_of counts ?old" by blast
      with True show False by simp
    qed
    with r0 True show ?thesis by simp
  next
    case False
    with r1 that Cons.prems(3) show ?thesis by (auto simp: nth_mem)
  qed
  have keys1: "\<forall>k. 0 < count_of counts1 k \<longleftrightarrow> (\<exists>j\<in>insert i D. k = hdr1 ! j)"
  proof
    fix k
    have "0 < count_of counts ?old \<Longrightarrow> \<exists>j\<in>D. ?old = hdr ! j" using Cons.prems(4) by blast
    then show "0 < count_of counts1 k \<longleftrightarrow> (\<exists>j\<in>insert i D. k = hdr1 ! j)"
      using rk Cons.prems(4) same i(1)
      by (auto simp: counts1_def count_of_update hdr1_def)
  qed
  have dist1: "inj_on (nth hdr1) (insert i D)"
    using Cons.prems(5) same fresh i(1) by (auto simp: inj_on_def hdr1_def)
  have "\<forall>j\<in>set is. j < length hdr1 \<and> j \<notin> insert i D" "\<forall>j\<in>insert i D. j < length hdr1"
    using Cons.prems(1-3) by (auto simp: hdr1_def)
  from Cons.IH [OF _ this keys1 dist1] Cons.prems(1) obtain h where
    h: "mangle_from hdr1 counts1 is = Some h" "length h = length hdr1"
       "inj_on (nth h) (insert i D \<union> set is)" "\<forall>j. j \<notin> set is \<longrightarrow> h ! j = hdr1 ! j"
    by auto
  have "mangle_from hdr counts (i # is) = Some h"
    using loop h(1) by (simp add: hdr1_def counts1_def)
  with h i show ?case by (auto simp: hdr1_def)
qed

lemma mangle_from_id:
  assumes "distinct is" "\<forall>i\<in>set is. i < length hdr \<and> i \<notin> D" "\<forall>i\<in>D. i < length hdr"
    and keys: "\<forall>k. 0 < count_of counts k \<longleftrightarrow> (\<exists>j\<in>D. k = hdr ! j)"
    and dist: "inj_on (nth hdr) (D \<union> set is)"
  shows "mangle_from hdr counts is = Some hdr"
  using assms
proof (induction "is" arbitrary: counts D)
  case Nil
  then show ?case by simp
next
  case (Cons i "is")
  have i: "i < length hdr" "i \<notin> D" using Cons.prems(2) by auto
  have "hdr ! i \<noteq> hdr ! j" if "j \<in> D" for j
    using Cons.prems(5) that i(2) by (auto simp: inj_on_def)
  then have z: "count_of counts (hdr ! i) = 0" using Cons.prems(4) by blast
  have keys1: "\<forall>k. 0 < count_of (AList.update (hdr ! i) 1 counts) k \<longleftrightarrow> (\<exists>j\<in>insert i D. k = hdr ! j)"
    using Cons.prems(4) by (auto simp: count_of_update)
  have "\<forall>j\<in>set is. j < length hdr \<and> j \<notin> insert i D" "\<forall>j\<in>insert i D. j < length hdr"
    "inj_on (nth hdr) (insert i D \<union> set is)"
    using Cons.prems(1-3,5) by auto
  with Cons.IH [where counts = "AList.update (hdr ! i) 1 counts" and D = "insert i D"] Cons.prems(1) keys1
  have "mangle_from hdr (AList.update (hdr ! i) 1 counts) is = Some hdr" by simp
  with z show ?case by (simp add: mangle_loop.simps)
qed

lemma length_unnamed_header [simp]: "length (unnamed_header hdr) = length hdr"
  by (simp add: unnamed_header_def)

lemma mangle_order_perm: "distinct (mangle_order hdr) \<and> set (mangle_order hdr) = {..<length hdr}"
  by (auto simp: mangle_order_def)

lemma distinct_inj_nth: "distinct xs \<longleftrightarrow> inj_on (nth xs) {..<length xs}"
  by (auto simp: distinct_conv_nth inj_on_def)

lemma header_mangle_Some:
  "\<exists>h. mangle_from (unnamed_header hdr) [] (mangle_order hdr) = Some h \<and>
     length h = length hdr \<and> distinct h"
proof -
  have p: "\<forall>i\<in>set (mangle_order hdr). i < length (unnamed_header hdr) \<and> i \<notin> {}"
    "\<forall>i\<in>{}. i < length (unnamed_header hdr)"
    "\<forall>k. 0 < count_of [] k \<longleftrightarrow> (\<exists>j\<in>{}. k = unnamed_header hdr ! j)" "inj_on (nth (unnamed_header hdr)) {}"
    using mangle_order_perm [of hdr] by (auto simp: count_of_def)
  from mangle_from_Some [OF conjunct1 [OF mangle_order_perm] p]
  obtain h where "mangle_from (unnamed_header hdr) [] (mangle_order hdr) = Some h"
    "length h = length hdr" "inj_on (nth h) ({} \<union> set (mangle_order hdr))"
    by auto
  then show ?thesis using mangle_order_perm [of hdr] by (auto simp: distinct_inj_nth)
qed

lemma length_header_names [simp]: "length (header_names hdr) = length hdr"
  using header_mangle_Some [of hdr] by (auto simp: header_names_def)

lemma distinct_header_names: "distinct (header_names hdr)"
  using header_mangle_Some [of hdr] by (auto simp: header_names_def)

lemma header_names_id: "distinct hdr \<Longrightarrow> [] \<notin> set hdr \<Longrightarrow> header_names hdr = hdr"
proof -
  assume d: "distinct hdr" and ne: "[] \<notin> set hdr"
  have "hdr ! i \<noteq> []" if "i < length hdr" for i
    using ne nth_mem [OF that] by metis
  then have u: "unnamed_header hdr = hdr"
    by (intro nth_equalityI) (auto simp: unnamed_header_def)
  have p: "\<forall>i\<in>set (mangle_order hdr). i < length hdr \<and> i \<notin> {}" "\<forall>i\<in>{}. i < length hdr"
    "\<forall>k. 0 < count_of [] k \<longleftrightarrow> (\<exists>j\<in>{}. k = hdr ! j)"
    "inj_on (nth hdr) ({} \<union> set (mangle_order hdr))"
    using mangle_order_perm [of hdr] d by (auto simp: distinct_inj_nth count_of_def)
  have "mangle_from hdr [] (mangle_order hdr) = Some hdr"
    by (rule mangle_from_id [OF conjunct1 [OF mangle_order_perm] p])
  with u show ?thesis by (simp add: header_names_def)
qed

lemma length_parse_col [simp]: "length (parse_col xs) = length xs"
  by (simp add: parse_col_def)

lemma read_csv_Inr:
  "read_csv s = Inr f \<Longrightarrow>
   \<exists>hdr body. csv_tokenize s = Inr (hdr # body) \<and> \<not> list_ex (\<lambda>r. length hdr < length r) body \<and>
     f = \<lparr>nrows = length body,
          cols = zip (header_names hdr)
            (map (\<lambda>j. parse_col (map (\<lambda>r. if j < length r then Some (r ! j) else None) body))
                 [0..<length hdr])\<rparr>"
proof -
  assume "read_csv s = Inr f"
  then obtain rows where tok: "csv_tokenize s = Inr rows" and k: "(case rows of
         [] \<Rightarrow> Inl (ValueError ''No columns to parse from file'')
       | hdr # body \<Rightarrow>
           if list_ex (\<lambda>r. length hdr < length r) body
           then Inl (ValueError ''Error tokenizing data. C error: Expected fewer fields in a line'')
           else Inr \<lparr>nrows = length body,
                     cols = zip (header_names hdr)
                       (map (\<lambda>j. parse_col (map (\<lambda>r. if j < length r then Some (r ! j) else None) body))
                            [0..<length hdr])\<rparr>) = Inr f"
    by (auto simp: read_csv_def rbind_eq_Inr)
  then show ?thesis
    by (cases rows) (auto split: if_splits)
qed

text \<open>The tokenizer only appends rows, and never an empty one: each row it finishes holds
  the field being read.\<close>

lemma tok_appends:
  "tok st fld flds rows s = Inr out \<Longrightarrow> \<exists>new. out = rows @ new \<and> list_all (\<lambda>r. r \<noteq> []) new"
proof (induction st fld flds rows s arbitrary: out rule: tok.induct)
  case (9 fld flds rows c cs)
  then show ?case by (auto split: if_splits)
next
  case (10 fld flds rows c cs)
  then show ?case by (fastforce split: if_splits)
next
  case (11 fld flds rows c cs)
  then show ?case by (fastforce split: if_splits)
next
  case (12 fld flds rows c cs)
  then show ?case by (auto split: if_splits)
next
  case (13 fld flds rows c cs)
  then show ?case by (fastforce split: if_splits)
next
  case (14 fld flds rows c cs)
  then show ?case by (fastforce split: if_splits)
next
  case (15 fld flds rows c cs)
  then show ?case by (fastforce split: if_splits)
next
  case (16 fld flds rows c cs)
  then show ?case by (auto split: if_splits)
qed auto

text \<open>
  C28. Every table \<open>pd.read_csv\<close> returns has at least one column: the header row is a
  row of the tokenizer and so has a field.
\<close>

theorem read_csv_has_columns: "read_csv s = Inr f \<Longrightarrow> cols f \<noteq> [] \<and> columns f \<noteq> []"
proof -
  assume r: "read_csv s = Inr f"
  then obtain hdr body where tk: "csv_tokenize s = Inr (hdr # body)"
    and f: "f = \<lparr>nrows = length body,
          cols = zip (header_names hdr)
            (map (\<lambda>j. parse_col (map (\<lambda>r. if j < length r then Some (r ! j) else None) body))
                 [0..<length hdr])\<rparr>"
    using read_csv_Inr by blast
  from tok_appends [OF tk [unfolded csv_tokenize_def]] have "hdr \<noteq> []" by auto
  then have "header_names hdr \<noteq> []" using length_header_names [of hdr] by (metis length_0_conv)
  then show ?thesis using \<open>hdr \<noteq> []\<close> by (simp add: f columns_def)
qed

lemma read_csv_frame_wf:
  assumes "read_csv s = Inr f"
  shows "frame_wf f"
proof -
  obtain hdr body where f: "f = \<lparr>nrows = length body,
          cols = zip (header_names hdr)
            (map (\<lambda>j. parse_col (map (\<lambda>r. if j < length r then Some (r ! j) else None) body))
                 [0..<length hdr])\<rparr>"
    using read_csv_Inr [OF assms] by blast
  have "list_all (\<lambda>(n, c). length c = nrows f) (cols f)"
    by (auto simp: f list_all_iff set_zip)
  then show ?thesis
    by (simp add: frame_wf_def f columns_def distinct_header_names)
qed

text \<open>
  C20. pandas' header renaming always ends and yields distinct names, one per header field,
  and leaves a header whose names are distinct and non-empty as it is.
\<close>

theorem header_names_distinct:
  "mangle_from (unnamed_header hdr) [] (mangle_order hdr) \<noteq> None \<and>
   distinct (header_names hdr) \<and> length (header_names hdr) = length hdr \<and>
   (distinct hdr \<and> [] \<notin> set hdr \<longrightarrow> header_names hdr = hdr)"
  using header_mangle_Some [of hdr] distinct_header_names [of hdr] header_names_id [of hdr]
  by auto

text \<open>
  C26. The renaming loop \<open>while cur_count > 0\<close> returns whenever every name with a positive
  count is a name of the header and the renamed column's own name is one: each turn either
  moves to the next \<open>name.k\<close> of the header, of which there are finitely many, or
  reaches a name outside the header, whose count is then 0.
\<close>

theorem mangle_loop_terminates:
  "\<forall>k. 0 < count_of counts k \<longrightarrow> k \<in> set hdr \<Longrightarrow> old \<in> set hdr \<Longrightarrow>
   mangle_loop hdr counts old col cur \<noteq> None"
  using mangle_loop_Some [of counts hdr old col cur] by auto

subsection \<open>The CSV round trip\<close>

lemma not_needs_quote: "\<not> needs_quote s \<longleftrightarrow> list_all plain s"
  by (auto simp: needs_quote_def plain_def list_ex_iff list_all_iff)

lemma tok_in_field: "list_all plain s \<Longrightarrow> tok InField fld flds rows (s @ cs) = tok InField (fld @ s) flds rows cs"
  by (induction s arbitrary: fld) (auto simp: plain_def)

lemma tok_in_quoted:
  "tok InQuoted fld flds rows (escape_quotes s @ CHR 0x22 # cs) = tok QuoteInQuoted (fld @ s) flds rows cs"
  by (induction s arbitrary: fld) (auto simp: escape_quotes_def)

lemma tok_ws_line:
  "list_all is_ws w \<Longrightarrow> tok WhitespaceLine fld [] rows (w @ cs) = tok WhitespaceLine (fld @ w) [] rows cs"
  by (induction w arbitrary: fld) (auto simp: is_ws_def)

lemma tok_field:
  assumes "d = CHR '','' \<or> d = CHR 0x0A \<or> d = CHR 0x0D"
  shows "tok StartField [] flds rows (quote_field f @ d # cs) = after_field d (flds @ [f]) rows cs"
proof (cases "needs_quote f")
  case True
  have "tok StartField [] flds rows (quote_field f @ d # cs) =
        tok InQuoted [] flds rows (escape_quotes f @ CHR 0x22 # d # cs)"
    using True by (simp add: quote_field_def)
  also have "\<dots> = tok QuoteInQuoted f flds rows (d # cs)"
    using tok_in_quoted [of "[]" flds rows f "d # cs"] by simp
  also have "\<dots> = after_field d (flds @ [f]) rows cs"
    using assms by (auto simp: after_field_def)
  finally show ?thesis .
next
  case False
  then have pl: "list_all plain f" by (simp add: not_needs_quote)
  show ?thesis
  proof (cases f)
    case Nil
    with assms show ?thesis by (auto simp: quote_field_def needs_quote_def after_field_def)
  next
    case (Cons x r)
    with pl have "plain x" "list_all plain r" by auto
    with Cons False assms show ?thesis
      using tok_in_field [of r "[x]" flds rows "d # cs"]
      by (auto simp: quote_field_def after_field_def plain_def)
  qed
qed

lemma tok_fields:
  "fs \<noteq> [] \<Longrightarrow> d = CHR 0x0A \<or> d = CHR 0x0D \<Longrightarrow>
   tok StartField [] flds rows (py_join '','' (map quote_field fs) @ d # cs) = after_field d (flds @ fs) rows cs"
proof (induction fs arbitrary: flds)
  case Nil
  then show ?case by simp
next
  case (Cons f gs)
  show ?case
  proof (cases gs)
    case Nil
    then show ?thesis
      using tok_field [of d flds rows f cs] Cons.prems(2) by simp
  next
    case (Cons g hs)
    then have "py_join '','' (map quote_field (f # gs)) @ d # cs =
        quote_field f @ CHR '','' # (py_join '','' (map quote_field gs) @ d # cs)"
      by simp
    with Cons.IH [of "flds @ [f]"] Cons Cons.prems(2) show ?thesis
      using tok_field [of "CHR '',''" flds rows f "py_join '','' (map quote_field gs) @ d # cs"]
      by (simp add: after_field_def)
  qed
qed

lemma tok_first:
  assumes d: "d = CHR '','' \<or> d = CHR 0x0A \<or> d = CHR 0x0D"
    and nws: "\<not> ((d = CHR 0x0A \<or> d = CHR 0x0D) \<and> list_all is_ws f)"
  shows "tok StartRecord [] [] rows (quote_field f @ d # cs) = after_field d [f] rows cs"
proof (cases "needs_quote f")
  case True
  then have "tok StartRecord [] [] rows (quote_field f @ d # cs) =
      tok StartField [] [] rows (quote_field f @ d # cs)"
    by (simp add: quote_field_def is_ws_def)
  with tok_field [OF d, of "[]" rows f cs] show ?thesis by simp
next
  case False
  then have pl: "list_all plain f" by (simp add: not_needs_quote)
  from False have q: "quote_field f = f" by (simp add: quote_field_def)
  show ?thesis
  proof (cases f)
    case Nil
    with nws d have "d = CHR '',''" by auto
    with Nil q show ?thesis by (simp add: after_field_def is_ws_def)
  next
    case (Cons x r)
    show ?thesis
    proof (cases "is_ws x")
      case False
      have "tok StartRecord [] [] rows (quote_field f @ d # cs) =
          tok StartField [] [] rows (quote_field f @ d # cs)"
        unfolding q using Cons pl False by (simp add: plain_def)
      with tok_field [OF d, of "[]" rows f cs] show ?thesis by simp
    next
      case True
      define w where "w = takeWhile is_ws r"
      define rest where "rest = dropWhile is_ws r"
      have r: "r = w @ rest" by (simp add: w_def rest_def)
      have ws: "list_all is_ws w" by (auto simp: w_def list_all_iff dest: set_takeWhileD)
      have "tok StartRecord [] [] rows (quote_field f @ d # cs) =
          tok WhitespaceLine [x] [] rows (w @ rest @ d # cs)"
        unfolding q using True Cons pl by (simp add: r plain_def)
      also have "\<dots> = tok WhitespaceLine (x # w) [] rows (rest @ d # cs)"
        using tok_ws_line [OF ws] by simp
      also have "\<dots> = after_field d [f] rows cs"
      proof (cases rest)
        case Nil
        with True ws nws d Cons r have "d = CHR '',''" by auto
        with Nil Cons r show ?thesis by (simp add: after_field_def is_ws_def)
      next
        case (Cons y rest')
        have "\<not> is_ws y" using Cons by (simp add: rest_def dropWhile_eq_Cons_conv)
        moreover have "plain y" "list_all plain rest'"
          using pl \<open>f = x # r\<close> r Cons by auto
        ultimately have "tok WhitespaceLine (x # w) [] rows (rest @ d # cs) =
            tok InField (x # w @ [y]) [] rows (rest' @ d # cs)"
          using Cons by (simp add: plain_def)
        also have "\<dots> = tok InField f [] rows (d # cs)"
          using tok_in_field [OF \<open>list_all plain rest'\<close>] \<open>f = x # r\<close> r Cons by simp
        finally show ?thesis
          using d by (auto simp: after_field_def)
      qed
      finally show ?thesis .
    qed
  qed
qed

lemma tok_line_term:
  assumes ok: "csv_row_ok r" and eol: "eol = [CHR 0x0A] \<or> eol = [CHR 0x0D, CHR 0x0A]"
  shows "tok StartRecord [] [] rows (csv_line_term eol r @ cs) = tok StartRecord [] [] (rows @ [r]) cs"
proof -
  define d where "d = hd eol"
  define cs' where "cs' = tl eol @ cs"
  have e: "eol @ cs = d # cs'" using eol by (auto simp: d_def cs'_def)
  have d: "d = CHR 0x0A \<or> d = CHR 0x0D" using eol by (auto simp: d_def)
  have fin: "after_field d flds rows cs' = tok StartRecord [] [] (rows @ [flds]) cs" for flds
    using eol by (auto simp: after_field_def d_def cs'_def)
  show ?thesis
  proof (cases r)
    case Nil
    with ok show ?thesis by (simp add: csv_row_ok_def)
  next
    case (Cons f gs)
    show ?thesis
    proof (cases gs)
      case Nil
      show ?thesis
      proof (cases "f = []")
        case True
        have "tok StartRecord [] [] rows (csv_line_term eol r @ cs) = after_field d [[]] rows cs'"
          using d True Cons Nil by (auto simp: csv_line_term_def e is_ws_def after_field_def)
        with True Cons Nil fin show ?thesis by simp
      next
        case False
        with ok Cons Nil have "\<not> list_all is_ws f" by (simp add: csv_row_ok_def)
        moreover have "csv_line_term eol r @ cs = quote_field f @ d # cs'"
          using False Cons Nil by (simp add: csv_line_term_def e)
        ultimately show ?thesis
          using tok_first [of d f rows cs'] d fin Cons Nil by auto
      qed
    next
      case (Cons g hs)
      have line: "csv_line_term eol r @ cs =
          quote_field f @ CHR '','' # (py_join '','' (map quote_field gs) @ d # cs')"
        using \<open>r = f # gs\<close> Cons by (simp add: csv_line_term_def e)
      show ?thesis
        unfolding line
        using tok_first [of "CHR '',''" f rows "py_join '','' (map quote_field gs) @ d # cs'"]
          tok_fields [of gs d "[f]" rows cs'] d fin \<open>r = f # gs\<close> Cons
        by (simp add: after_field_def)
    qed
  qed
qed

lemma tok_line:
  "csv_row_ok r \<Longrightarrow> tok StartRecord [] [] rows (csv_line r @ cs) = tok StartRecord [] [] (rows @ [r]) cs"
  unfolding csv_line_def by (rule tok_line_term) simp_all

text \<open>The tokenizer reads the rendering of well-formed rows, with either line end, and then
  goes on with what follows.\<close>

lemma tok_render_term:
  "list_all csv_row_ok rows \<Longrightarrow> eol = [CHR 0x0A] \<or> eol = [CHR 0x0D, CHR 0x0A] \<Longrightarrow>
   tok StartRecord [] [] acc (csv_render_term eol rows @ rest) = tok StartRecord [] [] (acc @ rows) rest"
proof (induction rows arbitrary: acc)
  case Nil
  then show ?case by (simp add: csv_render_term_def)
next
  case (Cons r rows)
  then have "tok StartRecord [] [] acc (csv_render_term eol (r # rows) @ rest) =
      tok StartRecord [] [] (acc @ [r]) (csv_render_term eol rows @ rest)"
    using tok_line_term [of r eol acc "csv_render_term eol rows @ rest"] by (simp add: csv_render_term_def)
  with Cons show ?case by simp
qed

lemma csv_render_lf: "csv_render rows = csv_render_term [CHR 0x0A] rows"
  by (simp add: csv_render_def csv_render_term_def csv_line_def [abs_def])

lemma tok_render_append:
  "list_all csv_row_ok rows \<Longrightarrow>
   tok StartRecord [] [] acc (csv_render rows @ rest) = tok StartRecord [] [] (acc @ rows) rest"
  unfolding csv_render_lf by (rule tok_render_term) simp_all

lemma tok_render:
  "list_all csv_row_ok rows \<Longrightarrow> tok StartRecord [] [] acc (csv_render rows) = Inr (acc @ rows)"
  using tok_render_append [of rows acc "[]"] by simp

text \<open>
  C21. Reading back what the CSV writer wrote gives the same rows: pandas' tokenizer inverts
  Python's minimally quoting writer, commas, quotes and line breaks inside fields
  included, for every row that is not empty and not a single field of blanks.
\<close>

theorem csv_roundtrip:
  "list_all csv_row_ok rows \<Longrightarrow> csv_tokenize (csv_render rows) = Inr rows"
  using tok_render [of rows "[]"] by (simp add: csv_tokenize_def)

subsection \<open>Unreadable files and line ends\<close>

lemma tok_blank:
  "blank_text s \<Longrightarrow> st \<in> {StartRecord, WhitespaceLine, EatCRNLNop} \<Longrightarrow> tok st fld [] rows s = Inr rows"
proof (induction s arbitrary: st fld)
  case Nil
  then show ?case by auto
next
  case (Cons c cs)
  then have c: "c = CHR 0x0A \<or> c = CHR 0x0D \<or> is_ws c" and bl: "blank_text cs"
    by (simp_all add: blank_text_def)
  have sr: "tok StartRecord fld' [] rows (c # cs) = Inr rows" for fld'
    using c Cons.IH [OF bl] by (auto simp: is_ws_def)
  show ?case
    using Cons.prems(2) c Cons.IH [OF bl] sr by (auto simp: is_ws_def)
qed

lemma tok_in_quoted_eof:
  "CHR 0x22 \<notin> set t \<Longrightarrow>
   tok InQuoted fld flds rows t = Inl (ValueError ''Error tokenizing data. C error: EOF inside string'')"
  by (induction t arbitrary: fld) auto

lemma read_csv_truncated_quote:
  "list_all csv_row_ok rows \<Longrightarrow> CHR 0x22 \<notin> set t \<Longrightarrow>
   read_csv (csv_render rows @ CHR 0x22 # t) =
     Inl (ValueError ''Error tokenizing data. C error: EOF inside string'')"
  using tok_render_append [of rows "[]" "CHR 0x22 # t"] tok_in_quoted_eof [of t "[]" "[]" rows]
  by (simp add: read_csv_def csv_tokenize_def is_ws_def)

lemma read_csv_blank: "blank_text s \<Longrightarrow> read_csv s = Inl (ValueError ''No columns to parse from file'')"
  using tok_blank [of s StartRecord "[]" "[]"] by (simp add: read_csv_def csv_tokenize_def)

text \<open>
  C30. Line ends do not matter: a file whose rows end with \<open>\r\n\<close> (written on Windows or
  by Excel) is read exactly as the same file with \<open>\n\<close>, quoted fields and their line
  breaks included.
\<close>

theorem read_csv_crlf:
  "list_all csv_row_ok rows \<Longrightarrow>
   read_csv (csv_render_term [CHR 0x0D, CHR 0x0A] rows) = read_csv (csv_render rows)"
  using tok_render_term [of rows "[CHR 0x0D, CHR 0x0A]" "[]" "[]"] tok_render [of rows "[]"]
  by (simp add: read_csv_def csv_tokenize_def)

subsection \<open>Tables through the writer and the reader\<close>

lemma length_col_text [simp]: "length (col_text c) = length c"
  by (simp add: col_text_def Let_def)

lemma parse_col_text: "col_safe c \<Longrightarrow> parse_col (map Some (col_text c)) = c"
proof (cases "obj_col c")
  case True
  assume "col_safe c"
  with True have cells: "\<forall>x\<in>set c. case x of Num _ \<Rightarrow> False | Str s \<Rightarrow> s \<notin> set na_values | NA \<Rightarrow> True"
    and ex: "\<exists>x\<in>set c. case x of Str s \<Rightarrow> parse_int s = None | _ \<Rightarrow> False"
    by (auto simp: col_safe_def list_all_iff list_ex_iff)
  have ctext: "col_text c = map (\<lambda>x. case x of Str s \<Rightarrow> s | _ \<Rightarrow> []) c"
    using True cells by (auto simp: col_text_def intro!: map_cong split: cell.splits)
  from ex obtain x where x: "x \<in> set c" and px: "case x of Str s \<Rightarrow> parse_int s = None | _ \<Rightarrow> False"
    by blast
  from px obtain s where "x = Str s" "parse_int s = None"
    by (cases x) auto
  with x have "Str s \<in> set c" "parse_int s = None" by simp_all
  moreover from this cells have "s \<notin> set na_values" by fastforce
  ultimately have notint: "\<not> list_all (\<lambda>x. is_na_field x \<or> parse_int (the x) \<noteq> None) (map Some (col_text c))"
    by (force simp: ctext list_all_iff is_na_field_def)
  have cell_back: "(if is_na_field (Some (case x of Str s \<Rightarrow> s | _ \<Rightarrow> [])) then NA
         else Str (case x of Str s \<Rightarrow> s | _ \<Rightarrow> [])) = x" if "x \<in> set c" for x
    using cells that by (auto simp: is_na_field_def na_values_def split: cell.splits)
  with notint show ?thesis
    by (simp add: parse_col_def ctext comp_def) (rule map_idI, simp only: option.sel cell_back)
next
  case False
  assume "col_safe c"
  with False have na: "NA \<notin> set c" by (simp add: col_safe_def)
  have num: "\<exists>n. x = Num n" if "x \<in> set c" for x
    using False na that by (cases x) (auto simp: obj_col_def list_ex_iff)
  have ctext: "col_text c = map (\<lambda>x. case x of Num n \<Rightarrow> int_str n | _ \<Rightarrow> []) c"
    using False na num by (fastforce simp: col_text_def intro!: map_cong)
  have "list_all (\<lambda>x. is_na_field x \<or> parse_int (the x) \<noteq> None) (map Some (col_text c))"
    using num by (fastforce simp: ctext list_all_iff parse_int_int_str)
  moreover have cell_back: "(if is_na_field (Some (case x of Num n \<Rightarrow> int_str n | _ \<Rightarrow> [])) then NA
         else Num (the (parse_int (case x of Num n \<Rightarrow> int_str n | _ \<Rightarrow> [])))) = x" if "x \<in> set c" for x
    using num [OF that] by (auto simp: is_na_field_def int_str_not_na parse_int_int_str)
  ultimately show ?thesis
    by (simp add: parse_col_def ctext comp_def) (rule map_idI, simp only: option.sel cell_back)
qed

lemma csv_column_text:
  assumes wf: "frame_wf f" and j: "j < length (cols f)"
  shows "map (\<lambda>r. if j < length r then Some (r ! j) else None)
           (map (\<lambda>i. map (\<lambda>(n, c). col_text c ! i) (cols f)) [0..<nrows f]) =
         map Some (col_text (snd (cols f ! j)))"
proof -
  have "length (snd (cols f ! j)) = nrows f"
    using wf j by (auto simp: frame_wf_def intro: list_all_snd_nth [where P = "\<lambda>c. length c = nrows f"])
  then show ?thesis using j
    by (auto simp: list_eq_iff_nth_eq split: prod.splits)
qed

text \<open>A table that is \<open>csv_safe\<close> survives its own download: the reader returns it.\<close>

lemma read_csv_to_csv: "csv_safe f \<Longrightarrow> read_csv (to_csv f) = Inr f"
proof -
  assume safe: "csv_safe f"
  define rows where "rows = map (\<lambda>i. map (\<lambda>(n, c). col_text c ! i) (cols f)) [0..<nrows f]"
  from safe have wf: "frame_wf f" and names: "[] \<notin> set (columns f)"
    and colsafe: "list_all (\<lambda>(n, c). col_safe c) (cols f)"
    and ok: "list_all csv_row_ok (columns f # rows)"
    by (simp_all add: csv_safe_def rows_def)
  have tokd: "csv_tokenize (to_csv f) = Inr (columns f # rows)"
    using tok_render [OF ok, of "[]"] by (simp add: csv_tokenize_def to_csv_def rows_def)
  have short: "\<not> list_ex (\<lambda>r. length (columns f) < length r) rows"
    by (simp add: rows_def list_ex_iff columns_def)
  have hdr: "header_names (columns f) = columns f"
    using wf names by (simp add: header_names_id frame_wf_def)
  have "map (\<lambda>j. parse_col (map (\<lambda>r. if j < length r then Some (r ! j) else None) rows))
          [0..<length (columns f)] = map snd (cols f)"
  proof (rule nth_equalityI)
    fix j assume "j < length (map (\<lambda>j. parse_col (map (\<lambda>r. if j < length r then Some (r ! j) else None) rows))
          [0..<length (columns f)])"
    then have j: "j < length (cols f)" by (simp add: columns_def)
    have "col_safe (snd (cols f ! j))"
      using colsafe j by (rule list_all_snd_nth)
    then show "map (\<lambda>j. parse_col (map (\<lambda>r. if j < length r then Some (r ! j) else None) rows))
          [0..<length (columns f)] ! j = map snd (cols f) ! j"
    proof -
      have "map (\<lambda>j. parse_col (map (\<lambda>r. if j < length r then Some (r ! j) else None) rows))
          [0..<length (columns f)] ! j =
          parse_col (map (\<lambda>r. if j < length r then Some (r ! j) else None) rows)"
        using j unfolding columns_def length_map by (rule map_upt_nth)
      also have "\<dots> = snd (cols f ! j)"
        using csv_column_text [OF wf j] parse_col_text [OF \<open>col_safe (snd (cols f ! j))\<close>]
        by (simp only: rows_def)
      finally show ?thesis using j by simp
    qed
  qed (simp add: columns_def)
  then have "zip (columns f) (map (\<lambda>j. parse_col (map (\<lambda>r. if j < length r then Some (r ! j) else None) rows))
          [0..<length (columns f)]) = cols f"
    by (simp add: columns_def zip_map_fst_snd)
  moreover have "length rows = nrows f" by (simp add: rows_def)
  ultimately show ?thesis
    using tokd short hdr by (simp add: read_csv_def)
qed

subsection \<open>Witnesses\<close>

lemmas csv_eval =
  read_csv_def csv_tokenize_def is_ws_def header_names_id
  count_of_def parse_col_def is_na_field_def na_values_def parse_int_def is_space_def parse_nat_def
  digit_of_def

lemma read_ex_csv:
  "read_csv ex_csv = Inr \<lparr>nrows = 3, cols = [(''age'', [Num 30, Num 45, Num 25]),
     (''gender'', [Str ''Male'', NA, Str ''Female'']),
     (''workclass'', [Str ''Private'', Str ''Government'', Str ''Private''])]\<rparr>"
  by (simp add: ex_csv_def csv_eval)

theorem mangle_loop_terminates_witness:
  "mangle_loop [''a'', ''a'', ''a.1''] [(''a'', 1)] ''a'' ''a'' 1 = Some ([(''a'', 3)], ''a.2'')"
proof -
  have "\<forall>k. 0 < count_of [(''a'', 1)] k \<longrightarrow> k \<in> set [''a'', ''a'', ''a.1'']" "''a'' \<in> set [''a'', ''a'', ''a.1'']"
    by (simp_all add: count_of_def)
  from mangle_loop_terminates [OF this, of "''a''" 1] show ?thesis
    by (simp add: mangle_loop.simps count_of_def nat_str.simps digit_char_def)
qed

theorem header_names_distinct_witness:
  "header_names [''a'', ''a'', ''a.1''] = [''a'', ''a.2'', ''a.1''] \<and>
   header_names [[], ''Unnamed: 0''] = [''Unnamed: 0.1'', ''Unnamed: 0'']"
  using header_names_distinct [of "[''a'', ''a'', ''a.1'']"] header_names_distinct [of "[[], ''Unnamed: 0'']"]
  by (simp add: header_names_def unnamed_header_def mangle_order_def mangle_loop.simps count_of_def
      nat_str.simps digit_char_def upt_rec)

theorem csv_roundtrip_witness:
  "csv_tokenize (csv_render [[''a'', [], ''b,c''], [[]], ['' x'', ''q'' @ [CHR 0x22]]]) =
     Inr [[''a'', [], ''b,c''], [[]], ['' x'', ''q'' @ [CHR 0x22]]]"
  by (rule csv_roundtrip) (simp add: csv_row_ok_def)

theorem read_csv_has_columns_witness:
  "cols \<lparr>nrows = 3, cols = [(''age'', [Num 30, Num 45, Num 25]),
     (''gender'', [Str ''Male'', NA, Str ''Female'']),
     (''workclass'', [Str ''Private'', Str ''Government'', Str ''Private''])]\<rparr> \<noteq> [] \<and>
   columns \<lparr>nrows = 3, cols = [(''age'', [Num 30, Num 45, Num 25]),
     (''gender'', [Str ''Male'', NA, Str ''Female'']),
     (''workclass'', [Str ''Private'', Str ''Government'', Str ''Private''])]\<rparr> \<noteq> []"
  by (rule read_csv_has_columns [OF read_ex_csv])

theorem read_csv_crlf_witness:
  "read_csv (csv_render_term [CHR 0x0D, CHR 0x0A] [[''age'', ''note''], [''30'', ''a,b'' @ [CHR 0x0A] @ ''c'']]) =
   read_csv (csv_render [[''age'', ''note''], [''30'', ''a,b'' @ [CHR 0x0A] @ ''c'']])"
  by (rule read_csv_crlf) (simp add: csv_row_ok_def)

end
