(* ===== verification/Form.thy ===== *)
theory Form
  imports Align Translations Csv
begin

text \<open>
  The manual input tab of \<open>src/main.py\<close> (lines 123--169). The widgets' values form a
  \<open>manual_form\<close>: \<open>st.number_input(.., 18, 100)\<close> for the age (default 18),
  four select boxes whose options carry an emoji after a space, and
  \<open>st.slider(.., 1, 100, 40)\<close> for the weekly hours. On "Predict", \<open>input_data\<close>
  (lines 133--140) keeps the text of each choice before its first space
  (\<open>choice.split(" ")[0]\<close>), \<open>manual_submit\<close> builds the one-row frame (141), aligns it
  (142--143), predicts (145), formats the message (146), appends the prediction column to
  the downloadable row and writes it as CSV (149--156) and draws three charts whose columns
  must exist (159--169).
\<close>

definition gender_options :: "string list" where
  "gender_options =
     [''Male '' @ [CHR 0xE2, CHR 0x99, CHR 0x82, CHR 0xEF, CHR 0xB8, CHR 0x8F],
      ''Female '' @ [CHR 0xE2, CHR 0x99, CHR 0x80, CHR 0xEF, CHR 0xB8, CHR 0x8F]]"

definition workclass_options :: "string list" where
  "workclass_options =
     [''Private '' @ [CHR 0xF0, CHR 0x9F, CHR 0x8F, CHR 0xA2],
      ''Self-emp '' @ [CHR 0xF0, CHR 0x9F, CHR 0x94, CHR 0xA7],
      ''Government '' @ [CHR 0xF0, CHR 0x9F, CHR 0x8F, CHR 0x9B, CHR 0xEF, CHR 0xB8, CHR 0x8F]]"

definition education_options :: "string list" where
  "education_options =
     [''Bachelors '' @ [CHR 0xF0, CHR 0x9F, CHR 0x8E, CHR 0x93],
      ''HS-grad '' @ [CHR 0xF0, CHR 0x9F, CHR 0x8F, CHR 0xAB],
      ''Masters '' @ [CHR 0xF0, CHR 0x9F, CHR 0x8E, CHR 0x93]]"

definition occupation_options :: "string list" where
  "occupation_options =
     [''Tech-support '' @ [CHR 0xF0, CHR 0x9F, CHR 0x92, CHR 0xBB],
      ''Craft-repair '' @ [CHR 0xF0, CHR 0x9F, CHR 0x94, CHR 0xA8],
      ''Sales '' @ [CHR 0xF0, CHR 0x9F, CHR 0x92, CHR 0xBC]]"

record manual_form =
  age_in :: int
  gender_in :: string
  workclass_in :: string
  education_in :: string
  occupation_in :: string
  hours_in :: int

text \<open>The values the widgets can hold, and the page's initial values.\<close>

definition form_valid :: "manual_form \<Rightarrow> bool" where
  "form_valid f \<longleftrightarrow>
     18 \<le> age_in f \<and> age_in f \<le> 100 \<and>
     gender_in f \<in> set gender_options \<and> workclass_in f \<in> set workclass_options \<and>
     education_in f \<in> set education_options \<and> occupation_in f \<in> set occupation_options \<and>
     1 \<le> hours_in f \<and> hours_in f \<le> 100"

definition default_form :: manual_form where
  "default_form =
     \<lparr>age_in = 18, gender_in = gender_options ! 0, workclass_in = workclass_options ! 0,
      education_in = education_options ! 0, occupation_in = occupation_options ! 0,
      hours_in = 40\<rparr>"

definition option_label :: "string \<Rightarrow> string result" where
  "option_label s = py_first (split_on (CHR '' '') s)"

definition input_data :: "manual_form \<Rightarrow> (string \<times> cell) list result" where
  "input_data f =
     rbind (option_label (gender_in f)) (\<lambda>g.
     rbind (option_label (workclass_in f)) (\<lambda>w.
     rbind (option_label (education_in f)) (\<lambda>e.
     rbind (option_label (occupation_in f)) (\<lambda>occ.
       Inr [(''age'', Num (age_in f)), (''gender'', Str g), (''workclass'', Str w),
            (''education'', Str e), (''occupation'', Str occ),
            (''hours_per_week'', Num (hours_in f))]))))"

text \<open>A plotly express chart raises \<open>ValueError\<close> when a column it names is absent.\<close>

definition chart_requires :: "string list \<Rightarrow> frame \<Rightarrow> unit result" where
  "chart_requires ks df =
     (if set ks \<subseteq> set (columns df) then Inr ()
      else Inl (ValueError ''Value of x is not the name of a column in data_frame''))"

record manual_out =
  m_prediction :: cell
  m_message :: string
  m_result :: frame
  m_csv :: string

definition manual_submit ::
  "classifier \<Rightarrow> string list \<Rightarrow> (string \<times> string) list \<Rightarrow> manual_form \<Rightarrow> manual_out result" where
  "manual_submit m model_columns lang f =
     rbind (input_data f) (\<lambda>d. let input_df = frame_of_record d in
     rbind (align model_columns input_df) (\<lambda>X.
     rbind (predict m X) (\<lambda>ps.
     rbind (py_first ps) (\<lambda>p.
     rbind (dict_get lang ''predicted_income'') (\<lambda>t.
     rbind (set_column ''prediction'' (replicate (nrows input_df) p) input_df) (\<lambda>res.
     rbind (chart_requires [''workclass''] input_df) (\<lambda>_.
     rbind (chart_requires [''occupation'', ''hours_per_week''] input_df) (\<lambda>_.
     rbind (chart_requires [''age''] input_df) (\<lambda>_.
       Inr \<lparr>m_prediction = p, m_message = t @ '': **'' @ cell_str p @ ''**'', m_result = res,
            m_csv = to_csv res\<rparr>)))))))))"

text \<open>The record the form sends, with each choice cut at its first space.\<close>

definition manual_record :: "manual_form \<Rightarrow> (string \<times> cell) list" where
  "manual_record f =
     [(''age'', Num (age_in f)), (''gender'', Str (hd (split_on (CHR '' '') (gender_in f)))),
      (''workclass'', Str (hd (split_on (CHR '' '') (workclass_in f)))),
      (''education'', Str (hd (split_on (CHR '' '') (education_in f)))),
      (''occupation'', Str (hd (split_on (CHR '' '') (occupation_in f)))),
      (''hours_per_week'', Num (hours_in f))]"

definition manual_frame :: "manual_form \<Rightarrow> frame" where
  "manual_frame f = frame_of_record (manual_record f)"

definition manual_fields :: "string list" where
  "manual_fields = [''age'', ''gender'', ''workclass'', ''education'', ''occupation'', ''hours_per_week'']"

lemmas form_defs [model_simps] =
  gender_options_def workclass_options_def education_options_def occupation_options_def
  form_valid_def default_form_def option_label_def input_data_def chart_requires_def
  manual_record_def manual_frame_def manual_fields_def

subsection \<open>The form's record and frame\<close>

lemma option_label_eq: "option_label s = Inr (hd (split_on (CHR '' '') s))"
  by (simp add: option_label_def py_first_split_on)

lemma input_data_eq: "input_data f = Inr (manual_record f)"
  by (simp add: input_data_def option_label_eq manual_record_def)

lemma columns_manual_frame: "columns (manual_frame f) = manual_fields"
  by (simp add: manual_frame_def manual_record_def frame_of_record_def columns_def manual_fields_def)

lemma manual_frame_ok: "frame_wf (manual_frame f) \<and> unambiguous (columns (manual_frame f))"
  by (simp add: columns_manual_frame)
     (simp add: manual_frame_def manual_record_def frame_defs manual_fields_def)

lemma nrows_manual_frame [simp]: "nrows (manual_frame f) = 1"
  by (simp add: manual_frame_def frame_of_record_def)

lemma manual_frame_no_NA: "\<forall>(n, c)\<in>set (cols (manual_frame f)). NA \<notin> set c"
  by (simp add: manual_frame_def manual_record_def frame_of_record_def)

lemma manual_frame_rows: "frame_rows (manual_frame f) = [row (manual_frame f) 0]"
  by (simp add: frame_rows_def)

lemma align_manual_frame:
  "align model_columns (manual_frame f) = Inr (align_spec model_columns (manual_frame f))"
  using manual_frame_ok align_eq_spec by blast

lemma align_spec_manual_no_NA:
  "\<forall>(n, c)\<in>set (cols (align_spec model_columns (manual_frame f))). NA \<notin> set c"
proof -
  have "\<forall>t\<in>set (zip (col_types (manual_frame f)) (row (manual_frame f) 0)). snd t \<noteq> NA"
  proof
    fix t assume "t \<in> set (zip (col_types (manual_frame f)) (row (manual_frame f) 0))"
    then obtain n c where nc: "(n, c) \<in> set (cols (manual_frame f))" and t: "t = ((n, obj_col c), c ! 0)"
      by (auto simp: zip_col_types_row)
    have "length c = 1" using manual_frame_ok nc frame_wf_length by fastforce
    then have "c ! 0 \<in> set c" by simp
    with manual_frame_no_NA nc t show "snd t \<noteq> NA" by fastforce
  qed
  then have "\<And>s. enc_cell (zip (col_types (manual_frame f)) (row (manual_frame f) 0)) s \<noteq> NA"
    by (rule enc_cell_not_NA)
  then show ?thesis unfolding align_spec_def by (auto dest: sym)
qed

lemma predict_manual:
  assumes "feature_names_in m = model_columns"
  shows "predict m (align_spec model_columns (manual_frame f)) =
           Inr [decide m (encode_row (col_types (manual_frame f)) model_columns (row (manual_frame f) 0))]"
proof -
  let ?X = "align_spec model_columns (manual_frame f)"
  have "\<not> list_ex (\<lambda>(n, c). obj_col c) (cols ?X)"
    using align_cols_numeric [OF align_manual_frame [of model_columns f]]
    by (auto simp: list_ex_iff)
  moreover have "\<not> list_ex (\<lambda>(n, c). NA \<in> set c) (cols ?X)"
    using align_spec_manual_no_NA [of model_columns f] by (auto simp: list_ex_iff)
  ultimately show ?thesis using assms
    by (simp add: predict_def frame_rows_align_spec manual_frame_rows)
qed

lemma predicted_income_key:
  "get_translations code = Inr lang \<Longrightarrow> \<exists>t. dict_get lang ''predicted_income'' = Inr t"
  by (erule ui_key_lookup) (simp add: ui_keys_def)

text \<open>The run of \<open>manual_submit\<close> when the schema is the classifier's: the
  prediction, the message and the one-row result with the \<open>prediction\<close> column appended.\<close>

lemma manual_submit_eq:
  assumes "feature_names_in m = model_columns" "dict_get lang ''predicted_income'' = Inr t"
  shows "manual_submit m model_columns lang f =
    Inr \<lparr>m_prediction = decide m (encode_row (col_types (manual_frame f)) model_columns
                                    (row (manual_frame f) 0)),
         m_message = t @ '': **'' @ cell_str (decide m (encode_row (col_types (manual_frame f))
                                    model_columns (row (manual_frame f) 0))) @ ''**'',
         m_result = (manual_frame f)\<lparr>cols := cols (manual_frame f) @
           [(''prediction'', [decide m (encode_row (col_types (manual_frame f)) model_columns
                                          (row (manual_frame f) 0))])]\<rparr>,
         m_csv = to_csv ((manual_frame f)\<lparr>cols := cols (manual_frame f) @
           [(''prediction'', [decide m (encode_row (col_types (manual_frame f)) model_columns
                                          (row (manual_frame f) 0))])]\<rparr>)\<rparr>"
proof -
  have df: "frame_of_record (manual_record f) = manual_frame f" by (simp add: manual_frame_def)
  have pred: "''prediction'' \<notin> set (columns (manual_frame f))"
    by (simp add: columns_manual_frame manual_fields_def)
  have charts: "set [''workclass''] \<subseteq> set (columns (manual_frame f))"
    "set [''occupation'', ''hours_per_week''] \<subseteq> set (columns (manual_frame f))"
    "set [''age''] \<subseteq> set (columns (manual_frame f))"
    by (simp_all add: columns_manual_frame manual_fields_def)
  show ?thesis
    using assms(2) pred charts
    by (simp add: manual_submit_def input_data_eq df align_manual_frame predict_manual [OF assms(1)]
                  set_column_def chart_requires_def py_first_def Let_def)
qed

text \<open>With any other schema the aligned frame's columns differ from the classifier's
  feature names and \<open>predict\<close> raises.\<close>

lemma manual_submit_mismatch:
  "model_columns \<noteq> feature_names_in m \<Longrightarrow>
   manual_submit m model_columns lang f =
     Inl (ValueError ''The feature names should match those that were passed during fit.'')"
  by (simp add: manual_submit_def input_data_eq manual_frame_def [symmetric] align_manual_frame
                predict_def Let_def)

text \<open>The encoded manual record, cell by cell, and its value on a schema that has
  none of the form's dummy labels and no \<open>hours_per_week\<close>.\<close>

lemma zip_manual_frame:
  "zip (col_types (manual_frame f)) (row (manual_frame f) 0) =
     [((''age'', False), Num (age_in f)),
      ((''gender'', True), Str (hd (split_on (CHR '' '') (gender_in f)))),
      ((''workclass'', True), Str (hd (split_on (CHR '' '') (workclass_in f)))),
      ((''education'', True), Str (hd (split_on (CHR '' '') (education_in f)))),
      ((''occupation'', True), Str (hd (split_on (CHR '' '') (occupation_in f)))),
      ((''hours_per_week'', False), Num (hours_in f))]"
  by (simp add: col_types_def row_def manual_frame_def manual_record_def frame_of_record_def
                obj_col_def)

lemma encode_row_manual_age_only:
  assumes "''hours_per_week'' \<notin> set S"
    and "\<forall>s\<in>set S. \<forall>n\<in>set [''gender'', ''workclass'', ''education'', ''occupation''].
           \<not> starts_with (n @ ''_'') s"
  shows "encode_row (col_types (manual_frame f)) S (row (manual_frame f) 0) =
           map (\<lambda>s. if s = ''age'' then Num (age_in f) else Num 0) S"
  unfolding encode_row_def
proof (rule map_cong [OF refl])
  fix s assume s: "s \<in> set S"
  then have h: "s \<noteq> ''hours_per_week''" using assms(1) by auto
  have d: "s \<noteq> n @ ''_'' @ v"
    if "n \<in> set [''gender'', ''workclass'', ''education'', ''occupation'']" for n v
    using assms(2) s that starts_with_dummy [of n v] by metis
  show "enc_cell (zip (col_types (manual_frame f)) (row (manual_frame f) 0)) s =
      (if s = ''age'' then Num (age_in f) else Num 0)"
    unfolding zip_manual_frame enc_cell_def
    using h d [of "''gender''"] d [of "''workclass''"] d [of "''education''"] d [of "''occupation''"]
    by (simp only: find.simps hit.simps hit_val.simps list.set simp_thms insert_iff
                   not_False_eq_True) auto
qed

text \<open>
  C8. The manual path never raises: for every form value, with a classifier fitted on
  the schema's columns and any language table, pressing "Predict" returns exactly one
  label, the classifier's decision on the encoded record of the specification, and the
  downloadable row is the record followed by that prediction, offered as its CSV text.
\<close>

theorem manual_submit_correct:
  assumes "feature_names_in m = model_columns" "get_translations code = Inr lang"
  shows "\<exists>out. manual_submit m model_columns lang f = Inr out \<and>
     m_prediction out =
       decide m (encode_row (col_types (manual_frame f)) model_columns (row (manual_frame f) 0)) \<and>
     columns (m_result out) = manual_fields @ [''prediction''] \<and>
     frame_rows (m_result out) = [row (manual_frame f) 0 @ [m_prediction out]] \<and>
     m_csv out = to_csv (m_result out)"
proof -
  obtain t where t: "dict_get lang ''predicted_income'' = Inr t"
    using predicted_income_key [OF assms(2)] by blast
  let ?p = "decide m (encode_row (col_types (manual_frame f)) model_columns (row (manual_frame f) 0))"
  let ?R = "(manual_frame f)\<lparr>cols := cols (manual_frame f) @ [(''prediction'', [?p])]\<rparr>"
  have "columns ?R = manual_fields @ [''prediction'']"
    by (simp add: columns_def columns_manual_frame [unfolded columns_def])
  moreover have "frame_rows ?R = [row (manual_frame f) 0 @ [?p]]"
    by (simp add: frame_rows_def row_def)
  ultimately show ?thesis using manual_submit_eq [OF assms(1) t] by simp
qed

text \<open>A classifier for the witnesses: fitted on the spec's schema, it answers by the
  \<open>gender_Male\<close> indicator.\<close>

definition ex_clf :: classifier where
  "ex_clf = \<lparr>feature_names_in = ex_schema, allow_nan = False,
     decide = (\<lambda>r. if r ! 1 = Num 1 then Str ''>50K'' else Str ''<=50K'')\<rparr>"

theorem manual_submit_correct_witness:
  "\<exists>out. manual_submit ex_clf ex_schema translations_en default_form = Inr out \<and>
     m_prediction out = Str ''>50K'' \<and>
     columns (m_result out) = manual_fields @ [''prediction'']"
proof -
  have "feature_names_in ex_clf = ex_schema" by (simp add: ex_clf_def)
  moreover have "get_translations ''en'' = Inr translations_en"
    by (simp add: get_translations_def translations_dict_def dict_get_def)
  ultimately have "\<exists>out. manual_submit ex_clf ex_schema translations_en default_form = Inr out \<and>
     m_prediction out = decide ex_clf (encode_row (col_types (manual_frame default_form)) ex_schema
                                         (row (manual_frame default_form) 0)) \<and>
     columns (m_result out) = manual_fields @ [''prediction''] \<and>
     frame_rows (m_result out) = [row (manual_frame default_form) 0 @ [m_prediction out]] \<and>
     m_csv out = to_csv (m_result out)"
    by (rule manual_submit_correct)
  then obtain out where o1: "manual_submit ex_clf ex_schema translations_en default_form = Inr out"
    and o2: "m_prediction out = decide ex_clf (encode_row (col_types (manual_frame default_form))
                                  ex_schema (row (manual_frame default_form) 0))"
    and o3: "columns (m_result out) = manual_fields @ [''prediction'']"
    by blast
  have "decide ex_clf (encode_row (col_types (manual_frame default_form)) ex_schema
          (row (manual_frame default_form) 0)) = Str ''>50K''"
    by (simp add: ex_clf_def ex_schema_def form_defs frame_defs align_defs)
  with o1 o2 o3 show ?thesis by (intro exI [of _ out]) simp
qed

text \<open>
  C9. The education choice is inert: whenever the schema has neither an
  \<open>education\<close> column nor any \<open>education_<value>\<close> column (the trainer drops the
  column), changing the education choice does not change the encoded vector.
\<close>

theorem education_inert:
  assumes "''education'' \<notin> set model_columns"
    and "\<forall>s\<in>set model_columns. \<not> starts_with ''education_'' s"
  shows "align model_columns (manual_frame (f\<lparr>education_in := e\<rparr>)) = align model_columns (manual_frame f)"
proof -
  let ?c' = "[Str (hd (split_on (CHR '' '') e))]"
  have eq: "manual_frame (f\<lparr>education_in := e\<rparr>) =
      (manual_frame f)\<lparr>cols := map (\<lambda>(m, c). (m, if m = ''education'' then ?c' else c))
                                  (cols (manual_frame f))\<rparr>"
    by (simp add: manual_frame_def manual_record_def frame_of_record_def)
  have "align model_columns ((manual_frame f)\<lparr>cols := map (\<lambda>(m, c). (m, if m = ''education'' then ?c' else c))
           (cols (manual_frame f))\<rparr>) = align model_columns (manual_frame f)"
    using manual_frame_ok assms by (intro align_replace_invisible) auto
  with eq show ?thesis by simp
qed

theorem education_inert_witness:
  "align ex_schema (manual_frame (default_form\<lparr>education_in := education_options ! 2\<rparr>)) =
   align ex_schema (manual_frame default_form)"
proof -
  have "''education'' \<notin> set ex_schema" "\<forall>s\<in>set ex_schema. \<not> starts_with ''education_'' s"
    by (simp_all add: ex_schema_def starts_with_def)
  then show ?thesis by (rule education_inert)
qed

end
