(* ===== verification/Trainer.thy ===== *)
theory Trainer
  imports Complex_Main Align "HOL-Library.AList" "HOL-Library.Multiset"
begin

text \<open>
  The training script \<open>src/model_training.py\<close>. The data set is a \<open>frame\<close> as
  \<open>pd.read_csv\<close> produces it (line 12). \<open>age_filter\<close> is the boolean mask of line 15,
  \<open>drop_column\<close> is \<open>data.drop(columns=[..])\<close> (lines 16 and 23),
  \<open>fit_transform\<close> is \<open>LabelEncoder().fit_transform\<close> on one column (line 21) and
  \<open>encode_columns\<close> the loop of lines 20--21. \<open>train_test_split\<close> (line 26) takes
  the permutation that \<open>RandomState(42)\<close> draws as a parameter, \<open>accuracy_score\<close>
  (line 41) is a rational, the fitting algorithms are an abstract function \<open>fit\<close>, the
  loop of lines 38--43 is \<open>train_all\<close>, and \<open>py_max_key\<close> is
  \<open>max(results, key=results.get)\<close> (line 45): the first key of greatest value.
  \<open>trainer_run\<close> composes the script (lines 12--47); its printed lines are not modelled.
\<close>

text \<open>Rows taken by position, in the given order (\<open>X.iloc[idx]\<close>), and rows kept by a
  boolean mask (\<open>data[mask]\<close>): the positions where the mask is true.\<close>

definition take_rows :: "nat list \<Rightarrow> frame \<Rightarrow> frame" where
  "take_rows idx f = \<lparr>nrows = length idx, cols = map (\<lambda>(n, c). (n, map (\<lambda>i. c ! i) idx)) (cols f)\<rparr>"

definition select_rows :: "bool list \<Rightarrow> frame \<Rightarrow> frame" where
  "select_rows keep f = take_rows (filter (\<lambda>i. keep ! i) [0..<length keep]) f"

text \<open>\<open>(data['age'] >= 17) & (data['age'] <= 75)\<close>: a missing value compares false, a
  string column raises \<open>TypeError\<close>.\<close>

fun age_ok :: "cell \<Rightarrow> bool" where
  "age_ok (Num a) = (17 \<le> a \<and> a \<le> 75)"
| "age_ok _ = False"

definition age_filter :: "frame \<Rightarrow> frame result" where
  "age_filter f =
     rbind (dict_get (cols f) ''age'') (\<lambda>c.
       if obj_col c then Inl (TypeError ''>= not supported between instances of str and int'')
       else Inr (select_rows (map age_ok c) f))"

definition drop_column :: "string \<Rightarrow> frame \<Rightarrow> frame result" where
  "drop_column n f =
     (if n \<in> set (columns f) then Inr (f\<lparr>cols := filter (\<lambda>(m, c). m \<noteq> n) (cols f)\<rparr>)
      else Inl (KeyError (''['' @ n @ ''] not found in axis'')))"

text \<open>
  \<open>LabelEncoder().fit_transform(column)\<close>: the classes are the sorted distinct values and
  each value becomes its index among them (\<open>searchsorted\<close>). A column of strings and a
  column of numbers are encoded, and in either a missing value is the last class
  (numpy's \<open>unique\<close> for numbers, scikit-learn's \<open>_unique_python\<close> for objects, which
  moves the missing value after the sorted strings); strings mixed with numbers raise
  \<open>TypeError\<close>.
\<close>

fun num_of :: "cell \<Rightarrow> int option" where
  "num_of (Num n) = Some n"
| "num_of _ = None"

definition fit_transform :: "cell list \<Rightarrow> cell list result" where
  "fit_transform c =
     (if list_all (\<lambda>x. num_of x = None) c then
        let classes = levels c in
        Inr (map (\<lambda>x. case x of Str s \<Rightarrow> Num (int (searchsorted classes s))
                              | _ \<Rightarrow> Num (int (length classes))) c)
      else if \<not> obj_col c then
        let classes = sort (remdups (List.map_filter num_of c)) in
        Inr (map (\<lambda>x. case x of Num n \<Rightarrow> Num (int (searchsorted classes n))
                              | _ \<Rightarrow> Num (int (length classes))) c)
      else Inl (TypeError ''Encoders require their input argument must be uniformly strings or numbers''))"

text \<open>\<open>data[col] = encoder.fit_transform(data[col])\<close> for each listed column, in order.\<close>

fun encode_columns :: "string list \<Rightarrow> frame \<Rightarrow> frame result" where
  "encode_columns [] f = Inr f"
| "encode_columns (n # ns) f =
     rbind (dict_get (cols f) n) (\<lambda>c.
     rbind (fit_transform c) (\<lambda>c'.
     rbind (set_column n c' f) (\<lambda>f'. encode_columns ns f')))"

definition categorical_columns :: "string list" where
  "categorical_columns =
     [''workclass'', ''marital-status'', ''occupation'', ''relationship'', ''race'', ''gender'',
      ''native-country'']"

text \<open>
  \<open>train_test_split(x, y, test_size=0.2, random_state=42)\<close>: \<open>ceil(0.2 * n)\<close> test
  rows (in floating point \<open>0.2 * n\<close> rounds to \<open>n / 5\<close> exactly when \<open>5\<close> divides
  \<open>n\<close>, so the ceiling is \<open>(n + 4) div 5\<close>), the first ones of the permutation
  \<open>perm\<close> drawn by the seeded generator, and the next \<open>n - n_test\<close> for training.
\<close>

definition n_test :: "nat \<Rightarrow> nat" where
  "n_test n = (n + 4) div 5"

definition train_test_split ::
  "nat list \<Rightarrow> frame \<Rightarrow> cell list \<Rightarrow> (frame \<times> frame \<times> cell list \<times> cell list) result" where
  "train_test_split perm X y =
     (let n = nrows X; nt = n_test n; ntr = n - nt in
      if length y \<noteq> n
      then Inl (ValueError ''Found input variables with inconsistent numbers of samples'')
      else if ntr = 0
      then Inl (ValueError ''the resulting train set will be empty'')
      else let test = take nt perm; train = take ntr (drop nt perm) in
        Inr (take_rows train X, take_rows test X, map (\<lambda>i. y ! i) train, map (\<lambda>i. y ! i) test))"

definition accuracy_score :: "cell list \<Rightarrow> cell list \<Rightarrow> rat result" where
  "accuracy_score y_true y_pred =
     (if length y_true \<noteq> length y_pred
      then Inl (ValueError ''Found input variables with inconsistent numbers of samples'')
      else Inr (of_nat (length (filter (\<lambda>(a, b). a = b) (zip y_true y_pred)))
                / of_nat (length y_true)))"

definition model_names :: "string list" where
  "model_names = [''LogisticRegression'', ''RandomForest'', ''KNN'', ''SVM'', ''GradientBoosting'']"

text \<open>The loop over the models (lines 38--43): fit the model, which \<open>model.fit\<close> does in
  place, so that \<open>models[name]\<close> is the fitted estimator afterwards; predict the held-out
  rows; record the accuracy (\<open>results[name] = acc\<close>). The fitted estimators are threaded
  as the association list \<open>models\<close>, the accuracies as \<open>results\<close>.\<close>

fun train_all ::
  "(string \<Rightarrow> frame \<Rightarrow> cell list \<Rightarrow> classifier) \<Rightarrow> frame \<Rightarrow> cell list \<Rightarrow> frame \<Rightarrow> cell list \<Rightarrow>
   string list \<Rightarrow> (string \<times> classifier) list \<Rightarrow> (string \<times> rat) list \<Rightarrow>
   ((string \<times> classifier) list \<times> (string \<times> rat) list) result" where
  "train_all fit Xtr ytr Xte yte [] models results = Inr (models, results)"
| "train_all fit Xtr ytr Xte yte (nm # ns) models results =
     (let model = fit nm Xtr ytr in
      rbind (predict model Xte) (\<lambda>preds.
      rbind (accuracy_score yte preds) (\<lambda>acc.
        train_all fit Xtr ytr Xte yte ns (AList.update nm model models) (AList.update nm acc results))))"

text \<open>Python's \<open>max(d, key=d.get)\<close>: a later key replaces the running one only if its
  value is strictly greater.\<close>

fun max_key_from :: "'k \<Rightarrow> 'v::linorder \<Rightarrow> ('k \<times> 'v) list \<Rightarrow> 'k" where
  "max_key_from k v [] = k"
| "max_key_from k v ((k', v') # r) = (if v < v' then max_key_from k' v' r else max_key_from k v r)"

definition py_max_key :: "('k \<times> 'v::linorder) list \<Rightarrow> 'k result" where
  "py_max_key xs =
     (case xs of [] \<Rightarrow> Inl (ValueError ''max() arg is an empty sequence'')
               | (k, v) # r \<Rightarrow> Inr (max_key_from k v r))"

text \<open>The whole script: it yields the best model's name, the fitted model
  \<open>models[best_model_name]\<close> that \<open>joblib.dump\<close> writes to \<open>best_model.pkl\<close>, and the
  accuracies.\<close>

definition trainer_run ::
  "(string \<Rightarrow> frame \<Rightarrow> cell list \<Rightarrow> classifier) \<Rightarrow> nat list \<Rightarrow> frame \<Rightarrow>
   (string \<times> classifier \<times> (string \<times> rat) list) result" where
  "trainer_run fit perm data =
     rbind (age_filter data) (\<lambda>d1.
     rbind (drop_column ''education'' d1) (\<lambda>d2.
     rbind (encode_columns categorical_columns d2) (\<lambda>d3.
     rbind (drop_column ''income'' d3) (\<lambda>x.
     rbind (dict_get (cols d3) ''income'') (\<lambda>y.
     rbind (train_test_split perm x y) (\<lambda>(Xtr, Xte, ytr, yte).
     rbind (train_all fit Xtr ytr Xte yte model_names [] []) (\<lambda>(models, results).
     rbind (py_max_key results) (\<lambda>best.
     rbind (dict_get models best) (\<lambda>best_model.
       Inr (best, best_model, results))))))))))"

text \<open>The reference for \<open>py_max_key\<close>: the first key whose value is the maximum.\<close>

definition first_argmax :: "('k \<times> 'v::linorder) list \<Rightarrow> 'k" where
  "first_argmax xs = fst (hd (filter (\<lambda>p. snd p = Max (snd ` set xs)) xs))"

text \<open>Example data for the witnesses: the columns of the census file the script reads
  (\<open>adult.csv\<close>) with three records, one of them outside the age range, and a family of
  fitted classifiers that record their training columns as scikit-learn does.\<close>

definition adult_header :: "string list" where
  "adult_header =
     [''age'', ''workclass'', ''fnlwgt'', ''education'', ''educational-num'', ''marital-status'',
      ''occupation'', ''relationship'', ''race'', ''gender'', ''capital-gain'', ''capital-loss'',
      ''hours-per-week'', ''native-country'', ''income'']"

definition ex_adult :: frame where
  "ex_adult = \<lparr>nrows = 3, cols = zip adult_header
     [[Num 25, Num 80, Num 28],
      [Str ''Private'', Str ''Private'', Str ''Local-gov''],
      [Num 226802, Num 89814, Num 336951],
      [Str ''11th'', Str ''HS-grad'', Str ''Assoc-acdm''],
      [Num 7, Num 9, Num 12],
      [Str ''Never-married'', Str ''Married-civ-spouse'', Str ''Married-civ-spouse''],
      [Str ''Machine-op-inspct'', Str ''Farming-fishing'', Str ''Protective-serv''],
      [Str ''Own-child'', Str ''Husband'', Str ''Husband''],
      [Str ''Black'', Str ''White'', Str ''White''],
      [Str ''Male'', Str ''Male'', Str ''Female''],
      [Num 0, Num 0, Num 0],
      [Num 0, Num 0, Num 0],
      [Num 40, Num 50, Num 40],
      [Str ''United-States'', Str ''United-States'', Str ''United-States''],
      [Str ''<=50K'', Str ''<=50K'', Str ''>50K'']]\<rparr>"

definition ex_fit :: "string \<Rightarrow> frame \<Rightarrow> cell list \<Rightarrow> classifier" where
  "ex_fit n X y = \<lparr>feature_names_in = columns X, allow_nan = False,
     decide = (\<lambda>r. if n = ''SVM'' \<or> n = ''GradientBoosting'' then Str ''>50K'' else hd y)\<rparr>"


lemmas trainer_defs [model_simps] =
  take_rows_def select_rows_def age_filter_def drop_column_def fit_transform_def
  categorical_columns_def n_test_def train_test_split_def accuracy_score_def model_names_def
  py_max_key_def trainer_run_def first_argmax_def

subsection \<open>The first maximum\<close>

lemma max_key_from_spec:
  "(max_key_from k v r = k \<and> (\<forall>j<length r. snd (r ! j) \<le> v)) \<or>
   (\<exists>i<length r. max_key_from k v r = fst (r ! i) \<and> v < snd (r ! i) \<and>
      (\<forall>j<length r. snd (r ! j) \<le> snd (r ! i)) \<and> (\<forall>j<i. snd (r ! j) < snd (r ! i)))"
proof (induction r arbitrary: k v)
  case Nil
  then show ?case by simp
next
  case (Cons p r)
  obtain k' v' where p: "p = (k', v')" by (cases p)
  let ?w = "if v < v' then v' else v"
  have step: "max_key_from k v (p # r) = max_key_from (if v < v' then k' else k) ?w r"
    by (simp add: p)
  from Cons.IH [of "if v < v' then k' else k" ?w] show ?case
  proof
    assume A: "max_key_from (if v < v' then k' else k) ?w r = (if v < v' then k' else k) \<and>
      (\<forall>j<length r. snd (r ! j) \<le> ?w)"
    show ?thesis
    proof (cases "v < v'")
      case True
      with A show ?thesis by (intro disjI2 exI [of _ 0]) (simp add: step p All_less_Suc2)
    next
      case False
      with A show ?thesis by (intro disjI1) (simp add: step p All_less_Suc2)
    qed
  next
    assume "\<exists>i<length r. max_key_from (if v < v' then k' else k) ?w r = fst (r ! i) \<and>
      ?w < snd (r ! i) \<and> (\<forall>j<length r. snd (r ! j) \<le> snd (r ! i)) \<and> (\<forall>j<i. snd (r ! j) < snd (r ! i))"
    then obtain i where i: "i < length r" "max_key_from (if v < v' then k' else k) ?w r = fst (r ! i)"
      "?w < snd (r ! i)" "\<forall>j<length r. snd (r ! j) \<le> snd (r ! i)"
      "\<forall>j<i. snd (r ! j) < snd (r ! i)" by blast
    have "v < snd (r ! i)" "v' < snd (r ! i)"
      using i(3) by (auto split: if_splits)
    with i show ?thesis
      by (intro disjI2 exI [of _ "Suc i"])
         (auto simp: step p All_less_Suc2 split: if_splits)
  qed
qed


lemma py_max_key_Inr:
  assumes "xs \<noteq> []"
  shows "\<exists>i<length xs. py_max_key xs = Inr (fst (xs ! i)) \<and>
           (\<forall>j<length xs. snd (xs ! j) \<le> snd (xs ! i)) \<and> (\<forall>j<i. snd (xs ! j) < snd (xs ! i))"
proof -
  obtain k v r where xs: "xs = (k, v) # r"
    using assms by (cases xs) auto
  from max_key_from_spec [of k v r] show ?thesis
  proof
    assume "max_key_from k v r = k \<and> (\<forall>j<length r. snd (r ! j) \<le> v)"
    then show ?thesis by (intro exI [of _ 0]) (simp add: xs py_max_key_def All_less_Suc2)
  next
    assume "\<exists>i<length r. max_key_from k v r = fst (r ! i) \<and> v < snd (r ! i) \<and>
      (\<forall>j<length r. snd (r ! j) \<le> snd (r ! i)) \<and> (\<forall>j<i. snd (r ! j) < snd (r ! i))"
    then obtain i where "i < length r" "max_key_from k v r = fst (r ! i)"
      "v < snd (r ! i)" "\<forall>j<length r. snd (r ! j) \<le> snd (r ! i)"
      "\<forall>j<i. snd (r ! j) < snd (r ! i)" by blast
    then show ?thesis
      by (intro exI [of _ "Suc i"]) (simp add: xs py_max_key_def All_less_Suc2)
  qed
qed

lemma hd_filter_nth:
  "i < length xs \<Longrightarrow> P (xs ! i) \<Longrightarrow> \<forall>j<i. \<not> P (xs ! j) \<Longrightarrow> hd (filter P xs) = xs ! i"
proof (induction xs arbitrary: i)
  case Nil
  then show ?case by simp
next
  case (Cons x xs)
  show ?case
  proof (cases i)
    case 0
    with Cons.prems show ?thesis by simp
  next
    case (Suc k)
    with Cons.prems have "\<not> P x" "k < length xs" "P (xs ! k)" "\<forall>j<k. \<not> P (xs ! j)"
      by (simp_all add: All_less_Suc2)
    with Cons.IH show ?thesis by (simp add: Suc)
  qed
qed

text \<open>
  C11. \<open>max(results, key=results.get)\<close> is the reference "first key of maximal value":
  on a non-empty dictionary the single pass with a strict comparison returns the first
  key, in insertion order, whose accuracy is the maximum; on an empty one it raises
  \<open>ValueError\<close>.
\<close>

theorem py_max_key_first_argmax:
  "py_max_key xs =
     (if xs = [] then Inl (ValueError ''max() arg is an empty sequence'') else Inr (first_argmax xs))"
proof (cases "xs = []")
  case True
  then show ?thesis by (simp add: py_max_key_def)
next
  case False
  from py_max_key_Inr [OF False] obtain i where i: "i < length xs"
    "py_max_key xs = Inr (fst (xs ! i))" "\<forall>j<length xs. snd (xs ! j) \<le> snd (xs ! i)"
    "\<forall>j<i. snd (xs ! j) < snd (xs ! i)" by blast
  have "Max (snd ` set xs) = snd (xs ! i)"
  proof (rule Max_eqI)
    show "finite (snd ` set xs)" by simp
    show "y \<le> snd (xs ! i)" if "y \<in> snd ` set xs" for y
    proof -
      from that obtain j where "j < length xs" "y = snd (xs ! j)"
        by (auto simp: in_set_conv_nth)
      with i(3) show ?thesis by simp
    qed
    show "snd (xs ! i) \<in> snd ` set xs"
      using i(1) by simp
  qed
  moreover have "hd (filter (\<lambda>p. snd p = snd (xs ! i)) xs) = xs ! i"
    using i(1,4) by (intro hd_filter_nth) auto
  ultimately have "first_argmax xs = fst (xs ! i)"
    by (simp add: first_argmax_def)
  with False i(2) show ?thesis by simp
qed

subsection \<open>The label encoder\<close>

lemma sorted_distinct_nth_less:
  assumes "sorted ls" "distinct ls" "a < length ls" "b < length ls"
  shows "ls ! a < ls ! b \<longleftrightarrow> a < b"
proof
  assume "a < b"
  with assms show "ls ! a < ls ! b"
    by (metis nth_eq_iff_index_eq order_less_le sorted_nth_mono less_imp_le)
next
  assume lt: "ls ! a < ls ! b"
  show "a < b"
  proof (rule ccontr)
    assume "\<not> a < b"
    with assms have "ls ! b \<le> ls ! a" by (simp add: sorted_nth_mono)
    with lt show False by simp
  qed
qed

lemma fit_transform_strings:
  assumes "list_all (\<lambda>x. str_of x \<noteq> None) c"
  shows "fit_transform c =
           Inr (map (\<lambda>x. Num (int (searchsorted (levels c) (the (str_of x))))) c)"
proof -
  have "list_all (\<lambda>x. num_of x = None) c"
    using assms by (auto simp: list_all_iff elim: num_of.elims)
  moreover have "(case x of Str s \<Rightarrow> Num (int (searchsorted (levels c) s))
                   | _ \<Rightarrow> Num (int (length (levels c)))) =
                 Num (int (searchsorted (levels c) (the (str_of x))))" if "x \<in> set c" for x
    using assms that by (cases x) (auto simp: list_all_iff)
  ultimately show ?thesis by (simp add: fit_transform_def Let_def)
qed

lemma string_col_mem:
  "list_all (\<lambda>x. str_of x \<noteq> None) c \<Longrightarrow> x \<in> set c \<Longrightarrow> \<exists>v. x = Str v \<and> v \<in> set (levels c)"
  by (cases x) (auto simp: list_all_iff set_levels)

lemma sorted_levels_col: "sorted (levels c)"
  by (simp add: levels_def)

text \<open>
  C12. \<open>LabelEncoder().fit_transform\<close> on a column of strings is a round trip and
  preserves order: each value becomes a code below the number of classes, the class at
  that code is the value, and codes compare as the strings compare.
\<close>

theorem fit_transform_label_codes:
  assumes "list_all (\<lambda>x. str_of x \<noteq> None) c"
  shows "\<exists>ks. fit_transform c = Inr (map (\<lambda>k. Num (int k)) ks) \<and>
           map (\<lambda>k. Str (levels c ! k)) ks = c \<and> (\<forall>k\<in>set ks. k < length (levels c)) \<and>
           (\<forall>i<length c. \<forall>j<length c. \<forall>v w. c ! i = Str v \<longrightarrow> c ! j = Str w \<longrightarrow>
               (ks ! i < ks ! j \<longleftrightarrow> v < w))"
proof -
  define code where "code x = searchsorted (levels c) (the (str_of x))" for x
  define ks where "ks = map code c"
  have dec: "Str (levels c ! code x) = x" and bnd: "code x < length (levels c)"
    if "x \<in> set c" for x
    using string_col_mem [OF assms that] searchsorted_nth [OF sorted_levels_col distinct_levels]
      searchsorted_lt by (auto simp: code_def)
  have "map (\<lambda>k. Str (levels c ! k)) ks = c"
    by (simp add: ks_def dec map_idI)
  moreover have "\<forall>k\<in>set ks. k < length (levels c)"
    by (auto simp: ks_def bnd)
  moreover have "ks ! i < ks ! j \<longleftrightarrow> v < w"
    if "i < length c" "j < length c" "c ! i = Str v" "c ! j = Str w" for i j v w
  proof -
    have "levels c ! (ks ! i) = v" "levels c ! (ks ! j) = w"
      using dec [OF nth_mem [OF that(1)]] dec [OF nth_mem [OF that(2)]] that
      by (simp_all add: ks_def)
    moreover have "ks ! i < length (levels c)" "ks ! j < length (levels c)"
      using bnd [OF nth_mem [OF that(1)]] bnd [OF nth_mem [OF that(2)]] that
      by (simp_all add: ks_def)
    ultimately show ?thesis
      using sorted_distinct_nth_less [OF sorted_levels_col distinct_levels] by metis
  qed
  moreover have "fit_transform c = Inr (map (\<lambda>k. Num (int k)) ks)"
    by (simp add: fit_transform_strings [OF assms] ks_def code_def)
  ultimately show ?thesis by blast
qed


lemma row_take_rows: "k < length idx \<Longrightarrow> row (take_rows idx f) k = row f (idx ! k)"
  by (simp add: row_def take_rows_def case_prod_beta)

lemma columns_take_rows [simp]: "columns (take_rows idx f) = columns f"
  by (simp add: columns_def take_rows_def case_prod_beta)

lemma nrows_take_rows [simp]: "nrows (take_rows idx f) = length idx"
  by (simp add: take_rows_def)

lemma frame_rows_take_rows: "frame_rows (take_rows idx f) = map (row f) idx"
proof -
  have "frame_rows (take_rows idx f) = map (\<lambda>k. row f (idx ! k)) [0..<length idx]"
    by (auto simp: frame_rows_def row_take_rows intro!: map_cong)
  also have "\<dots> = map (row f) (map (\<lambda>k. idx ! k) [0..<length idx])"
    by simp
  finally show ?thesis by (simp add: map_nth)
qed

lemma frame_wf_take_rows: "frame_wf f \<Longrightarrow> frame_wf (take_rows idx f)"
  by (auto simp: frame_wf_def list_all_iff take_rows_def columns_def case_prod_beta o_def)

lemma zip_rows_labels:
  "length y = nrows X \<Longrightarrow> zip (frame_rows X) y = map (\<lambda>i. (row X i, y ! i)) [0..<nrows X]"
  by (rule nth_equalityI) (simp_all add: frame_rows_def)

lemma n_test_lt: "2 \<le> n \<Longrightarrow> 0 < n - n_test n \<and> 0 < n_test n"
  by (simp add: n_test_def div_less_iff_less_mult div_greater_zero_iff)

text \<open>
  C13. \<open>train_test_split(x, y, test_size=0.2)\<close> with a permutation of the rows and at
  least two rows succeeds, with \<open>ceil(0.2 n)\<close> test rows and the rest for training, the
  columns kept, and every (row, label) pair of the input in exactly one of the two parts.
\<close>

theorem train_test_split_partition:
  assumes "frame_wf X" "length y = nrows X" "mset perm = mset [0..<nrows X]" "2 \<le> nrows X"
  shows "\<exists>Xtr Xte ytr yte. train_test_split perm X y = Inr (Xtr, Xte, ytr, yte) \<and>
           nrows Xte = n_test (nrows X) \<and> nrows Xtr = nrows X - n_test (nrows X) \<and>
           frame_wf Xtr \<and> frame_wf Xte \<and> columns Xtr = columns X \<and> columns Xte = columns X \<and>
           mset (zip (frame_rows Xtr) ytr) + mset (zip (frame_rows Xte) yte) =
             mset (zip (frame_rows X) y)"
proof -
  let ?n = "nrows X" and ?nt = "n_test (nrows X)"
  define test where "test = take ?nt perm"
  define train where "train = take (?n - ?nt) (drop ?nt perm)"
  let ?g = "\<lambda>i. (row X i, y ! i)"
  have len: "length perm = ?n"
    using assms(3) by (metis length_upt minus_nat.diff_0 size_mset)
  have nt: "?nt \<le> ?n"
    by (simp add: n_test_def)
  have parts: "test @ train = perm"
    using len nt by (simp add: test_def train_def)
  have "mset (zip (frame_rows (take_rows train X)) (map (\<lambda>i. y ! i) train)) +
        mset (zip (frame_rows (take_rows test X)) (map (\<lambda>i. y ! i) test)) =
        mset (map ?g (test @ train))"
    by (simp add: frame_rows_take_rows zip_map_same add.commute)
  also have "\<dots> = image_mset ?g (mset [0..<?n])"
    by (simp only: parts mset_map assms(3))
  also have "\<dots> = mset (zip (frame_rows X) y)"
    by (simp add: zip_rows_labels [OF assms(2)])
  finally have ms: "mset (zip (frame_rows (take_rows train X)) (map (\<lambda>i. y ! i) train)) +
        mset (zip (frame_rows (take_rows test X)) (map (\<lambda>i. y ! i) test)) =
        mset (zip (frame_rows X) y)" .
  have split: "train_test_split perm X y =
      Inr (take_rows train X, take_rows test X, map (\<lambda>i. y ! i) train, map (\<lambda>i. y ! i) test)"
    using assms(2) n_test_lt [OF assms(4)]
    by (simp add: train_test_split_def Let_def test_def train_def)
  have "length test = ?nt" "length train = ?n - ?nt"
    using len nt by (simp_all add: test_def train_def)
  with split ms assms(1) show ?thesis
    by (simp add: frame_wf_take_rows)
qed

text \<open>
  C16. With fewer than two rows the training part would be empty and the split raises
  \<open>ValueError\<close>.
\<close>

theorem train_test_split_too_small:
  "length y = nrows X \<Longrightarrow> nrows X \<le> 1 \<Longrightarrow>
   train_test_split perm X y = Inl (ValueError ''the resulting train set will be empty'')"
  by (auto simp: train_test_split_def n_test_def le_Suc_eq)

lemma length_filter_eq_length: "length (filter P xs) = length xs \<longleftrightarrow> (\<forall>x\<in>set xs. P x)"
proof (induction xs)
  case Nil
  then show ?case by simp
next
  case (Cons x xs)
  show ?case
  proof (cases "P x")
    case True
    with Cons show ?thesis by simp
  next
    case False
    have "length (filter P xs) \<noteq> Suc (length xs)" using length_filter_le [of P xs] by linarith
    with False show ?thesis by simp
  qed
qed

text \<open>
  C15. \<open>accuracy_score\<close> is the share of positions where the prediction equals the label:
  it lies between 0 and 1, it is 1 exactly when every prediction is right and 0 exactly
  when none is.
\<close>

theorem accuracy_score_bounds:
  assumes "accuracy_score y_true y_pred = Inr a" and "y_true \<noteq> []"
  shows "0 \<le> a \<and> a \<le> 1 \<and> (a = 1 \<longleftrightarrow> y_true = y_pred) \<and>
         (a = 0 \<longleftrightarrow> (\<forall>i<length y_true. y_true ! i \<noteq> y_pred ! i))"
proof -
  let ?z = "zip y_true y_pred"
  let ?k = "length (filter (\<lambda>(a, b). a = b) ?z)"
  have len: "length y_pred = length y_true"
    using assms(1) by (simp add: accuracy_score_def split: if_splits)
  have a: "a = of_nat ?k / of_nat (length y_true)"
    using assms(1) by (simp add: accuracy_score_def split: if_splits)
  have n: "0 < length y_true" using assms(2) by simp
  have kz: "?k \<le> length ?z" by (rule length_filter_le)
  have lz: "length ?z = length y_true" using len by simp
  have "a = 1 \<longleftrightarrow> ?k = length ?z" using n lz by (auto simp: a)
  also have "\<dots> \<longleftrightarrow> (\<forall>(x, y)\<in>set ?z. x = y)"
    by (simp only: length_filter_eq_length)
  also have "\<dots> \<longleftrightarrow> y_true = y_pred" using len by (simp add: list_eq_iff_zip_eq)
  finally have one: "a = 1 \<longleftrightarrow> y_true = y_pred" .
  have "a = 0 \<longleftrightarrow> ?k = 0" using n by (simp add: a)
  also have "\<dots> \<longleftrightarrow> (\<forall>i<length y_true. y_true ! i \<noteq> y_pred ! i)"
    using len by (auto simp: filter_empty_conv set_zip)
  finally have zero: "a = 0 \<longleftrightarrow> (\<forall>i<length y_true. y_true ! i \<noteq> y_pred ! i)" .
  have "0 \<le> a \<and> a \<le> 1" using kz lz n by (simp add: a divide_le_eq_1)
  with one zero show ?thesis by blast
qed


lemma age_filter_Inr:
  "age_filter f = Inr g \<Longrightarrow> frame_wf f \<Longrightarrow> frame_wf g \<and> columns g = columns f"
  by (auto simp: age_filter_def rbind_eq_Inr select_rows_def frame_wf_take_rows split: if_splits)

lemma drop_column_Inr:
  assumes "drop_column n f = Inr g" "frame_wf f"
  shows "frame_wf g \<and> columns g = filter (\<lambda>m. m \<noteq> n) (columns f)"
proof -
  have g: "g = f\<lparr>cols := filter (\<lambda>(m, c). m \<noteq> n) (cols f)\<rparr>"
    using assms(1) by (simp add: drop_column_def split: if_splits)
  have cols: "columns g = filter (\<lambda>m. m \<noteq> n) (columns f)"
    by (simp add: g columns_def filter_map o_def case_prod_unfold)
  moreover have "list_all (\<lambda>(m, c). length c = nrows g) (cols g)"
    using assms(2) by (auto simp: g list_all_iff frame_wf_length)
  ultimately show ?thesis
    using assms(2) by (simp add: frame_wf_def)
qed

lemma set_column_existing:
  assumes "set_column n vs f = Inr g" "n \<in> set (columns f)" "frame_wf f"
  shows "frame_wf g \<and> columns g = columns f"
proof -
  have g: "g = f\<lparr>cols := map (\<lambda>(m, c). (m, if m = n then vs else c)) (cols f)\<rparr>"
    and len: "length vs = nrows f"
    using assms(1,2) by (auto simp: set_column_def split: if_splits)
  have "columns g = columns f"
    by (simp add: g columns_def o_def case_prod_beta)
  moreover have "list_all (\<lambda>(m, c). length c = nrows g) (cols g)"
    using assms(3) len by (auto simp: g list_all_iff frame_wf_length)
  ultimately show ?thesis
    using assms(3) by (simp add: frame_wf_def)
qed

lemma encode_columns_Inr:
  "encode_columns ns f = Inr g \<Longrightarrow> frame_wf f \<Longrightarrow> frame_wf g \<and> columns g = columns f"
proof (induction ns arbitrary: f)
  case Nil
  then show ?case by simp
next
  case (Cons n ns)
  from Cons.prems(1) obtain c c' f' where
    get: "dict_get (cols f) n = Inr c" and set: "set_column n c' f = Inr f'" and
    rest: "encode_columns ns f' = Inr g"
    by (auto simp: rbind_eq_Inr)
  have "n \<in> set (columns f)"
    using get dict_get_Inr_iff [of "cols f" n] by (auto simp: columns_def)
  then have "frame_wf f' \<and> columns f' = columns f"
    by (rule set_column_existing [OF set _ Cons.prems(2)])
  with Cons.IH [OF rest] show ?case by simp
qed

lemma train_test_split_Inr:
  "train_test_split perm X y = Inr (Xtr, Xte, ytr, yte) \<Longrightarrow>
   columns Xtr = columns X \<and> columns Xte = columns X"
  by (auto simp: train_test_split_def Let_def split: if_splits)

lemma map_fst_update_new:
  "k \<notin> set (map fst al) \<Longrightarrow> map fst (AList.update k v al) = map fst al @ [k]"
  by (induction al) auto

lemma train_all_keys:
  "train_all fit Xtr ytr Xte yte ns ms acc = Inr (ms', r) \<Longrightarrow> distinct ns \<Longrightarrow>
   set ns \<inter> set (map fst acc) = {} \<Longrightarrow> map fst r = map fst acc @ ns"
proof (induction ns arbitrary: ms acc)
  case Nil
  then show ?case by simp
next
  case (Cons n ns)
  from Cons.prems(1) obtain ms'' acc' where
    "train_all fit Xtr ytr Xte yte ns ms'' acc' = Inr (ms', r)" and "map fst acc' = map fst acc @ [n]"
    using Cons.prems(3) by (auto simp: rbind_eq_Inr map_fst_update_new Let_def)
  with Cons.IH [of ms'' acc'] Cons.prems(2,3) show ?case by auto
qed

lemma train_all_models:
  "train_all fit Xtr ytr Xte yte ns ms acc = Inr (ms', r) \<Longrightarrow>
   map_of ms' k = (if k \<in> set ns then Some (fit k Xtr ytr) else map_of ms k)"
proof (induction ns arbitrary: ms acc)
  case Nil
  then show ?case by simp
next
  case (Cons n ns)
  from Cons.prems obtain acc' where
    "train_all fit Xtr ytr Xte yte ns (AList.update n (fit n Xtr ytr) ms) acc' = Inr (ms', r)"
    by (auto simp: rbind_eq_Inr Let_def)
  from Cons.IH [OF this] show ?case by (auto simp: update_conv')
qed

text \<open>The steps of a successful run that the claims below use: the models' loop, the
  choice of the best, and the columns the saved model was fitted on.\<close>

lemma trainer_run_steps:
  assumes "trainer_run fit perm data = Inr (best, clf, results)" "frame_wf data"
  obtains Xtr Xte ytr yte ms where "train_all fit Xtr ytr Xte yte model_names [] [] = Inr (ms, results)"
    "py_max_key results = Inr best" "clf = fit best Xtr ytr"
    "columns Xtr = filter (\<lambda>n. n \<noteq> ''education'' \<and> n \<noteq> ''income'') (columns data)"
proof -
  from assms(1) obtain d1 d2 d3 x y Xtr Xte ytr yte ms where
    s1: "age_filter data = Inr d1" and s2: "drop_column ''education'' d1 = Inr d2" and
    s3: "encode_columns categorical_columns d2 = Inr d3" and
    s4: "drop_column ''income'' d3 = Inr x" and
    s6: "train_test_split perm x y = Inr (Xtr, Xte, ytr, yte)" and
    s7: "train_all fit Xtr ytr Xte yte model_names [] [] = Inr (ms, results)" and
    s8: "py_max_key results = Inr best" and s9: "dict_get ms best = Inr clf"
    unfolding trainer_run_def by (auto simp: rbind_eq_Inr split: prod.splits)
  have keys: "map fst results = model_names"
    using train_all_keys [OF s7] by (simp add: model_names_def)
  then have "results \<noteq> []" by (auto simp: model_names_def)
  from py_max_key_Inr [OF this] s8 obtain i where "i < length results" "best = fst (results ! i)"
    by auto
  with keys have "best \<in> set model_names" by (metis length_map nth_map nth_mem)
  then have clf: "clf = fit best Xtr ytr"
    using s9 train_all_models [OF s7, of best] by (simp add: dict_get_def)
  have "columns Xtr = filter (\<lambda>n. n \<noteq> ''education'' \<and> n \<noteq> ''income'') (columns data)"
    using age_filter_Inr [OF s1 assms(2)] drop_column_Inr [OF s2] encode_columns_Inr [OF s3]
      drop_column_Inr [OF s4] train_test_split_Inr [OF s6]
    by (simp add: filter_filter)
  with s7 s8 clf show ?thesis by (rule that)
qed

text \<open>
  C17. A run of the whole script records one accuracy per model, in the order of the
  \<open>models\<close> dictionary; the saved model is the first one of maximal accuracy, and it
  was fitted on the data's columns without \<open>education\<close> and \<open>income\<close>.
\<close>

theorem trainer_run_result:
  assumes "trainer_run fit perm data = Inr (best, clf, results)" "frame_wf data"
  shows "map fst results = model_names \<and>
         (\<exists>i<length results. best = fst (results ! i) \<and>
            (\<forall>j<length results. snd (results ! j) \<le> snd (results ! i)) \<and>
            (\<forall>j<i. snd (results ! j) < snd (results ! i))) \<and>
         (\<exists>Xtr ytr. clf = fit best Xtr ytr \<and>
            columns Xtr = filter (\<lambda>n. n \<noteq> ''education'' \<and> n \<noteq> ''income'') (columns data))"
proof -
  obtain Xtr Xte ytr yte ms where
    s7: "train_all fit Xtr ytr Xte yte model_names [] [] = Inr (ms, results)" and
    s8: "py_max_key results = Inr best" and clf: "clf = fit best Xtr ytr" and
    cols: "columns Xtr = filter (\<lambda>n. n \<noteq> ''education'' \<and> n \<noteq> ''income'') (columns data)"
    using trainer_run_steps [OF assms] .
  have keys: "map fst results = model_names"
    using train_all_keys [OF s7] by (simp add: model_names_def)
  then have "results \<noteq> []"
    by (auto simp: model_names_def)
  from py_max_key_Inr [OF this] s8 have best:
    "\<exists>i<length results. best = fst (results ! i) \<and>
       (\<forall>j<length results. snd (results ! j) \<le> snd (results ! i)) \<and>
       (\<forall>j<i. snd (results ! j) < snd (results ! i))"
    by auto
  with keys clf cols show ?thesis by blast
qed

subsection \<open>Witnesses\<close>

theorem fit_transform_label_codes_witness:
  "\<exists>ks. fit_transform [Str ''Private'', Str ''Local-gov'', Str ''Private''] =
          Inr (map (\<lambda>k. Num (int k)) ks) \<and>
        map (\<lambda>k. Str (levels [Str ''Private'', Str ''Local-gov'', Str ''Private''] ! k)) ks =
          [Str ''Private'', Str ''Local-gov'', Str ''Private'']"
proof -
  have "list_all (\<lambda>x. str_of x \<noteq> None) [Str ''Private'', Str ''Local-gov'', Str ''Private'']"
    by simp
  from fit_transform_label_codes [OF this] obtain ks where
    "fit_transform [Str ''Private'', Str ''Local-gov'', Str ''Private''] =
       Inr (map (\<lambda>k. Num (int k)) ks)"
    "map (\<lambda>k. Str (levels [Str ''Private'', Str ''Local-gov'', Str ''Private''] ! k)) ks =
       [Str ''Private'', Str ''Local-gov'', Str ''Private'']"
    by (elim exE conjE)
  then show ?thesis by (intro exI [of _ ks] conjI)
qed

theorem train_test_split_partition_witness:
  "\<exists>Xtr Xte ytr yte.
     train_test_split [1, 0] \<lparr>nrows = 2, cols = [(''age'', [Num 25, Num 28])]\<rparr>
       [Str ''<=50K'', Str ''>50K''] = Inr (Xtr, Xte, ytr, yte) \<and> nrows Xte = 1 \<and> nrows Xtr = 1"
proof -
  let ?X = "\<lparr>nrows = 2, cols = [(''age'', [Num 25, Num 28])]\<rparr>"
  have h: "frame_wf ?X" "length [Str ''<=50K'', Str ''>50K''] = nrows ?X"
    "mset [1, 0] = mset [0..<nrows ?X]" "2 \<le> nrows ?X"
    by (simp_all add: frame_wf_def columns_def upt_rec)
  have n: "n_test 2 = 1" by (simp add: n_test_def)
  from train_test_split_partition [OF h] n show ?thesis by auto
qed

theorem train_test_split_too_small_witness:
  "train_test_split [0] \<lparr>nrows = 1, cols = [(''age'', [Num 25])]\<rparr> [Str ''<=50K''] =
     Inl (ValueError ''the resulting train set will be empty'')"
  by (rule train_test_split_too_small) simp_all

theorem accuracy_score_bounds_witness:
  "accuracy_score [Str ''<=50K'', Str ''>50K''] [Str ''<=50K'', Str ''<=50K''] = Inr (1 / 2) \<and>
   (1 / 2 :: rat) \<le> 1 \<and> (1 / 2 :: rat) \<noteq> 1 \<and> (1 / 2 :: rat) \<noteq> 0"
proof -
  have eq: "accuracy_score [Str ''<=50K'', Str ''>50K''] [Str ''<=50K'', Str ''<=50K''] = Inr (1 / 2)"
    by (simp add: accuracy_score_def)
  from accuracy_score_bounds [OF eq] eq show ?thesis by (simp add: nth_Cons')
qed


lemma ex_adult_ok: "frame_wf ex_adult \<and> columns ex_adult = adult_header"
  by (simp add: ex_adult_def adult_header_def frame_wf_def columns_def)

lemma trainer_run_ex_adult:
  "\<exists>clf results. trainer_run ex_fit [1, 0] ex_adult = Inr (''SVM'', clf, results)"
  by (simp add: model_simps dict_get_def searchsorted_def Let_def adult_header_def ex_adult_def
                ex_fit_def)

theorem trainer_run_result_witness:
  "\<exists>best clf results. trainer_run ex_fit [1, 0] ex_adult = Inr (best, clf, results) \<and>
     best = ''SVM'' \<and> map fst results = model_names \<and>
     feature_names_in clf = filter (\<lambda>n. n \<noteq> ''education'' \<and> n \<noteq> ''income'') adult_header"
proof -
  obtain clf results where eq: "trainer_run ex_fit [1, 0] ex_adult = Inr (''SVM'', clf, results)"
    using trainer_run_ex_adult by blast
  have wf: "frame_wf ex_adult"
    using ex_adult_ok ..
  from trainer_run_result [OF eq wf] obtain Xtr ytr where
    keys: "map fst results = model_names" and clf: "clf = ex_fit ''SVM'' Xtr ytr"
    and cols: "columns Xtr = filter (\<lambda>n. n \<noteq> ''education'' \<and> n \<noteq> ''income'') (columns ex_adult)"
    by blast
  from ex_adult_ok have "columns ex_adult = adult_header" ..
  with cols clf have "feature_names_in clf = filter (\<lambda>n. n \<noteq> ''education'' \<and> n \<noteq> ''income'') adult_header"
    by (simp add: ex_fit_def)
  with eq keys show ?thesis by blast
qed

end
