(* ===== verification/Bulk.thy ===== *)
theory Bulk
  imports Form Csv
begin

text \<open>
  The bulk tab of \<open>src/main.py\<close> (lines 172--198) as \<open>bulk_submit\<close>: the uploaded file
  is read with \<open>Csv.read_csv\<close>, aligned, predicted, the labels stored as the column
  \<open>Prediction\<close>, the charts drawn and the table offered as CSV text. Uploading that
  download again reproduces the result (C25); unreadable uploads raise (C29).
\<close>

text \<open>
  The tab's handler: the heading reads \<open>lang['upload_csv']\<close> (line 173); without an upload
  nothing happens (176); otherwise the file is read (177), aligned (178--179), predicted
  (180), the labels are stored as the column \<open>Prediction\<close> (181), the age histogram needs
  an \<open>age\<close> column (187), the occupation chart is drawn only if that column exists
  (191--192), and the download button offers the CSV text (196--198).
\<close>

record bulk_out =
  b_result :: frame
  b_csv :: string

definition bulk_submit ::
  "classifier \<Rightarrow> string list \<Rightarrow> (string \<times> string) list \<Rightarrow> string option \<Rightarrow> bulk_out option result" where
  "bulk_submit m model_columns lang upload =
     rbind (dict_get lang ''upload_csv'') (\<lambda>_.
     case upload of
       None \<Rightarrow> Inr None
     | Some file \<Rightarrow>
         rbind (read_csv file) (\<lambda>df.
         rbind (align model_columns df) (\<lambda>X.
         rbind (predict m X) (\<lambda>ps.
         rbind (set_column ''Prediction'' ps df) (\<lambda>df'.
         rbind (chart_requires [''age''] df') (\<lambda>_.
         rbind (if ''occupation'' \<in> set (columns df') then chart_requires [''occupation''] df'
                else Inr ()) (\<lambda>_.
         rbind (dict_get lang ''download'') (\<lambda>_.
           Inr (Some \<lparr>b_result = df', b_csv = to_csv df'\<rparr>)))))))))"

text \<open>Uploads for the witnesses: a table without an \<open>age\<close> column, and a header without
  rows.\<close>

definition ex_csv_no_age :: string where
  "ex_csv_no_age = ''gender,workclass\<newline>Male,Private\<newline>''"

definition ex_csv_header :: string where
  "ex_csv_header = ''age,gender\<newline>''"

subsection \<open>The tab\<close>

lemma enc_cell_NA_obj:
  "\<forall>t\<in>set ts. snd t = NA \<longrightarrow> snd (fst t) \<Longrightarrow> enc_cell ts s \<noteq> NA"
proof -
  assume obj: "\<forall>t\<in>set ts. snd t = NA \<longrightarrow> snd (fst t)"
  show ?thesis
  proof (cases "find (hit s) ts")
    case None
    then show ?thesis by (simp add: enc_cell_def)
  next
    case (Some t)
    then have "t \<in> set ts" "hit s t" by (auto simp: find_Some_iff)
    with obj Some show ?thesis
      by (cases t rule: hit_val.cases) (auto simp: enc_cell_def)
  qed
qed

lemma align_spec_no_NA:
  assumes "frame_wf f" "\<forall>(n, c)\<in>set (cols f). \<not> obj_col c \<longrightarrow> NA \<notin> set c"
  shows "\<forall>(n, c)\<in>set (cols (align_spec schema f)). NA \<notin> set c"
proof -
  have "enc_cell (zip (col_types f) (row f i)) s \<noteq> NA" if "i < nrows f" for i s
  proof (rule enc_cell_NA_obj, rule ballI, rule impI)
    fix t assume t: "t \<in> set (zip (col_types f) (row f i))" and na: "snd t = NA"
    then obtain n c where nc: "(n, c) \<in> set (cols f)" and teq: "t = ((n, obj_col c), c ! i)"
      by (auto simp: zip_col_types_row)
    have "c ! i \<in> set c"
      using frame_wf_length [OF assms(1) nc] that by simp
    with assms(2) nc na teq show "snd (fst t)" by fastforce
  qed
  then show ?thesis by (auto simp: align_spec_def dest: sym)
qed

lemma row_append_col: "row (f\<lparr>cols := cols f @ [(n, vs)]\<rparr>) i = row f i @ [vs ! i]"
  by (simp add: row_def)

lemma predict_Inr_length: "predict m X = Inr ps \<Longrightarrow> length ps = nrows X"
  by (auto simp: predict_def frame_rows_def split: if_splits)

lemma bulk_submit_eq:
  assumes read: "read_csv file = Inr df" and amb: "unambiguous (columns df)"
    and names: "feature_names_in m = model_columns" and pos: "0 < nrows df"
    and nan: "allow_nan m \<or> (\<forall>(n, c)\<in>set (cols df). \<not> obj_col c \<longrightarrow> NA \<notin> set c)"
    and up: "dict_get lang ''upload_csv'' = Inr u" and dl: "dict_get lang ''download'' = Inr d"
    and age: "''age'' \<in> set (columns df)" and np: "''Prediction'' \<notin> set (columns df)"
  shows "bulk_submit m model_columns lang (Some file) =
    Inr (Some \<lparr>b_result = df\<lparr>cols := cols df @ [(''Prediction'',
                   map (decide m) (frame_rows (align_spec model_columns df)))]\<rparr>,
               b_csv = to_csv (df\<lparr>cols := cols df @ [(''Prediction'',
                   map (decide m) (frame_rows (align_spec model_columns df)))]\<rparr>)\<rparr>)"
proof -
  let ?X = "align_spec model_columns df"
  let ?ps = "map (decide m) (frame_rows ?X)"
  let ?R = "df\<lparr>cols := cols df @ [(''Prediction'', ?ps)]\<rparr>"
  have wf: "frame_wf df"
    by (rule read_csv_frame_wf [OF read])
  have al: "align model_columns df = Inr ?X"
    by (rule align_eq_spec [OF wf amb])
  have "\<not> list_ex (\<lambda>(n, c). obj_col c) (cols ?X)"
    using align_cols_numeric [OF al] by (auto simp: list_ex_iff)
  moreover have "allow_nan m \<or> \<not> list_ex (\<lambda>(n, c). NA \<in> set c) (cols ?X)"
    using nan align_spec_no_NA [OF wf] by (fastforce simp: list_ex_iff)
  ultimately have pr: "predict m ?X = Inr ?ps"
    using names pos by (auto simp: predict_def)
  have set: "set_column ''Prediction'' ?ps df = Inr ?R"
    using np by (simp add: set_column_def frame_rows_def)
  have cols: "columns ?R = columns df @ [''Prediction'']"
    by (simp add: columns_def)
  show ?thesis
    using up dl age
    by (simp add: bulk_submit_def read al pr set cols chart_requires_def)
qed

lemma row_align_spec:
  "i < nrows f \<Longrightarrow> row (align_spec schema f) i = encode_row (col_types f) schema (row f i)"
  using frame_rows_align_spec [of schema f] nth_frame_rows [of i f] nth_frame_rows [of i "align_spec schema f"]
  by simp

lemma nrows_align: "align schema f = Inr g \<Longrightarrow> nrows g = nrows f"
  by (drule align_Inr_cases) auto

lemma set_column_idem:
  assumes "set_column n vs f = Inr g"
  shows "set_column n vs g = Inr g"
proof -
  have len: "length vs = nrows f" using assms by (simp add: set_column_def split: if_splits)
  show ?thesis
  proof (cases "n \<in> set (columns f)")
    case True
    then have g: "g = f\<lparr>cols := map (\<lambda>(m, c). (m, if m = n then vs else c)) (cols f)\<rparr>"
      using assms len by (simp add: set_column_def)
    have "n \<in> set (columns g)" using True by (simp add: g columns_replace_col)
    moreover have "map (\<lambda>(m, c). (m, if m = n then vs else c)) (cols g) = cols g"
      by (simp add: g comp_def case_prod_beta)
    ultimately show ?thesis using len by (simp add: set_column_def g)
  next
    case False
    then have g: "g = f\<lparr>cols := cols f @ [(n, vs)]\<rparr>"
      using assms len by (simp add: set_column_def)
    have "map (\<lambda>(m, c). (m, if m = n then vs else c)) (cols f) = cols f"
      using False by (force simp: columns_def intro!: map_idI)
    then show ?thesis using len by (simp add: set_column_def g columns_def)
  qed
qed

lemma find_snoc_miss: "\<not> P t \<Longrightarrow> find P (xs @ [t]) = find P xs"
  by (induction xs) auto

lemma enc_cell_snoc: "\<not> hit s t \<Longrightarrow> enc_cell (ts @ [t]) s = enc_cell ts s"
  by (simp add: enc_cell_def find_snoc_miss)

lemma encode_row_snoc_invisible:
  assumes "\<forall>s\<in>set schema. s \<noteq> n \<and> \<not> starts_with (n @ ''_'') s" and "length tys = length r"
  shows "encode_row (tys @ [(n, b)]) schema (r @ [x]) = encode_row tys schema r"
proof -
  have "\<not> hit s ((n, b), x)" if "s \<in> set schema" for s
    using assms(1) that starts_with_dummy by (cases x) auto
  then show ?thesis
    using assms(2) by (simp add: encode_row_def enc_cell_snoc)
qed

lemma align_append_invisible:
  assumes wf: "frame_wf f" and un: "unambiguous (columns f @ [n])" and len: "length c' = nrows f"
    and new: "n \<notin> set (columns f)" and n: "n \<notin> set schema"
    and pre: "\<forall>s\<in>set schema. \<not> starts_with (n @ ''_'') s"
  shows "align schema (f\<lparr>cols := cols f @ [(n, c')]\<rparr>) = align schema f"
proof -
  let ?f' = "f\<lparr>cols := cols f @ [(n, c')]\<rparr>"
  have wf': "frame_wf ?f'" using wf len new by (simp add: frame_wf_def columns_def)
  have un': "unambiguous (columns ?f')" using un by (simp add: columns_def)
  have unf: "unambiguous (columns f)" using un by (auto simp: unambiguous_def list_all_iff)
  have same: "enc_cell (zip (col_types ?f') (row ?f' j)) s = enc_cell (zip (col_types f) (row f j)) s"
    if s: "s \<in> set schema" for s j
  proof -
    have nohit: "\<not> hit s ((n, obj_col c'), c' ! j)"
      using s n pre starts_with_dummy by (cases "c' ! j") auto
    have "zip (col_types ?f') (row ?f' j) = zip (col_types f) (row f j) @ [((n, obj_col c'), c' ! j)]"
      by (simp add: col_types_def row_append_col) (simp add: row_def)
    then show ?thesis using enc_cell_snoc [OF nohit] by simp
  qed
  have "align_spec schema ?f' = align_spec schema f"
    using same by (simp add: align_spec_def)
  then show ?thesis using align_eq_spec [OF wf unf] align_eq_spec [OF wf' un'] by simp
qed

lemma align_set_column_invisible:
  assumes wf: "frame_wf f" and set: "set_column n vs f = Inr g" and un: "unambiguous (columns g)"
    and n: "n \<notin> set schema" and pre: "\<forall>s\<in>set schema. \<not> starts_with (n @ ''_'') s"
  shows "align schema g = align schema f"
proof -
  have len: "length vs = nrows f" using set by (simp add: set_column_def split: if_splits)
  show ?thesis
  proof (cases "n \<in> set (columns f)")
    case True
    then have g: "g = f\<lparr>cols := map (\<lambda>(m, c). (m, if m = n then vs else c)) (cols f)\<rparr>"
      using set len by (simp add: set_column_def)
    have "unambiguous (columns f)" using un by (simp add: g columns_replace_col)
    from align_replace_invisible [OF wf this len n pre] show ?thesis by (simp add: g)
  next
    case False
    then have g: "g = f\<lparr>cols := cols f @ [(n, vs)]\<rparr>"
      using set len by (simp add: set_column_def)
    have "unambiguous (columns f @ [n])" using un by (simp add: g columns_def)
    from align_append_invisible [OF wf this len False n pre] show ?thesis by (simp add: g)
  qed
qed

lemma bulk_submit_SomeE:
  assumes "bulk_submit m model_columns lang (Some file) = Inr (Some out)"
  obtains df X ps df' u d where "read_csv file = Inr df" "align model_columns df = Inr X"
    "predict m X = Inr ps" "set_column ''Prediction'' ps df = Inr df'"
    "chart_requires [''age''] df' = Inr ()"
    "(if ''occupation'' \<in> set (columns df') then chart_requires [''occupation''] df' else Inr ()) = Inr ()"
    "dict_get lang ''upload_csv'' = Inr u" "dict_get lang ''download'' = Inr d"
    "out = \<lparr>b_result = df', b_csv = to_csv df'\<rparr>"
  using assms by (auto simp: bulk_submit_def rbind_eq_Inr)




text \<open>
  C22. A file with a header and no data rows is read, aligned, and rejected by the
  classifier: \<open>predict\<close> raises \<open>ValueError\<close> for zero samples.
\<close>

theorem bulk_submit_header_only:
  assumes read: "read_csv file = Inr df" and empty: "nrows df = 0"
    and amb: "unambiguous (columns df)" and names: "feature_names_in m = model_columns"
    and lang: "get_translations code = Inr lang"
  shows "bulk_submit m model_columns lang (Some file) = Inl (ValueError ''Found array with 0 sample(s)'')"
proof -
  obtain u where up: "dict_get lang ''upload_csv'' = Inr u"
    using ui_key_lookup [OF lang] by (metis list.set_intros ui_keys_def)
  have wf: "frame_wf df"
    by (rule read_csv_frame_wf [OF read])
  let ?X = "align_spec model_columns df"
  have al: "align model_columns df = Inr ?X"
    by (rule align_eq_spec [OF wf amb])
  have "\<not> list_ex (\<lambda>(n, c). obj_col c) (cols ?X)"
    using align_cols_numeric [OF al] by (auto simp: list_ex_iff)
  moreover have "\<not> list_ex (\<lambda>(n, c). NA \<in> set c) (cols ?X)"
    using empty by (auto simp: list_ex_iff align_spec_def)
  ultimately have "predict m ?X = Inl (ValueError ''Found array with 0 sample(s)'')"
    using names empty by (simp add: predict_def)
  then show ?thesis
    using up by (simp add: bulk_submit_def read al)
qed

text \<open>
  C25. The bulk tab's download is a valid upload that gives the same result again: read back
  with \<open>pd.read_csv\<close> it is the result table, and uploading it reproduces the result
  and the download, because the old \<open>Prediction\<close> column is invisible to the model
  (no model column is named after it) and is overwritten with the same predictions.
  It needs a result table the CSV libraries agree on (\<open>Csv.csv_safe\<close>) and unambiguous
  labels.
\<close>

theorem bulk_reupload_fixpoint:
  assumes run: "bulk_submit m model_columns lang (Some file) = Inr (Some out)"
    and safe: "csv_safe (b_result out)" and un: "unambiguous (columns (b_result out))"
    and np: "''Prediction'' \<notin> set model_columns"
    and pre: "\<forall>s\<in>set model_columns. \<not> starts_with ''Prediction_'' s"
  shows "read_csv (b_csv out) = Inr (b_result out) \<and>
         bulk_submit m model_columns lang (Some (b_csv out)) = Inr (Some out)"
proof -
  obtain df X ps df' u d where rd: "read_csv file = Inr df" and al: "align model_columns df = Inr X"
    and pr: "predict m X = Inr ps" and set: "set_column ''Prediction'' ps df = Inr df'"
    and age: "chart_requires [''age''] df' = Inr ()"
    and occ: "(if ''occupation'' \<in> set (columns df') then chart_requires [''occupation''] df' else Inr ()) = Inr ()"
    and up: "dict_get lang ''upload_csv'' = Inr u" and dl: "dict_get lang ''download'' = Inr d"
    and out: "out = \<lparr>b_result = df', b_csv = to_csv df'\<rparr>"
    using run by (rule bulk_submit_SomeE)
  have reread: "read_csv (b_csv out) = Inr (b_result out)"
    using read_csv_to_csv safe by (simp add: out)
  have "align model_columns df' = align model_columns df"
    using align_set_column_invisible [OF read_csv_frame_wf [OF rd] set _ np] un pre by (simp add: out)
  with al have al': "align model_columns df' = Inr X" by simp
  have "bulk_submit m model_columns lang (Some (b_csv out)) = Inr (Some out)"
    using reread al' pr set_column_idem [OF set] age occ up dl
    by (simp add: bulk_submit_def out)
  with reread show ?thesis by simp
qed

text \<open>
  C29. The bulk tab does not guard the reader (line 177 has no \<open>try\<close>): an uploaded file
  that is empty or holds only blank lines, and a file cut off inside a quoted field (any
  well-formed rows, then an opening quote that is never closed), make the tab raise
  pandas' error instead of showing a message.
\<close>

theorem bulk_submit_unreadable:
  assumes "dict_get lang ''upload_csv'' = Inr u"
  shows "(blank_text s \<longrightarrow>
            bulk_submit m model_columns lang (Some s) =
              Inl (ValueError ''No columns to parse from file'')) \<and>
         (list_all csv_row_ok rows \<and> CHR 0x22 \<notin> set t \<longrightarrow>
            bulk_submit m model_columns lang (Some (csv_render rows @ CHR 0x22 # t)) =
              Inl (ValueError ''Error tokenizing data. C error: EOF inside string''))"
  using assms read_csv_blank [of s] read_csv_truncated_quote [of rows t]
  by (simp add: bulk_submit_def)

subsection \<open>Witnesses\<close>

lemma read_ex_csv_no_age:
  "read_csv ex_csv_no_age =
     Inr \<lparr>nrows = 1, cols = [(''gender'', [Str ''Male'']), (''workclass'', [Str ''Private''])]\<rparr>"
  by (simp add: ex_csv_no_age_def csv_eval)

lemma get_translations_en: "get_translations ''en'' = Inr translations_en"
  by (simp add: get_translations_def translations_dict_def dict_get_def)




theorem bulk_submit_header_only_witness:
  "bulk_submit ex_clf ex_schema translations_en (Some ex_csv_header) =
     Inl (ValueError ''Found array with 0 sample(s)'')"
proof -
  let ?df = "\<lparr>nrows = 0, cols = [(''age'', []), (''gender'', [])]\<rparr>"
  have read: "read_csv ex_csv_header = Inr ?df"
    by (simp add: ex_csv_header_def csv_eval)
  have h: "nrows ?df = 0" "unambiguous (columns ?df)" "feature_names_in ex_clf = ex_schema"
    by (simp_all add: ex_clf_def columns_def unambiguous_def starts_with_def)
  show ?thesis by (rule bulk_submit_header_only [OF read h get_translations_en])
qed

theorem bulk_reupload_fixpoint_witness:
  "\<exists>out. bulk_submit ex_clf ex_schema translations_en (Some ex_csv) = Inr (Some out) \<and>
     read_csv (b_csv out) = Inr (b_result out) \<and>
     bulk_submit ex_clf ex_schema translations_en (Some (b_csv out)) = Inr (Some out)"
proof -
  let ?df = "\<lparr>nrows = 3, cols = [(''age'', [Num 30, Num 45, Num 25]),
     (''gender'', [Str ''Male'', NA, Str ''Female'']),
     (''workclass'', [Str ''Private'', Str ''Government'', Str ''Private''])]\<rparr>"
  let ?R = "?df\<lparr>cols := cols ?df @ [(''Prediction'', [Str ''>50K'', Str ''<=50K'', Str ''<=50K''])]\<rparr>"
  have h: "unambiguous (columns ?df)" "feature_names_in ex_clf = ex_schema" "0 < nrows ?df"
    "allow_nan ex_clf \<or> (\<forall>(n, c)\<in>set (cols ?df). \<not> obj_col c \<longrightarrow> NA \<notin> set c)"
    "dict_get translations_en ''upload_csv'' = Inr (the (map_of translations_en ''upload_csv''))"
    "dict_get translations_en ''download'' = Inr (the (map_of translations_en ''download''))"
    "''age'' \<in> set (columns ?df)" "''Prediction'' \<notin> set (columns ?df)"
    by (simp_all add: ex_clf_def columns_def unambiguous_def starts_with_def obj_col_def
        dict_get_def translations_en_def)
  have ps: "map (decide ex_clf) (frame_rows (align_spec ex_schema ?df)) =
      [Str ''>50K'', Str ''<=50K'', Str ''<=50K'']"
    by (simp add: ex_clf_def ex_schema_def frame_defs align_defs upt_rec)
  have run: "bulk_submit ex_clf ex_schema translations_en (Some ex_csv) =
      Inr (Some \<lparr>b_result = ?R, b_csv = to_csv ?R\<rparr>)"
    using bulk_submit_eq [OF read_ex_csv h] ps by simp
  have safe: "csv_safe ?R"
    by (simp add: csv_safe_def frame_wf_def columns_def col_safe_def obj_col_def col_text_def
      csv_row_ok_def upt_rec na_values_def parse_int_def is_space_def parse_nat_def digit_of_def)
  have cond: "unambiguous (columns ?R)" "''Prediction'' \<notin> set ex_schema"
    "\<forall>s\<in>set ex_schema. \<not> starts_with ''Prediction_'' s"
    by (simp_all add: columns_def unambiguous_def starts_with_def ex_schema_def)
  from bulk_reupload_fixpoint [OF run, simplified, OF safe [simplified] cond [simplified]] run show ?thesis
    by auto
qed

theorem bulk_submit_unreadable_witness:
  "bulk_submit ex_clf ex_schema translations_en (Some (CHR 0x0A # '' '' @ [CHR 0x0D, CHR 0x0A])) =
     Inl (ValueError ''No columns to parse from file'') \<and>
   bulk_submit ex_clf ex_schema translations_en (Some (csv_render [[''age'', ''note'']] @ CHR 0x22 # ''30'')) =
     Inl (ValueError ''Error tokenizing data. C error: EOF inside string'')"
proof -
  have up: "dict_get translations_en ''upload_csv'' = Inr (the (map_of translations_en ''upload_csv''))"
    by (simp add: dict_get_def translations_en_def)
  have "blank_text (CHR 0x0A # '' '' @ [CHR 0x0D, CHR 0x0A])" "list_all csv_row_ok [[''age'', ''note'']]"
    "CHR 0x22 \<notin> set ''30''"
    by (simp_all add: blank_text_def is_ws_def csv_row_ok_def)
  with bulk_submit_unreadable [OF up, of "CHR 0x0A # '' '' @ [CHR 0x0D, CHR 0x0A]" ex_clf ex_schema
      "[[''age'', ''note'']]" "''30''"]
  show ?thesis by blast
qed

end
