(* ===== verification/Page.thy ===== *)
theory Page
  imports Bulk
begin

text \<open>
  The page as Streamlit runs it (\<open>src/main.py\<close>): every interaction reruns the script
  from the top with the widgets' current values. \<open>page_state\<close> holds those values (the
  language select box of line 97, the form of lines 125--130, the uploaded file of line
  174), \<open>widget_step\<close> is the effect of one interaction on them, and \<open>page_run\<close> is one
  rerun: the translations (line 98), the manual tab's labels (125--132) and, when
  "Predict" was the interaction, \<open>manual_submit\<close>, then the bulk tab, which
  \<open>st.tabs\<close> (line 120) runs on every rerun whichever tab is shown. An exception ends the
  rerun: what was drawn before it stays on screen with the error below, and \<open>page_run\<close>
  records only the exception.
\<close>

datatype event = ChooseLang string | EditForm manual_form | PressPredict | UploadFile "string option"

record page_state =
  sel_lang :: string
  sel_form :: manual_form
  sel_upload :: "string option"

definition init_state :: page_state where
  "init_state = \<lparr>sel_lang = ''en'', sel_form = default_form, sel_upload = None\<rparr>"

text \<open>A select box only offers its options and the number input and slider only accept
  values in their ranges; any other value leaves the widget as it was.\<close>

fun widget_step :: "page_state \<Rightarrow> event \<Rightarrow> page_state" where
  "widget_step s (ChooseLang c) = (if c \<in> set lang_options then s\<lparr>sel_lang := c\<rparr> else s)"
| "widget_step s (EditForm f) = (if form_valid f then s\<lparr>sel_form := f\<rparr> else s)"
| "widget_step s PressPredict = s"
| "widget_step s (UploadFile u) = s\<lparr>sel_upload := u\<rparr>"

definition run_events :: "page_state \<Rightarrow> event list \<Rightarrow> page_state" where
  "run_events s es = foldl widget_step s es"

definition manual_labels :: "string list" where
  "manual_labels = [''age'', ''gender'', ''workclass'', ''education'', ''occupation'', ''hours'', ''predict'']"

fun lookup_all :: "(string \<times> string) list \<Rightarrow> string list \<Rightarrow> unit result" where
  "lookup_all lang [] = Inr ()"
| "lookup_all lang (k # ks) = rbind (dict_get lang k) (\<lambda>_. lookup_all lang ks)"

record page_out =
  p_manual :: "manual_out option"
  p_bulk :: "bulk_out option"

definition page_run ::
  "classifier \<Rightarrow> string list \<Rightarrow> page_state \<Rightarrow> bool \<Rightarrow> page_out result" where
  "page_run m model_columns s pressed =
     rbind (get_translations (sel_lang s)) (\<lambda>lang.
     rbind (lookup_all lang manual_labels) (\<lambda>_.
     rbind (if pressed then rbind (manual_submit m model_columns lang (sel_form s)) (\<lambda>out. Inr (Some out))
            else Inr None) (\<lambda>mo.
     rbind (bulk_submit m model_columns lang (sel_upload s)) (\<lambda>bo.
       Inr \<lparr>p_manual = mo, p_bulk = bo\<rparr>))))"

text \<open>What the user sees after an interaction: the rerun on the new widget state, with the
  button true only in the rerun its click triggered.\<close>

definition page_view :: "classifier \<Rightarrow> string list \<Rightarrow> page_state \<Rightarrow> event \<Rightarrow> page_out result" where
  "page_view m model_columns s e = page_run m model_columns (widget_step s e) (e = PressPredict)"

definition no_upload_event :: "event \<Rightarrow> bool" where
  "no_upload_event e \<longleftrightarrow> (case e of UploadFile _ \<Rightarrow> False | _ \<Rightarrow> True)"


lemma run_events_Cons [simp]: "run_events s (e # es) = run_events (widget_step s e) es"
  by (simp add: run_events_def)

lemma run_events_snoc: "run_events s (es @ [e]) = widget_step (run_events s es) e"
  by (simp add: run_events_def)

lemma lookup_all_Inr: "(\<And>k. k \<in> set ks \<Longrightarrow> \<exists>t. dict_get lang k = Inr t) \<Longrightarrow> lookup_all lang ks = Inr ()"
proof (induction ks)
  case Nil
  then show ?case by simp
next
  case (Cons k ks)
  then obtain t where "dict_get lang k = Inr t" by auto
  with Cons show ?case by simp
qed

lemma lookup_manual_labels: "get_translations code = Inr lang \<Longrightarrow> lookup_all lang manual_labels = Inr ()"
  by (rule lookup_all_Inr) (auto intro: ui_key_lookup simp: manual_labels_def ui_keys_def)

lemma sel_upload_run_events:
  "list_all no_upload_event es \<Longrightarrow> sel_upload (run_events s es) = sel_upload s"
proof (induction es arbitrary: s)
  case Nil
  then show ?case by (simp add: run_events_def)
next
  case (Cons e es)
  then show ?case by (cases e) (auto simp: no_upload_event_def)
qed

text \<open>The manual tab as one rerun renders it: nothing before the click, and the
  prediction of \<open>manual_submit\<close> after it.\<close>

lemma manual_part:
  assumes "feature_names_in m = model_columns" "get_translations code = Inr lang"
  shows "\<exists>mo. (if pressed then rbind (manual_submit m model_columns lang f) (\<lambda>out. Inr (Some out))
               else Inr None) = Inr mo \<and>
           (pressed \<longrightarrow> (\<exists>out. mo = Some out \<and> m_prediction out =
              decide m (encode_row (col_types (manual_frame f)) model_columns (row (manual_frame f) 0)))) \<and>
           (\<not> pressed \<longrightarrow> mo = None)"
proof -
  obtain t where "dict_get lang ''predicted_income'' = Inr t"
    using predicted_income_key [OF assms(2)] by blast
  from manual_submit_eq [OF assms(1) this, of f] show ?thesis by auto
qed

text \<open>One rerun, taken apart: with a classifier fitted on the schema, the translations and
  the manual tab always succeed, and the rerun's outcome is the bulk tab's.\<close>

lemma page_run_decomp:
  assumes "feature_names_in m = model_columns"
  shows "\<exists>lang mo. get_translations (sel_lang s) = Inr lang \<and>
     (pressed \<longrightarrow> (\<exists>out. mo = Some out \<and> m_prediction out =
        decide m (encode_row (col_types (manual_frame (sel_form s))) model_columns
                             (row (manual_frame (sel_form s)) 0)))) \<and>
     (\<not> pressed \<longrightarrow> mo = None) \<and>
     page_run m model_columns s pressed =
       rbind (bulk_submit m model_columns lang (sel_upload s)) (\<lambda>bo. Inr \<lparr>p_manual = mo, p_bulk = bo\<rparr>)"
proof -
  obtain lang where lang: "get_translations (sel_lang s) = Inr lang"
    using get_translations_Inr by blast
  from manual_part [OF assms lang, of pressed "sel_form s"] obtain mo where
    mo: "(if pressed then rbind (manual_submit m model_columns lang (sel_form s)) (\<lambda>out. Inr (Some out))
          else Inr None) = Inr mo"
    and facts: "pressed \<longrightarrow> (\<exists>out. mo = Some out \<and> m_prediction out =
        decide m (encode_row (col_types (manual_frame (sel_form s))) model_columns
                             (row (manual_frame (sel_form s)) 0)))" "\<not> pressed \<longrightarrow> mo = None"
    by blast
  have "page_run m model_columns s pressed =
      rbind (bulk_submit m model_columns lang (sel_upload s)) (\<lambda>bo. Inr \<lparr>p_manual = mo, p_bulk = bo\<rparr>)"
    by (simp add: page_run_def lang lookup_manual_labels [OF lang] mo)
  with lang facts show ?thesis by blast
qed

lemma bulk_submit_None:
  "get_translations code = Inr lang \<Longrightarrow> bulk_submit m model_columns lang None = Inr None"
proof -
  assume lang: "get_translations code = Inr lang"
  obtain u where "dict_get lang ''upload_csv'' = Inr u"
    using ui_key_lookup [OF lang] by (metis list.set_intros ui_keys_def)
  then show ?thesis by (simp add: bulk_submit_def)
qed

text \<open>
  C23. Without an uploaded file the page always renders: with a classifier fitted on the
  schema, every rerun in every widget state succeeds, shows the prediction of the form's
  record when "Predict" was pressed and nothing otherwise, and the bulk tab shows nothing.
\<close>

theorem page_run_no_upload:
  assumes "feature_names_in m = model_columns" "sel_upload s = None"
  shows "\<exists>out. page_run m model_columns s pressed = Inr out \<and> p_bulk out = None \<and>
     (pressed \<longrightarrow> (\<exists>mo. p_manual out = Some mo \<and> m_prediction mo =
        decide m (encode_row (col_types (manual_frame (sel_form s))) model_columns
                             (row (manual_frame (sel_form s)) 0)))) \<and>
     (\<not> pressed \<longrightarrow> p_manual out = None)"
proof -
  from page_run_decomp [OF assms(1), of s pressed] obtain lang mo where
    lang: "get_translations (sel_lang s) = Inr lang" and
    facts: "pressed \<longrightarrow> (\<exists>out. mo = Some out \<and> m_prediction out =
        decide m (encode_row (col_types (manual_frame (sel_form s))) model_columns
                             (row (manual_frame (sel_form s)) 0)))" "\<not> pressed \<longrightarrow> mo = None" and
    run: "page_run m model_columns s pressed =
       rbind (bulk_submit m model_columns lang (sel_upload s)) (\<lambda>bo. Inr \<lparr>p_manual = mo, p_bulk = bo\<rparr>)"
    by blast
  have "page_run m model_columns s pressed = Inr \<lparr>p_manual = mo, p_bulk = None\<rparr>"
    using run assms(2) bulk_submit_None [OF lang] by simp
  with facts show ?thesis by auto
qed

text \<open>
  C24. An upload the bulk tab rejects keeps the page failing: after any interactions that
  do not touch the file uploader, every rerun ends in the same exception, whatever the
  language or the form and whether or not "Predict" is pressed; removing the file is one
  interaction that brings the page back.
\<close>

theorem upload_error_persists:
  assumes names: "feature_names_in m = model_columns"
    and bad: "\<forall>code lang. get_translations code = Inr lang \<longrightarrow>
                 bulk_submit m model_columns lang (Some file) = Inl err"
    and up: "sel_upload s = Some file" and es: "list_all no_upload_event es"
  shows "page_run m model_columns (run_events s es) pressed = Inl err \<and>
         (\<exists>out. page_view m model_columns (run_events s es) (UploadFile None) = Inr out \<and>
                p_bulk out = None)"
proof -
  let ?s = "run_events s es"
  have up': "sel_upload ?s = Some file"
    using sel_upload_run_events [OF es] up by simp
  from page_run_decomp [OF names, of ?s pressed] obtain lang mo where
    lang: "get_translations (sel_lang ?s) = Inr lang" and
    run: "page_run m model_columns ?s pressed =
       rbind (bulk_submit m model_columns lang (sel_upload ?s)) (\<lambda>bo. Inr \<lparr>p_manual = mo, p_bulk = bo\<rparr>)"
    by blast
  have "page_run m model_columns ?s pressed = Inl err"
    using run up' bad lang by simp
  moreover have "\<exists>out. page_run m model_columns (?s\<lparr>sel_upload := None\<rparr>) False = Inr out \<and>
                p_bulk out = None"
  proof -
    from page_run_decomp [OF names, of "?s\<lparr>sel_upload := None\<rparr>" False] obtain lang' mo' where
      lang': "get_translations (sel_lang ?s) = Inr lang'" and
      run': "page_run m model_columns (?s\<lparr>sel_upload := None\<rparr>) False =
         rbind (bulk_submit m model_columns lang' None) (\<lambda>bo. Inr \<lparr>p_manual = mo', p_bulk = bo\<rparr>)"
      by auto
    then show ?thesis using bulk_submit_None [OF lang'] by simp
  qed
  ultimately show ?thesis by (simp add: page_view_def)
qed

subsection \<open>Witnesses\<close>

theorem page_run_no_upload_witness:
  "\<exists>out. page_run ex_clf ex_schema init_state True = Inr out \<and> p_bulk out = None \<and>
     (\<exists>mo. p_manual out = Some mo \<and> m_prediction mo = Str ''>50K'')"
proof -
  have h: "feature_names_in ex_clf = ex_schema" "sel_upload init_state = None"
    by (simp_all add: ex_clf_def init_state_def)
  have p: "decide ex_clf (encode_row (col_types (manual_frame (sel_form init_state))) ex_schema
              (row (manual_frame (sel_form init_state)) 0)) = Str ''>50K''"
    by (simp add: init_state_def ex_clf_def ex_schema_def form_defs frame_defs align_defs)
  from page_run_no_upload [OF h, of True] p show ?thesis by auto
qed

theorem upload_error_persists_witness:
  "page_run ex_clf ex_schema
     (run_events (widget_step init_state (UploadFile (Some ex_csv_no_age))) [PressPredict, ChooseLang ''hi''])
     True = Inl (ValueError ''Value of x is not the name of a column in data_frame'')"
proof -
  have names: "feature_names_in ex_clf = ex_schema" by (simp add: ex_clf_def)
  have bad: "\<forall>code lang. get_translations code = Inr lang \<longrightarrow>
      bulk_submit ex_clf ex_schema lang (Some ex_csv_no_age) =
        Inl (ValueError ''Value of x is not the name of a column in data_frame'')"
  proof (intro allI impI)
    fix code lang assume lang: "get_translations code = Inr lang"
    obtain u where "dict_get lang ''upload_csv'' = Inr u"
      using ui_key_lookup [OF lang] by (metis list.set_intros ui_keys_def)
    then show "bulk_submit ex_clf ex_schema lang (Some ex_csv_no_age) =
        Inl (ValueError ''Value of x is not the name of a column in data_frame'')"
      by (simp add: bulk_submit_def read_ex_csv_no_age ex_clf_def ex_schema_def frame_defs align_defs
                    chart_requires_def)
  qed
  have up: "sel_upload (widget_step init_state (UploadFile (Some ex_csv_no_age))) = Some ex_csv_no_age"
    by simp
  have es: "list_all no_upload_event [PressPredict, ChooseLang ''hi'']"
    by (simp add: no_upload_event_def)
  from upload_error_persists [OF names bad up es, of True] show ?thesis by blast
qed

end
