(* ===== verification/Artifacts.thy ===== *)
theory Artifacts
  imports Trainer Csv
begin

text \<open>
  The files that connect the two programs. \<open>src/model_training.py\<close> reads \<open>adult.csv\<close>
  (line 12), trains, and pickles the selected model with \<open>joblib.dump\<close> (line 47);
  \<open>src/main.py\<close> unpickles \<open>best_model.pkl\<close> and \<open>model_columns.pkl\<close> with
  \<open>joblib.load\<close> (lines 8--9) before it draws anything. The directory of pickles is a
  map from file names to the objects they hold, and loading a missing file raises
  \<open>FileNotFoundError\<close>. The pickle encoding itself is library code and not modelled,
  and neither are the script's progress prints (lines 43 and 48).
\<close>

datatype artifact = Model classifier | Columns "string list"

type_synonym store = "string \<rightharpoonup> artifact"

definition joblib_dump :: "artifact \<Rightarrow> string \<Rightarrow> store \<Rightarrow> store" where
  "joblib_dump a p st = st(p \<mapsto> a)"

definition joblib_load :: "store \<Rightarrow> string \<Rightarrow> artifact result" where
  "joblib_load st p = (case st p of None \<Rightarrow> Inl (FileNotFoundError p) | Some a \<Rightarrow> Inr a)"

text \<open>\<open>model_training.py\<close> as a whole: the text of \<open>adult.csv\<close> is read with
  \<open>pd.read_csv\<close> (line 12), the steps of \<open>trainer_run\<close> (lines 15--46) run on the table,
  and the chosen model is dumped (line 47). The result is the directory afterwards and the
  name of the chosen model.\<close>

definition training_script ::
  "(string \<Rightarrow> frame \<Rightarrow> cell list \<Rightarrow> classifier) \<Rightarrow> nat list \<Rightarrow> string \<Rightarrow> store \<Rightarrow>
   (store \<times> string) result" where
  "training_script fit perm adult_csv st =
     rbind (read_csv adult_csv) (\<lambda>data.
     rbind (trainer_run fit perm data) (\<lambda>(best, clf, results).
       Inr (joblib_dump (Model clf) ''best_model.pkl'' st, best)))"

text \<open>Lines 8--9 of \<open>main.py\<close>: both loads run before the page is drawn, so either
  failure stops the app. The first object is used as the classifier and the second as the
  column list. An object of the other kind would fail at its first use; the model reports
  that failure at the load.\<close>

definition app_load :: "store \<Rightarrow> (classifier \<times> string list) result" where
  "app_load st =
     rbind (joblib_load st ''best_model.pkl'') (\<lambda>model.
     rbind (joblib_load st ''model_columns.pkl'') (\<lambda>model_columns.
       case (model, model_columns) of
         (Model m, Columns cs) \<Rightarrow> Inr (m, cs)
       | _ \<Rightarrow> Inl (TypeError ''unexpected object in pickle'')))"

text \<open>The training table of the witnesses (\<open>Trainer.ex_adult\<close>) as the text of
  \<open>adult.csv\<close>.\<close>

definition ex_adult_csv :: string where
  "ex_adult_csv =
     ''age,workclass,fnlwgt,education,educational-num,marital-status,occupation,relationship,race,gender,capital-gain,capital-loss,hours-per-week,native-country,income'' @ [CHR 0x0A] @
     ''25,Private,226802,11th,7,Never-married,Machine-op-inspct,Own-child,Black,Male,0,0,40,United-States,<=50K'' @ [CHR 0x0A] @
     ''80,Private,89814,HS-grad,9,Married-civ-spouse,Farming-fishing,Husband,White,Male,0,0,50,United-States,<=50K'' @ [CHR 0x0A] @
     ''28,Local-gov,336951,Assoc-acdm,12,Married-civ-spouse,Protective-serv,Husband,White,Female,0,0,40,United-States,>50K'' @ [CHR 0x0A]"

subsection \<open>Loading what the trainer saved\<close>

lemma training_script_Inr:
  assumes "training_script fit perm adult_csv st = Inr (st', best)"
  obtains data clf results where "read_csv adult_csv = Inr data"
    "trainer_run fit perm data = Inr (best, clf, results)"
    "st' = st(''best_model.pkl'' \<mapsto> Model clf)"
  using assms by (auto simp: training_script_def rbind_eq_Inr joblib_dump_def)

text \<open>
  C27. The two programs do not fit together: \<open>model_training.py\<close> writes only
  \<open>best_model.pkl\<close>, so after a successful training run in a directory without
  \<open>model_columns.pkl\<close> the app stops at its second \<open>joblib.load\<close> with
  \<open>FileNotFoundError\<close>, before it draws anything.
\<close>

theorem app_load_after_training:
  assumes "training_script fit perm adult_csv st = Inr (st', best)"
    and "st ''model_columns.pkl'' = None"
  shows "app_load st' = Inl (FileNotFoundError ''model_columns.pkl'')"
proof -
  obtain data clf results where "st' = st(''best_model.pkl'' \<mapsto> Model clf)"
    using assms(1) by (rule training_script_Inr)
  with assms(2) show ?thesis
    by (simp add: app_load_def joblib_load_def)
qed

subsection \<open>Witnesses\<close>

lemma ex_adult_to_csv: "to_csv ex_adult = ex_adult_csv"
  by (simp add: ex_adult_csv_def ex_adult_def adult_header_def to_csv_def columns_def csv_render_def
      csv_line_def csv_line_term_def quote_field_def needs_quote_def col_text_def obj_col_def upt_rec int_str_def
      nat_str.simps digit_char_def)

lemma ex_adult_csv_safe: "csv_safe ex_adult"
  by (simp add: csv_safe_def ex_adult_def adult_header_def frame_wf_def columns_def col_safe_def
      obj_col_def col_text_def csv_row_ok_def upt_rec na_values_def parse_int_def is_space_def
      parse_nat_def digit_of_def)

lemma read_ex_adult_csv: "read_csv ex_adult_csv = Inr ex_adult"
  using read_csv_to_csv [OF ex_adult_csv_safe] by (simp add: ex_adult_to_csv)

lemma training_script_ex_adult:
  "\<exists>clf. training_script ex_fit [1, 0] ex_adult_csv Map.empty =
     Inr (Map.empty(''best_model.pkl'' \<mapsto> Model clf), ''SVM'')"
  using trainer_run_ex_adult
  by (auto simp: training_script_def read_ex_adult_csv joblib_dump_def)

theorem app_load_after_training_witness:
  "\<exists>st'. training_script ex_fit [1, 0] ex_adult_csv Map.empty = Inr (st', ''SVM'') \<and>
     app_load st' = Inl (FileNotFoundError ''model_columns.pkl'')"
proof -
  obtain clf where run: "training_script ex_fit [1, 0] ex_adult_csv Map.empty =
      Inr (Map.empty(''best_model.pkl'' \<mapsto> Model clf), ''SVM'')"
    using training_script_ex_adult by blast
  have "(Map.empty :: store) ''model_columns.pkl'' = None" by simp
  from app_load_after_training [OF run this] run show ?thesis by blast
qed

end
