(* ===== verification/Spec2Isabelle.thy ===== *)
theory Spec2Isabelle
  imports Form Trainer Bulk Page Artifacts
begin

text \<open>
  Verification development of Employee-Salary-Predictions: a Streamlit page
  (\<open>src/main.py\<close>) that encodes a person's attributes and asks a pre-trained
  scikit-learn classifier for an income bracket, and a training script
  (\<open>src/model_training.py\<close>) that fits five classifiers and keeps the most accurate.
  The two meet only through the pickled model (\<open>best_model.pkl\<close>) and the column list
  the page loads as \<open>model_columns\<close>.

  \<^bold>\<open>Theories.\<close>
  \<^item> \<open>Prelude\<close>: Python exceptions as the datatype \<open>py_error\<close> and results as
    \<open>py_error + 'a\<close> sequenced by \<open>rbind\<close>; dictionary lookup \<open>dict_get\<close>;
    \<open>str.split\<close> with a one-character separator (\<open>split_on\<close>) and \<open>sep.join\<close>
    (\<open>py_join\<close>) with their round trip; \<open>str(int)\<close>; \<open>numpy.searchsorted\<close>; the
    string order (Python's code-point order, which on UTF-8 bytes is the byte order of
    \<open>List_Lexorder\<close> and \<open>Char_ord\<close>).
  \<^item> \<open>Frame\<close>: the pandas data frame (a row count and named columns of cells
    \<open>Num\<close>/\<open>Str\<close>/\<open>NA\<close>; a column is of \<open>object\<close> dtype when it holds a string),
    with \<open>get_dummies\<close>, \<open>reindex\<close>, \<open>pd.DataFrame([record])\<close> and \<open>df[name] = v\<close>.
  \<^item> \<open>Align\<close>: the inference adapter \<open>align schema f = reindex schema (get_dummies f)\<close>
    (main.py 142--143 and 178--179) and \<open>predict\<close> (145, 180) with scikit-learn's input
    validation; the abstract specification \<open>encode_row\<close>/\<open>align_spec\<close> of what each
    encoded cell is.
  \<^item> \<open>Translations\<close>: the three language tables, byte for byte, and
    \<open>get_translations\<close> (main.py 12--54).
  \<^item> \<open>Form\<close>: the manual tab (main.py 123--169): the widgets' values, the record the
    form sends (\<open>input_data\<close>), and \<open>manual_submit\<close>, the whole handler of "Predict"
    with its message, its one-row result, that row's CSV text and the columns its charts
    require.
  \<^item> \<open>Trainer\<close>: \<open>src/model_training.py\<close> as \<open>trainer_run\<close>: the age filter, the drop
    of \<open>education\<close>, \<open>LabelEncoder\<close> on seven columns, \<open>train_test_split\<close>, the loop
    over the five models with \<open>accuracy_score\<close>, and \<open>max(results, key=results.get)\<close>.
  \<^item> \<open>Csv\<close>: \<open>pd.read_csv\<close> (pandas' tokenizer as the state machine \<open>tok\<close>, header
    renaming \<open>header_names\<close> as the C parser's \<open>_get_header\<close> does it, with its loop
    \<open>mangle_loop\<close>, integer/object type inference \<open>parse_col\<close>) and \<open>df.to_csv\<close>
    (Python's CSV writer), used by both tabs.
  \<^item> \<open>Bulk\<close>: the bulk tab (main.py 172--198) as \<open>bulk_submit\<close>.
  \<^item> \<open>Page\<close>: the Streamlit session: the widgets' values as \<open>page_state\<close>, one interaction
    as \<open>widget_step\<close>, a sequence of interactions as \<open>run_events\<close>, and one
    rerun of the whole script as \<open>page_run\<close> (language, manual tab, bulk tab in order).
  \<^item> \<open>Artifacts\<close>: the pickle files between the two programs as a map from file names
    to objects; \<open>training_script\<close> is \<open>model_training.py\<close> end to end (\<open>read_csv\<close> of
    \<open>adult.csv\<close>, \<open>trainer_run\<close>, \<open>joblib.dump\<close>) and \<open>app_load\<close> is \<open>main.py\<close>'s two
    \<open>joblib.load\<close> calls (lines 8--9).
  \<^item> \<open>Spec2Isabelle\<close> (this theory): the properties that span components: the trainer
    and the page (C10), and the manual and bulk tabs (C31).

  \<^bold>\<open>What is proved.\<close>
  The alignment refines its row-level specification (C1), has exactly the schema's
  columns with numeric cells (C2), treats an unknown category as missing (C3) and encodes a
  batch row as it encodes that row alone when no column of the schema is an object column
  (C4); since pandas types a column by the whole upload, one non-integer cell in an
  uploaded column makes it an object column that reaches the model as 0 in every row (C5);
  a label collision makes the alignment raise (C6). Every key the page reads is in every
  language table (C7). The manual handler never raises and returns the classifier's
  decision on the encoded record (C8); the education choice is inert (C9). For the script:
  \<open>max\<close> selects the first model of maximal accuracy, as the reference \<open>first_argmax\<close>
  does (C11); the label encoder is an order-preserving round trip, missing values coded
  as the last class (C12); the split partitions the (row, label) pairs (C13) and raises
  below two rows (C16); the age filter keeps exactly the rows whose age is a number in
  17..75 (C14); an accuracy lies in [0, 1], is 1 exactly when every prediction is right
  and 0 exactly when none is (C15); a run saves the first best model fitted on the columns
  other than \<open>education\<close> and \<open>income\<close> (C17). Across the two programs (C10): with the
  trainer's model the page can only use the trainer's column list, and then its
  prediction depends on the age alone. For the bulk tab: it returns one prediction per
  uploaded row, in order (C18); an upload without an \<open>age\<close> column crashes at the age
  chart after predicting (C19); a header without rows makes \<open>predict\<close> raise (C22); the
  header renaming yields distinct names, one per field, and keeps distinct non-empty
  names (C20), and its loop returns on every header (C26); the tokenizer reads back what
  the writer wrote (C21); a downloaded result uploaded again is read back as the same
  table and gives the same result and download (C25); the tokenizer only appends
  non-empty rows, so every table read has a column (C28); a blank upload or one cut
  inside a quoted field makes the bulk tab raise (C29); CRLF files read exactly as LF
  files (C30). Across the tabs (C31): the manual tab's download, uploaded to the bulk tab,
  gets the label the manual tab showed. For the session: without an upload every rerun
  renders (C23), and a rejected upload breaks every rerun until it is removed, which one
  interaction does (C24). Between the programs: after a training run the app cannot
  start, since nothing writes \<open>model_columns.pkl\<close> (C27).

  \<^bold>\<open>Parameters.\<close> No loop needs fuel: every loop of the sources runs over a finite list
  and is structural recursion (\<open>encode_columns\<close>, \<open>train_all\<close>, \<open>max_key_from\<close>).
  The two library loops that are not structural are modelled as they run: the tokenizer
  \<open>tok\<close> is a total function (measure: input length, then a weight for the states that
  look at a character without consuming it); the C parser's renaming loop
  (\<open>while cur_count > 0\<close> in \<open>_get_header\<close>) is \<open>mangle_loop\<close>, a
  \<open>partial_function (option)\<close> in which not returning is \<open>None\<close>. It ends only because the
  header is finite: each turn either finds a suffixed name outside the header or moves to
  the next suffix, and the names \<open>old.j\<close> with \<open>j \<ge> cur\<close> in the header are finitely
  many. C26 proves that it returns whenever the counts only name header fields, which
  \<open>mangle_from\<close> maintains, and C20 that the whole renaming returns on every header. The
  permutation that \<open>RandomState(42)\<close> draws in \<open>train_test_split\<close> is a parameter of
  \<open>trainer_run\<close>; C13 holds for every permutation. The fitting algorithms are a parameter
  \<open>fit\<close>; C10 assumes only what scikit-learn guarantees of it, that a fitted model
  records its training columns as \<open>feature_names_in_\<close>. Accuracies are rationals: a float
  \<open>k / n\<close> is monotone in \<open>k\<close> for \<open>n < 2^53\<close>, so the comparisons that \<open>max\<close> makes are
  the same.

  \<^bold>\<open>Not modelled.\<close> Page layout, CSS, the charts' rendering, Streamlit widgets' drawing,
  \<open>st.dataframe\<close>, plotly, joblib's serialisation and the classifiers' fitting algorithms:
  they are library code the sources only call; the fitted classifier is an abstract
  decision function. The trainer's progress prints (model_training.py 43 and 48) are
  console output that no part of the system reads back. \<open>{acc:.4f}\<close> rounds the double
  nearest to the accuracy, which differs from rounding the exact rational at a decimal tie,
  so a faithful model of that line needs IEEE doubles, which the model keeps out of the
  accuracies on purpose. The page's header markup and CSS (main.py 56--96 and 100--117) are
  presentation with no behaviour. In
  \<open>read_csv\<close>, float and boolean fields, integers beyond 64 bits and pandas' implicit
  index are outside the model.
\<close>

text \<open>
  C10. Trained by the script and served by the page, the model sees only the age: the page
  can predict only with the trainer's own column list as its schema (any other list makes
  \<open>predict\<close> raise), and with that list the manually entered record is encoded as its age
  followed by zeros, because the trainer's label-encoded columns keep their raw names, which
  \<open>get_dummies\<close> never produces, and its \<open>hours-per-week\<close> is not the page's
  \<open>hours_per_week\<close>. So every choice of gender, workclass, education, occupation and hours
  gives the same prediction as any other with the same age.
\<close>

theorem trained_model_sees_only_age:
  assumes run: "trainer_run fit perm data = Inr (best, clf, results)" and wf: "frame_wf data"
    and names: "\<forall>n X y. feature_names_in (fit n X y) = columns X"
    and hours: "''hours_per_week'' \<notin> set (columns data)"
    and raw: "\<forall>s\<in>set (columns data). \<forall>n\<in>set [''gender'', ''workclass'', ''education'', ''occupation''].
                \<not> starts_with (n @ ''_'') s"
    and lang: "get_translations code = Inr lang"
  shows "(\<exists>out. manual_submit clf (feature_names_in clf) lang f = Inr out \<and>
            m_prediction out =
              decide clf (map (\<lambda>s. if s = ''age'' then Num (age_in f) else Num 0) (feature_names_in clf))) \<and>
         (\<forall>model_columns. model_columns \<noteq> feature_names_in clf \<longrightarrow>
            (\<exists>e. manual_submit clf model_columns lang f = Inl e))"
proof -
  obtain Xtr Xte ytr yte where clf: "clf = fit best Xtr ytr" and
    cols: "columns Xtr = filter (\<lambda>n. n \<noteq> ''education'' \<and> n \<noteq> ''income'') (columns data)"
    using trainer_run_steps [OF run wf] .
  let ?S = "feature_names_in clf"
  have S: "set ?S \<subseteq> set (columns data)"
    using names clf cols by auto
  have enc: "encode_row (col_types (manual_frame f)) ?S (row (manual_frame f) 0) =
      map (\<lambda>s. if s = ''age'' then Num (age_in f) else Num 0) ?S"
    using S hours raw by (intro encode_row_manual_age_only) auto
  obtain t where t: "dict_get lang ''predicted_income'' = Inr t"
    using predicted_income_key [OF lang] by blast
  have "\<exists>out. manual_submit clf ?S lang f = Inr out \<and>
      m_prediction out = decide clf (map (\<lambda>s. if s = ''age'' then Num (age_in f) else Num 0) ?S)"
    using manual_submit_eq [OF refl t, of clf f] enc by simp
  moreover have "\<forall>model_columns. model_columns \<noteq> ?S \<longrightarrow> (\<exists>e. manual_submit clf model_columns lang f = Inl e)"
    using manual_submit_mismatch by blast
  ultimately show ?thesis by blast
qed

text \<open>
  C31. The two tabs agree: the CSV that the manual tab offers for download, uploaded to the
  bulk tab, is read back as the manual result row, and the bulk tab predicts for it the
  label the manual tab showed. The manual \<open>prediction\<close> column is invisible to the model
  (no model column is named after it) and the bulk tab adds its own \<open>Prediction\<close>.
\<close>

theorem manual_download_to_bulk:
  assumes names: "feature_names_in m = model_columns"
    and lk: "dict_get lang ''predicted_income'' = Inr t" "dict_get lang ''upload_csv'' = Inr u"
      "dict_get lang ''download'' = Inr d"
    and run: "manual_submit m model_columns lang f = Inr out"
    and safe: "csv_safe (m_result out)"
    and pre: "\<forall>s\<in>set model_columns. s \<noteq> ''prediction'' \<and> \<not> starts_with ''prediction_'' s"
  shows "\<exists>out'. bulk_submit m model_columns lang (Some (m_csv out)) = Inr (Some out') \<and>
           b_result out' = (m_result out)\<lparr>cols := cols (m_result out) @ [(''Prediction'', [m_prediction out])]\<rparr>"
proof -
  let ?M = "manual_frame f"
  let ?p = "decide m (encode_row (col_types ?M) model_columns (row ?M 0))"
  let ?R = "?M\<lparr>cols := cols ?M @ [(''prediction'', [?p])]\<rparr>"
  have out: "m_prediction out = ?p" "m_result out = ?R" "m_csv out = to_csv ?R"
    using manual_submit_eq [OF names lk(1), of f] run by auto
  have rd: "read_csv (m_csv out) = Inr ?R"
    using read_csv_to_csv safe by (simp add: out)
  have cR: "columns ?R = manual_fields @ [''prediction'']"
    by (simp add: columns_def columns_manual_frame [unfolded columns_def])
  have amb: "unambiguous (columns ?R)"
    by (simp add: cR manual_fields_def unambiguous_def starts_with_def)
  have nan: "allow_nan m \<or> (\<forall>(n, c)\<in>set (cols ?R). \<not> obj_col c \<longrightarrow> NA \<notin> set c)"
    using safe by (auto simp: out csv_safe_def col_safe_def list_all_iff split: if_splits)
  have age: "''age'' \<in> set (columns ?R)" and np: "''Prediction'' \<notin> set (columns ?R)"
    by (simp_all add: cR manual_fields_def)
  have "row ?R 0 = row ?M 0 @ [?p]" using row_append_col [of ?M "''prediction''" "[?p]" 0] by simp
  moreover have "col_types ?R = col_types ?M @ [(''prediction'', obj_col [?p])]"
    by (simp add: col_types_def)
  moreover have "length (col_types ?M) = length (row ?M 0)"
    by (simp add: col_types_def row_def)
  ultimately have enc: "encode_row (col_types ?R) model_columns (row ?R 0) =
      encode_row (col_types ?M) model_columns (row ?M 0)"
    using encode_row_snoc_invisible [of model_columns "''prediction''"] pre by simp
  have "map (decide m) (frame_rows (align_spec model_columns ?R)) = [?p]"
    using frame_rows_align_spec [of model_columns ?R] enc by (simp add: frame_rows_def upt_rec)
  with bulk_submit_eq [OF rd amb names _ nan lk(2,3) age np] show ?thesis
    by (simp add: out)
qed

theorem trained_model_sees_only_age_witness:
  "\<exists>best clf results. trainer_run ex_fit [1, 0] ex_adult = Inr (best, clf, results) \<and>
     (\<exists>out. manual_submit clf (feature_names_in clf) translations_en default_form = Inr out \<and>
        m_prediction out = decide clf (map (\<lambda>s. if s = ''age'' then Num 18 else Num 0)
                                         (feature_names_in clf)))"
proof -
  obtain clf results where run: "trainer_run ex_fit [1, 0] ex_adult = Inr (''SVM'', clf, results)"
    using trainer_run_ex_adult by blast
  have wf: "frame_wf ex_adult" and cols: "columns ex_adult = adult_header"
    using ex_adult_ok by auto
  have names: "\<forall>n X y. feature_names_in (ex_fit n X y) = columns X"
    by (simp add: ex_fit_def)
  have hours: "''hours_per_week'' \<notin> set (columns ex_adult)"
    by (simp add: cols adult_header_def)
  have raw: "\<forall>s\<in>set (columns ex_adult). \<forall>n\<in>set [''gender'', ''workclass'', ''education'', ''occupation''].
      \<not> starts_with (n @ ''_'') s"
    by (simp add: cols adult_header_def starts_with_def)
  have lang: "get_translations ''en'' = Inr translations_en"
    by (simp add: get_translations_def translations_dict_def dict_get_def)
  have a: "age_in default_form = 18" by (simp add: default_form_def)
  have "\<exists>out. manual_submit clf (feature_names_in clf) translations_en default_form = Inr out \<and>
      m_prediction out = decide clf (map (\<lambda>s. if s = ''age'' then Num (age_in default_form) else Num 0)
                                       (feature_names_in clf))"
    using trained_model_sees_only_age [OF run wf names hours raw lang, of default_form] by (rule conjunct1)
  then have "\<exists>out. manual_submit clf (feature_names_in clf) translations_en default_form = Inr out \<and>
      m_prediction out = decide clf (map (\<lambda>s. if s = ''age'' then Num 18 else Num 0)
                                       (feature_names_in clf))"
    by (simp only: a)
  with run show ?thesis by blast
qed

theorem manual_download_to_bulk_witness:
  "\<exists>out out'. manual_submit ex_clf ex_schema translations_en default_form = Inr out \<and>
     bulk_submit ex_clf ex_schema translations_en (Some (m_csv out)) = Inr (Some out') \<and>
     b_result out' = (m_result out)\<lparr>cols := cols (m_result out) @ [(''Prediction'', [m_prediction out])]\<rparr>"
proof -
  let ?M = "manual_frame default_form"
  have names: "feature_names_in ex_clf = ex_schema" by (simp add: ex_clf_def)
  have lk: "dict_get translations_en ''predicted_income'' = Inr (the (map_of translations_en ''predicted_income''))"
    "dict_get translations_en ''upload_csv'' = Inr (the (map_of translations_en ''upload_csv''))"
    "dict_get translations_en ''download'' = Inr (the (map_of translations_en ''download''))"
    by (simp_all add: dict_get_def translations_en_def)
  have p: "decide ex_clf (encode_row (col_types ?M) ex_schema (row ?M 0)) = Str ''>50K''"
    by (simp add: ex_clf_def ex_schema_def form_defs frame_defs align_defs)
  obtain out where run: "manual_submit ex_clf ex_schema translations_en default_form = Inr out"
    and res: "m_result out = ?M\<lparr>cols := cols ?M @ [(''prediction'', [Str ''>50K''])]\<rparr>"
    using manual_submit_eq [OF names lk(1), of default_form] p by simp
  have safe: "csv_safe (m_result out)"
    unfolding res
    by (simp add: csv_safe_def frame_wf_def columns_def col_safe_def obj_col_def col_text_def
      csv_row_ok_def na_values_def parse_int_def is_space_def parse_nat_def digit_of_def
      form_defs frame_defs int_str_def nat_str.simps digit_char_def)
  have pre: "\<forall>s\<in>set ex_schema. s \<noteq> ''prediction'' \<and> \<not> starts_with ''prediction_'' s"
    by (simp add: ex_schema_def starts_with_def)
  from manual_download_to_bulk [OF names lk run safe pre] run show ?thesis by blast
qed

end
